(* ===== verification/Go_Float.thy ===== *)
theory Go_Float
  imports Complex_Main
begin

text \<open>
  The \<^verbatim>\<open>float64\<close> of the Go code. Every finite binary64 value is a rational, so a
  float is a rational, one of the infinities, or NaN (the sign of zero is not kept: no
  operation modelled here divides by zero or inspects a sign bit). Arithmetic computes
  the exact rational result and rounds it to the nearest binary64 value, ties to even,
  as IEEE 754 and the Go specification prescribe.
\<close>

datatype f64 = NaN | NegInf | Fin rat | PosInf

fun f64_lt :: "f64 \<Rightarrow> f64 \<Rightarrow> bool" where
  "f64_lt (Fin x) (Fin y) = (x < y)"
| "f64_lt NegInf (Fin y) = True"
| "f64_lt NegInf PosInf = True"
| "f64_lt (Fin x) PosInf = True"
| "f64_lt _ _ = False"

definition f64_gt :: "f64 \<Rightarrow> f64 \<Rightarrow> bool" where
  "f64_gt x y = f64_lt y x"

fun f64_eq :: "f64 \<Rightarrow> f64 \<Rightarrow> bool" where
  "f64_eq NaN _ = False"
| "f64_eq _ NaN = False"
| "f64_eq x y = (x = y)"

definition f64_le :: "f64 \<Rightarrow> f64 \<Rightarrow> bool" where
  "f64_le x y = (f64_lt x y \<or> f64_eq x y)"

lemma f64_gt_Fin [simp]: "f64_gt (Fin x) (Fin y) = (y < x)"
  by (simp add: f64_gt_def)

lemma f64_eq_Fin [simp]: "f64_eq (Fin x) (Fin y) = (x = y)"
  by simp

lemma f64_lt_irrefl [simp]: "\<not> f64_lt x x"
  by (cases x) auto

lemma f64_lt_trans: "f64_lt x y \<Longrightarrow> f64_lt y z \<Longrightarrow> f64_lt x z"
  by (cases x; cases y; cases z) auto

lemma f64_lt_asym: "f64_lt x y \<Longrightarrow> \<not> f64_lt y x"
  by (cases x; cases y) auto

text \<open>Comparisons with NaN are all false, so "neither below nor above" is not "inside".\<close>

lemma f64_NaN_compare [simp]:
  "\<not> f64_lt NaN x" "\<not> f64_lt x NaN" "\<not> f64_gt NaN x" "\<not> f64_gt x NaN"
  "\<not> f64_eq NaN x" "\<not> f64_eq x NaN"
  by (cases x; simp add: f64_gt_def)+

subsection \<open>Rounding to binary64\<close>

function bit_len :: "int \<Rightarrow> int" where
  "bit_len n = (if n \<le> 0 then 0 else 1 + bit_len (n div 2))"
  by pat_completeness auto
termination
  by (relation "measure nat") auto

declare bit_len.simps [simp del]

definition two_pow :: "int \<Rightarrow> rat" where
  "two_pow e = (if 0 \<le> e then 2 ^ nat e else 1 / 2 ^ nat (- e))"

text \<open>The largest \<open>k\<close> with \<open>2\<^sup>k \<le> x\<close>, for positive \<open>x\<close>.\<close>

definition log2_floor :: "rat \<Rightarrow> int" where
  "log2_floor x =
     (case quotient_of x of (a, b) \<Rightarrow>
        let k = bit_len a - bit_len b
        in if two_pow k \<le> x then k else k - 1)"

text \<open>The unit in the last place: 53 bits of precision, exponents from -1074.\<close>

definition ulp_exp :: "rat \<Rightarrow> int" where
  "ulp_exp x = max (log2_floor x - 52) (- 1074)"

definition round_even :: "rat \<Rightarrow> int" where
  "round_even y =
     (let n = \<lfloor>y\<rfloor>; d = y - of_int n
      in if d < 1 / 2 then n
         else if d > 1 / 2 then n + 1
         else if even n then n else n + 1)"

definition round_pos :: "rat \<Rightarrow> rat" where
  "round_pos x = of_int (round_even (x / two_pow (ulp_exp x))) * two_pow (ulp_exp x)"

definition f64_round :: "rat \<Rightarrow> f64" where
  "f64_round x =
     (if x = 0 then Fin 0
      else let r = round_pos \<bar>x\<bar>
           in if 1024 \<le> log2_floor r then (if 0 < x then PosInf else NegInf)
              else Fin (if 0 < x then r else - r))"

definition f64_of_int :: "int \<Rightarrow> f64" where
  "f64_of_int n = f64_round (of_int n)"

text \<open>
  The operations the code uses: division of two counts (the divisor is never zero
  there), multiplication, subtraction and the absolute value.
\<close>

fun f64_div :: "f64 \<Rightarrow> f64 \<Rightarrow> f64" where
  "f64_div (Fin x) (Fin y) =
     (if y = 0 then (if x = 0 then NaN else if 0 < x then PosInf else NegInf)
      else f64_round (x / y))"
| "f64_div (Fin x) PosInf = Fin 0"
| "f64_div (Fin x) NegInf = Fin 0"
| "f64_div PosInf (Fin y) = (if y < 0 then NegInf else PosInf)"
| "f64_div NegInf (Fin y) = (if y < 0 then PosInf else NegInf)"
| "f64_div _ _ = NaN"

fun f64_neg :: "f64 \<Rightarrow> f64" where
  "f64_neg (Fin x) = Fin (- x)"
| "f64_neg PosInf = NegInf"
| "f64_neg NegInf = PosInf"
| "f64_neg NaN = NaN"

fun f64_add :: "f64 \<Rightarrow> f64 \<Rightarrow> f64" where
  "f64_add (Fin x) (Fin y) = f64_round (x + y)"
| "f64_add NaN _ = NaN"
| "f64_add _ NaN = NaN"
| "f64_add PosInf NegInf = NaN"
| "f64_add NegInf PosInf = NaN"
| "f64_add PosInf _ = PosInf"
| "f64_add _ PosInf = PosInf"
| "f64_add NegInf _ = NegInf"
| "f64_add _ NegInf = NegInf"

definition f64_sub :: "f64 \<Rightarrow> f64 \<Rightarrow> f64" where
  "f64_sub x y = f64_add x (f64_neg y)"

fun f64_abs :: "f64 \<Rightarrow> f64" where
  "f64_abs (Fin x) = Fin \<bar>x\<bar>"
| "f64_abs NegInf = PosInf"
| "f64_abs x = x"

fun f64_mul :: "f64 \<Rightarrow> f64 \<Rightarrow> f64" where
  "f64_mul (Fin x) (Fin y) = f64_round (x * y)"
| "f64_mul NaN _ = NaN"
| "f64_mul _ NaN = NaN"
| "f64_mul (Fin x) y = (if x = 0 then NaN else if 0 < x then y else f64_neg y)"
| "f64_mul x (Fin y) = (if y = 0 then NaN else if 0 < y then x else f64_neg x)"
| "f64_mul x y = (if x = y then PosInf else NegInf)"

subsection \<open>Facts about rounding\<close>

lemma two_pow_pos [simp]: "0 < two_pow e"
  by (simp add: two_pow_def)

lemma two_pow_0 [simp]: "two_pow 0 = 1"
  by (simp add: two_pow_def)

lemma two_pow_add: "two_pow (a + b) = two_pow a * two_pow b"
proof -
  have powi: "two_pow e = 2 powi e" for e
    by (simp add: two_pow_def power_int_def field_simps)
  show ?thesis by (simp add: powi power_int_add)
qed

lemma two_pow_le_1: "e \<le> 0 \<Longrightarrow> two_pow e \<le> 1"
  by (simp add: two_pow_def)

lemma round_even_mono_int:
  assumes "y \<le> of_int n"
  shows "round_even y \<le> n"
proof (cases "y = of_int n")
  case True
  then show ?thesis by (simp add: round_even_def)
next
  case False
  with assms have "y < of_int n" by simp
  then have "\<lfloor>y\<rfloor> < n" by (simp add: floor_less_iff)
  then show ?thesis by (simp add: round_even_def Let_def)
qed

lemma round_even_nonneg: "0 \<le> y \<Longrightarrow> 0 \<le> round_even y"
  by (simp add: round_even_def Let_def)

lemma round_pos_nonneg: "0 \<le> x \<Longrightarrow> 0 \<le> round_pos x"
  by (simp add: round_pos_def round_even_nonneg less_imp_le)

lemma bit_len_nonneg: "0 \<le> bit_len n"
proof (induction n rule: bit_len.induct)
  case (1 n)
  then show ?case by (cases "n \<le> 0") (simp_all add: bit_len.simps [of n])
qed

lemma bit_len_mono: "m \<le> n \<Longrightarrow> bit_len m \<le> bit_len n"
proof (induction n arbitrary: m rule: bit_len.induct)
  case (1 n)
  show ?case
  proof (cases "m \<le> 0")
    case True
    then show ?thesis by (simp add: bit_len.simps [of m] bit_len_nonneg)
  next
    case False
    with "1.prems" have n: "\<not> n \<le> 0" and "m div 2 \<le> n div 2"
      by (auto intro: zdiv_mono1)
    then have "bit_len (m div 2) \<le> bit_len (n div 2)" using "1.IH" by blast
    with False n show ?thesis by (simp add: bit_len.simps [of m] bit_len.simps [of n])
  qed
qed

lemma log2_floor_le_1:
  assumes "0 < x" and "x \<le> 1"
  shows "log2_floor x \<le> 0"
proof -
  obtain a b where q: "quotient_of x = (a, b)" by fastforce
  have b: "0 < b" and x: "x = of_int a / of_int b"
    using q quotient_of_denom_pos quotient_of_div by blast+
  with assms(2) have "a \<le> b" by (simp add: divide_le_eq)
  then have "bit_len a \<le> bit_len b" by (rule bit_len_mono)
  then show ?thesis by (simp add: log2_floor_def q Let_def)
qed

lemma round_pos_le_1:
  assumes "0 < x" and "x \<le> 1"
  shows "round_pos x \<le> 1"
proof -
  let ?e = "ulp_exp x"
  have e: "?e \<le> 0" using log2_floor_le_1 [OF assms] by (simp add: ulp_exp_def)
  then have pe: "two_pow ?e = 1 / of_int (2 ^ nat (- ?e))" by (auto simp: two_pow_def)
  have "x / two_pow ?e \<le> 1 / two_pow ?e"
    using assms(2) two_pow_pos [of ?e] by (intro divide_right_mono) (auto simp: less_imp_le)
  also have "\<dots> = of_int (2 ^ nat (- ?e))" by (simp add: pe)
  finally have "round_even (x / two_pow ?e) \<le> 2 ^ nat (- ?e)" by (rule round_even_mono_int)
  then have "of_int (round_even (x / two_pow ?e)) \<le> (of_int (2 ^ nat (- ?e)) :: rat)"
    by (simp only: of_int_le_iff)
  then have "round_pos x \<le> of_int (2 ^ nat (- ?e)) * two_pow ?e"
    unfolding round_pos_def by (intro mult_right_mono) (auto simp: less_imp_le)
  then show ?thesis by (simp add: pe)
qed

text \<open>A quotient in the unit interval stays there when it is rounded.\<close>

lemma f64_round_unit:
  assumes "0 \<le> x" and "x \<le> 1"
  obtains r where "f64_round x = Fin r" and "0 \<le> r" and "r \<le> 1"
proof (cases "x = 0")
  case True
  then show ?thesis using that [of 0] by (simp add: f64_round_def)
next
  case False
  with assms have x: "0 < x" by simp
  have "log2_floor (0 :: rat) \<le> 0" by (simp add: log2_floor_def bit_len.simps Let_def)
  then have "log2_floor (round_pos x) \<le> 0"
    using round_pos_nonneg [of x] round_pos_le_1 [OF x assms(2)] x
      log2_floor_le_1 [of "round_pos x"]
    by (cases "round_pos x = 0") auto
  with x show ?thesis
    using that [of "round_pos x"] round_pos_nonneg [of x] round_pos_le_1 [OF x assms(2)]
    by (simp add: f64_round_def)
qed

subsection \<open>Rounding twice\<close>

lemma two_pow_nat: "two_pow (int n) = 2 ^ n"
  by (simp add: two_pow_def)

lemma two_pow_mono: "a \<le> b \<Longrightarrow> two_pow a \<le> two_pow b"
proof -
  assume "a \<le> b"
  then have "two_pow b = two_pow a * 2 ^ nat (b - a)" using two_pow_add [of a "b - a"] two_pow_nat [of "nat (b - a)"] by simp
  moreover have "(1 :: rat) \<le> 2 ^ nat (b - a)" by simp
  ultimately show ?thesis using two_pow_pos [of a] by (metis less_imp_le mult.right_neutral mult_left_mono)
qed

lemma two_pow_less_iff: "two_pow a < two_pow b \<longleftrightarrow> a < b"
proof -
  have "two_pow a < two_pow (a + 1)" for a using two_pow_add [of a 1] two_pow_pos [of a] by (simp add: two_pow_def [of 1])
  then show ?thesis by (meson not_le order_le_less_trans order_less_le_trans two_pow_mono zless_imp_add1_zle)
qed

lemma bit_len_bounds: "0 < n \<Longrightarrow> 0 < bit_len n \<and> 2 ^ nat (bit_len n - 1) \<le> n \<and> n < 2 ^ nat (bit_len n)"
proof (induction n rule: bit_len.induct)
  case (1 n)
  have len: "bit_len n = 1 + bit_len (n div 2)" using 1 by (subst bit_len.simps) simp
  show ?case
  proof (cases "n = 1")
    case True
    then show ?thesis using len by (simp add: bit_len.simps [of 0])
  next
    case False
    with 1 have ih: "0 < bit_len (n div 2)" "2 ^ nat (bit_len (n div 2) - 1) \<le> n div 2" "n div 2 < 2 ^ nat (bit_len (n div 2))" by simp_all
    have "nat (bit_len n - 1) = Suc (nat (bit_len (n div 2) - 1))" "nat (bit_len n) = Suc (nat (bit_len (n div 2)))"
      using len ih(1) by simp_all
    then have e: "(2 :: int) ^ nat (bit_len n - 1) = 2 * 2 ^ nat (bit_len (n div 2) - 1)" "(2 :: int) ^ nat (bit_len n) = 2 * 2 ^ nat (bit_len (n div 2))"
      by simp_all
    have "2 * (n div 2) \<le> n" "n \<le> 2 * (n div 2) + 1" by simp_all
    with ih len show ?thesis unfolding e by linarith
  qed
qed

lemma bit_len_two_pow:
  assumes "0 < n"
  shows "two_pow (bit_len n - 1) \<le> of_int n" and "of_int n < two_pow (bit_len n)"
proof -
  note b = bit_len_bounds [OF assms]
  have "of_int (2 ^ nat (bit_len n - 1)) \<le> (of_int n :: rat)" using b by (simp only: of_int_le_iff)
  then show "two_pow (bit_len n - 1) \<le> of_int n" using b by (simp add: two_pow_def)
  have "(of_int n :: rat) < of_int (2 ^ nat (bit_len n))" using b by (simp only: of_int_less_iff)
  then show "of_int n < two_pow (bit_len n)" using b by (simp add: two_pow_def)
qed

lemma log2_floor_bounds:
  assumes "0 < x"
  shows "two_pow (log2_floor x) \<le> x" and "x < two_pow (log2_floor x + 1)"
proof -
  obtain a b where q: "quotient_of x = (a, b)" by fastforce
  have b: "0 < b" and x: "x = of_int a / of_int b" using q quotient_of_denom_pos quotient_of_div by blast+
  with assms have a: "0 < a" by (simp add: zero_less_divide_iff)
  let ?A = "bit_len a" and ?B = "bit_len b"
  note A = bit_len_two_pow [OF a] and B = bit_len_two_pow [OF b]
  have "two_pow (?A - ?B - 1) * two_pow ?B = two_pow (?A - 1)" by (simp flip: two_pow_add)
  moreover have "two_pow (?A - ?B - 1) * of_int b \<le> two_pow (?A - ?B - 1) * two_pow ?B"
    using B(2) by (intro mult_left_mono) (simp_all add: less_imp_le)
  ultimately have "two_pow (?A - ?B - 1) * of_int b \<le> of_int a" using A(1) by linarith
  then have lo: "two_pow (?A - ?B - 1) \<le> x" using b by (simp add: x pos_le_divide_eq)
  have "two_pow (?A - ?B + 1) * two_pow (?B - 1) = two_pow ?A" by (simp flip: two_pow_add)
  moreover have "two_pow (?A - ?B + 1) * two_pow (?B - 1) \<le> two_pow (?A - ?B + 1) * of_int b"
    using B(1) by (intro mult_left_mono) (simp_all add: less_imp_le)
  ultimately have "of_int a < two_pow (?A - ?B + 1) * of_int b" using A(2) by linarith
  then have hi: "x < two_pow (?A - ?B + 1)" using b by (simp add: x pos_divide_less_eq)
  have "log2_floor x = (if two_pow (?A - ?B) \<le> x then ?A - ?B else ?A - ?B - 1)"
    by (simp add: log2_floor_def q Let_def)
  with lo hi show "two_pow (log2_floor x) \<le> x" "x < two_pow (log2_floor x + 1)" by (auto split: if_splits)
qed

lemma log2_floor_unique:
  assumes "two_pow k \<le> x" and "x < two_pow (k + 1)"
  shows "log2_floor x = k"
proof -
  have "0 < x" using assms(1) two_pow_pos [of k] by (rule less_le_trans [rotated])
  from log2_floor_bounds [OF this] assms have "two_pow (log2_floor x) < two_pow (k + 1)" "two_pow k < two_pow (log2_floor x + 1)"
    by linarith+
  then show ?thesis by (simp add: two_pow_less_iff)
qed

lemma round_even_int [simp]: "round_even (of_int n) = n"
  by (simp add: round_even_def)

lemma round_pos_multiple:
  assumes "x / two_pow (ulp_exp x) = of_int n"
  shows "round_pos x = x"
proof -
  have "x = of_int n * two_pow (ulp_exp x)" using assms two_pow_pos [of "ulp_exp x"] by (simp add: field_simps)
  then show ?thesis unfolding round_pos_def assms by simp
qed

lemma round_pos_idem:
  assumes "0 < x"
  shows "round_pos (round_pos x) = round_pos x"
proof -
  let ?e = "ulp_exp x" and ?y = "round_pos x"
  define n where "n = round_even (x / two_pow ?e)"
  have y: "?y = of_int n * two_pow ?e" by (simp add: round_pos_def n_def)
  have n0: "0 \<le> n" using assms by (simp add: n_def round_even_nonneg less_imp_le)
  have "log2_floor x + 1 \<le> 53 + ?e" by (simp add: ulp_exp_def)
  then have "x < two_pow (53 + ?e)"
    using log2_floor_bounds(2) [OF assms] two_pow_mono [of "log2_floor x + 1" "53 + ?e"] by linarith
  then have "x / two_pow ?e < 2 ^ 53" using two_pow_pos [of ?e] two_pow_nat [of 53] by (simp add: pos_divide_less_eq two_pow_add)
  then have n53: "n \<le> 2 ^ 53" unfolding n_def by (intro round_even_mono_int) simp
  show ?thesis
  proof (cases "n = 0")
    case True
    then have "?y = 0" by (simp add: y)
    moreover have "round_pos 0 = 0" by (simp add: round_pos_def round_even_def)
    ultimately show ?thesis by (simp only:)
  next
    case False
    with n0 have "0 < ?y" by (simp add: y)
    note yb = log2_floor_bounds [OF this]
    show ?thesis
    proof (cases "ulp_exp ?y \<le> ?e")
      case True
      define f where "f = ulp_exp ?y"
      have "two_pow ?e = two_pow f * 2 ^ nat (?e - f)"
        using two_pow_add [of f "?e - f"] two_pow_nat [of "nat (?e - f)"] True by (simp add: f_def)
      then have "?y = of_int (n * 2 ^ nat (?e - f)) * two_pow f" by (simp add: y)
      then have "?y / two_pow f = of_int (n * 2 ^ nat (?e - f))" using less_imp_neq [OF two_pow_pos [of f]] by (simp add: field_simps)
      then have "?y / two_pow (ulp_exp ?y) = of_int (n * 2 ^ nat (?e - f))" by (simp only: f_def)
      then show ?thesis by (rule round_pos_multiple)
    next
      case F: False
      then have l: "ulp_exp ?y = log2_floor ?y - 52" "?e + 53 \<le> log2_floor ?y" by (auto simp: ulp_exp_def split: if_splits)
      then have "two_pow (?e + 53) \<le> ?y" using yb(1) two_pow_mono [OF l(2)] by linarith
      moreover have "two_pow (?e + 53) = 2 ^ 53 * two_pow ?e" using two_pow_add [of ?e 53] two_pow_nat [of 53] by simp
      ultimately have "(2 ^ 53 :: rat) * two_pow ?e \<le> of_int n * two_pow ?e" by (simp add: y)
      then have "(2 ^ 53 :: rat) \<le> of_int n" using two_pow_pos [of ?e] by (simp add: mult_le_cancel_right)
      then have "of_int (2 ^ 53) \<le> (of_int n :: rat)" by simp
      then have "n = 2 ^ 53" using n53 by (simp only: of_int_le_iff)
      then have y53: "?y = two_pow (?e + 53)" using \<open>two_pow (?e + 53) = 2 ^ 53 * two_pow ?e\<close> by (simp add: y)
      then have "log2_floor ?y = ?e + 53" by (intro log2_floor_unique) (simp_all add: two_pow_less_iff)
      with l have "?y / two_pow (ulp_exp ?y) = two_pow (?e + 53) / two_pow (?e + 1)" by (simp add: y53 add.commute [of 1])
      also have "\<dots> = 2 ^ 52"
        using two_pow_add [of "?e + 1" 52] two_pow_nat [of 52] less_imp_neq [OF two_pow_pos [of "1 + ?e"]]
        by (simp add: algebra_simps)
      finally have "?y / two_pow (ulp_exp ?y) = of_int (2 ^ 52)" by simp
      then show ?thesis by (rule round_pos_multiple)
    qed
  qed
qed

text \<open>What rounding gives is a binary64 value: rounding it again changes nothing.\<close>

theorem f64_round_idem: "f64_round x = Fin q \<Longrightarrow> f64_round q = Fin q"
proof -
  assume x: "f64_round x = Fin q"
  show ?thesis
  proof (cases "q = 0")
    case True
    then show ?thesis by (simp add: f64_round_def)
  next
    case False
    with x have xn: "x \<noteq> 0" by (auto simp: f64_round_def)
    with x have q: "q = (if 0 < x then round_pos \<bar>x\<bar> else - round_pos \<bar>x\<bar>)" "\<not> 1024 \<le> log2_floor (round_pos \<bar>x\<bar>)"
      by (auto simp: f64_round_def Let_def split: if_splits)
    have r: "0 \<le> round_pos \<bar>x\<bar>" by (simp add: round_pos_nonneg)
    with q False have a: "\<bar>q\<bar> = round_pos \<bar>x\<bar>" "0 < q \<longleftrightarrow> 0 < x" using xn by (auto split: if_splits)
    have "round_pos \<bar>q\<bar> = \<bar>q\<bar>" unfolding a(1) using xn by (intro round_pos_idem) simp
    with q(2) False show ?thesis by (auto simp: f64_round_def Let_def a(1) [symmetric])
  qed
qed

end
