(* ===== verification/Go_Prelude.thy ===== *)
theory Go_Prelude
  imports
    Go_Float
    "HOL-Library.Multiset"
    "HOL-Library.List_Lexorder"
    "HOL-Library.Char_ord"
begin

text \<open>
  What every component shares: error values, outcomes that may panic, and the generic
  lemmas on lists and maps that the component theories use.

  A Go string is a sequence of bytes, so it is a \<open>string\<close> (a list of 8-bit characters)
  and the order on strings is the byte-wise lexicographic one, as in Go. An \<open>int\<close> of
  the source is a HOL \<open>int\<close> wherever the code cannot overflow it; where it can, the
  component keeps the width (\<open>64 word\<close>).
\<close>

subsection \<open>Errors\<close>

text \<open>
  \<open>Sentinel m\<close> is a package-level \<^verbatim>\<open>errors.New(m)\<close> variable: the repository's
  sentinels have pairwise different messages, so the message is its identity.
  \<open>Errorf f args\<close> is a \<^verbatim>\<open>fmt.Errorf\<close> (or an anonymous \<^verbatim>\<open>errors.New\<close>, which has no
  arguments): the format with its operands, \<open>ArgErr\<close> for a \<open>%w\<close> operand.
  \<open>External m\<close> is an error made by code outside the repository.
\<close>

datatype err =
    Sentinel string
  | Errorf string "arg list"
  | ValidationError "problem list"
  | ItemStateError string string string int int err
  | External string
and arg =
    ArgStr string
  | ArgQuoted string
  | ArgInt int
  | ArgFloat f64
  | ArgStrs "string list"
  | ArgErr err
  | ArgVal err
and problem = FieldProblem string err

text \<open>
  \<^verbatim>\<open>errors.Is(err, target)\<close> for a sentinel target: the error itself, what it wraps with
  \<open>%w\<close>, or what its own \<^verbatim>\<open>Is\<close> or \<^verbatim>\<open>Unwrap\<close> method reaches.
\<close>

fun errors_is :: "err \<Rightarrow> err \<Rightarrow> bool"
  and arg_is :: "arg \<Rightarrow> err \<Rightarrow> bool"
  and problem_is :: "problem \<Rightarrow> err \<Rightarrow> bool" where
  "errors_is (Sentinel s) t = (Sentinel s = t)"
| "errors_is (Errorf f args) t = list_ex (\<lambda>a. arg_is a t) args"
| "errors_is (ValidationError ps) t = list_ex (\<lambda>p. problem_is p t) ps"
| "errors_is (ItemStateError _ _ _ _ _ c) t = errors_is c t"
| "errors_is (External _) t = False"
| "arg_is (ArgErr e) t = errors_is e t"
| "arg_is _ t = False"
| "problem_is (FieldProblem f e) t = errors_is e t"

primrec problem_field :: "problem \<Rightarrow> string" where
  "problem_field (FieldProblem f e) = f"

primrec problem_err :: "problem \<Rightarrow> err" where
  "problem_err (FieldProblem f e) = e"

lemma problem_is_err: "problem_is p t = errors_is (problem_err p) t"
  by (cases p) simp

text \<open>The two sentinels of package context, and the two of io/fs and net/http the code tests.\<close>

definition context_Canceled :: err where
  "context_Canceled = Sentinel ''context canceled''"

definition context_DeadlineExceeded :: err where
  "context_DeadlineExceeded = Sentinel ''context deadline exceeded''"

definition fs_ErrNotExist :: err where
  "fs_ErrNotExist = Sentinel ''file does not exist''"

definition http_ErrServerClosed :: err where
  "http_ErrServerClosed = Sentinel ''http: Server closed''"

text \<open>
  A function with results \<open>(T, error)\<close> returns \<open>err + T\<close>; one that may also panic
  (a slice out of range, a negative \<^verbatim>\<open>make\<close>) returns an \<open>outcome\<close>.
\<close>

datatype 'a outcome = Ok 'a | Err err | Panic string

fun outcome_of :: "err + 'a \<Rightarrow> 'a outcome" where
  "outcome_of (Inl e) = Err e"
| "outcome_of (Inr x) = Ok x"

primrec outcome_bind :: "'a outcome \<Rightarrow> ('a \<Rightarrow> 'b outcome) \<Rightarrow> 'b outcome" where
  "outcome_bind (Ok x) f = f x"
| "outcome_bind (Err e) f = Err e"
| "outcome_bind (Panic m) f = Panic m"

lemma outcome_bind_Ok: "outcome_bind m f = Ok y \<longleftrightarrow> (\<exists>x. m = Ok x \<and> f x = Ok y)"
  by (cases m) auto

lemma outcome_of_Ok: "outcome_of r = Ok x \<longleftrightarrow> r = Inr x"
  by (cases r) auto

subsection \<open>Sorting\<close>

text \<open>
  \<^verbatim>\<open>sort.Strings\<close> sorts a list of strings; on a total order every sorting algorithm
  gives the same list, so the library's \<open>sort\<close> is that function. \<^verbatim>\<open>sort.Slice\<close> is not
  stable and its order of equivalent elements is not specified: the code's use of it takes the sorting
  function as a parameter, and \<open>sorts_by\<close> is its documented contract.
\<close>

definition sorts_by :: "('a \<Rightarrow> 'a \<Rightarrow> bool) \<Rightarrow> (('a \<Rightarrow> 'a \<Rightarrow> bool) \<Rightarrow> 'a list \<Rightarrow> 'a list) \<Rightarrow> bool" where
  "sorts_by lt srt \<longleftrightarrow>
     (\<forall>xs. mset (srt lt xs) = mset xs \<and> sorted_wrt (\<lambda>x y. \<not> lt y x) (srt lt xs))"

text \<open>
  Insertion sort, which is what \<^verbatim>\<open>sort.Slice\<close> runs on up to twelve elements; it
  instantiates the parameter in concrete runs.
\<close>

fun insert_by :: "('a \<Rightarrow> 'a \<Rightarrow> bool) \<Rightarrow> 'a \<Rightarrow> 'a list \<Rightarrow> 'a list" where
  "insert_by lt x [] = [x]"
| "insert_by lt x (y # ys) = (if lt y x then y # insert_by lt x ys else x # y # ys)"

definition insertion_sort :: "('a \<Rightarrow> 'a \<Rightarrow> bool) \<Rightarrow> 'a list \<Rightarrow> 'a list" where
  "insertion_sort lt xs = foldr (insert_by lt) xs []"

lemma mset_insert_by: "mset (insert_by lt x ys) = add_mset x (mset ys)"
  by (induction ys) auto

lemma mset_insertion_sort: "mset (insertion_sort lt xs) = mset xs"
  by (induction xs) (auto simp: insertion_sort_def mset_insert_by)

lemma set_insert_by: "set (insert_by lt x ys) = insert x (set ys)"
  by (induction ys) auto

lemma sorted_insert_by:
  assumes "\<And>a b c. lt a b \<Longrightarrow> \<not> lt c b \<Longrightarrow> lt a c"
    and "\<And>a b. lt a b \<Longrightarrow> \<not> lt b a"
    and "sorted_wrt (\<lambda>x y. \<not> lt y x) ys"
  shows "sorted_wrt (\<lambda>x y. \<not> lt y x) (insert_by lt x ys)"
  using assms(3)
proof (induction ys)
  case Nil
  then show ?case by simp
next
  case (Cons y ys)
  show ?case
  proof (cases "lt y x")
    case True
    with Cons assms(2) show ?thesis by (auto simp: set_insert_by)
  next
    case False
    have "\<not> lt z x" if "z \<in> set ys" for z
    proof
      assume "lt z x"
      then have "lt z y" using False by (rule assms(1))
      with Cons.prems that show False by simp
    qed
    with False Cons.prems show ?thesis by auto
  qed
qed

lemma insertion_sort_sorts_by:
  assumes "\<And>a b c. lt a b \<Longrightarrow> \<not> lt c b \<Longrightarrow> lt a c"
    and "\<And>a b. lt a b \<Longrightarrow> \<not> lt b a"
  shows "sorts_by lt insertion_sort"
proof -
  have "sorted_wrt (\<lambda>x y. \<not> lt y x) (insertion_sort lt xs)" for xs
    by (induction xs) (auto simp: insertion_sort_def intro!: sorted_insert_by assms(2) dest: assms(1))
  then show ?thesis by (simp add: sorts_by_def mset_insertion_sort)
qed

lemma sorts_by_mset: "sorts_by lt srt \<Longrightarrow> mset (srt lt xs) = mset xs"
  by (simp add: sorts_by_def)

lemma sorts_by_set: "sorts_by lt srt \<Longrightarrow> set (srt lt xs) = set xs"
  by (metis sorts_by_mset set_mset_mset)

lemma sorts_by_length: "sorts_by lt srt \<Longrightarrow> length (srt lt xs) = length xs"
  by (metis sorts_by_mset size_mset)

text \<open>
  On floats \<^verbatim>\<open>sort.Slice\<close> can be handed a comparison that is no strict weak order (a NaN);
  its contract then promises a permutation only.
\<close>

definition strict_weak :: "('a \<Rightarrow> 'a \<Rightarrow> bool) \<Rightarrow> 'a set \<Rightarrow> bool" where
  "strict_weak lt A \<longleftrightarrow>
     (\<forall>a \<in> A. \<forall>b \<in> A. lt a b \<longrightarrow> \<not> lt b a)
   \<and> (\<forall>a \<in> A. \<forall>b \<in> A. \<forall>c \<in> A. lt a b \<longrightarrow> \<not> lt c b \<longrightarrow> lt a c)"

definition slice_sort :: "(('a \<Rightarrow> 'a \<Rightarrow> bool) \<Rightarrow> 'a list \<Rightarrow> 'a list) \<Rightarrow> bool" where
  "slice_sort srt \<longleftrightarrow>
     (\<forall>lt xs. mset (srt lt xs) = mset xs
        \<and> (strict_weak lt (set xs) \<longrightarrow> sorted_wrt (\<lambda>x y. \<not> lt y x) (srt lt xs)))"

lemma strict_weak_subset: "strict_weak lt B \<Longrightarrow> A \<subseteq> B \<Longrightarrow> strict_weak lt A"
  unfolding strict_weak_def by blast

lemma strict_weak_asym: "strict_weak lt A \<Longrightarrow> a \<in> A \<Longrightarrow> b \<in> A \<Longrightarrow> lt a b \<Longrightarrow> \<not> lt b a"
  unfolding strict_weak_def by blast

lemma strict_weak_trans:
  "strict_weak lt A \<Longrightarrow> a \<in> A \<Longrightarrow> b \<in> A \<Longrightarrow> c \<in> A \<Longrightarrow> lt a b \<Longrightarrow> \<not> lt c b \<Longrightarrow> lt a c"
  unfolding strict_weak_def by blast

lemma sorted_insert_by_on:
  assumes "strict_weak lt (insert x (set ys))" and "sorted_wrt (\<lambda>x y. \<not> lt y x) ys"
  shows "sorted_wrt (\<lambda>x y. \<not> lt y x) (insert_by lt x ys)"
  using assms
proof (induction ys)
  case (Cons y ys)
  have sw: "strict_weak lt (insert x (set ys))" using Cons.prems(1) by (rule strict_weak_subset) auto
  show ?case
  proof (cases "lt y x")
    case True
    then have "\<not> lt x y" using strict_weak_asym [OF Cons.prems(1), of y x] by simp
    with True Cons.IH [OF sw] Cons.prems(2) show ?thesis by (auto simp: set_insert_by)
  next
    case False
    have "\<not> lt z x" if "z \<in> set ys" for z
      using strict_weak_trans [OF Cons.prems(1), of z x y] Cons.prems(2) False that by auto
    with False Cons.prems(2) show ?thesis by auto
  qed
qed simp

lemma insertion_sort_slice_sort: "slice_sort insertion_sort"
proof -
  have "strict_weak lt (set xs) \<Longrightarrow> sorted_wrt (\<lambda>x y. \<not> lt y x) (insertion_sort lt xs)"
    for lt :: "'a \<Rightarrow> 'a \<Rightarrow> bool" and xs
  proof (induction xs)
    case (Cons x xs)
    have "strict_weak lt (set xs)" using Cons.prems by (rule strict_weak_subset) auto
    moreover have "set (insertion_sort lt xs) = set xs" using mset_insertion_sort by (rule mset_eq_setD)
    ultimately show ?case using Cons.IH Cons.prems
      by (simp add: insertion_sort_def sorted_insert_by_on)
  qed (simp add: insertion_sort_def)
  then show ?thesis by (simp add: slice_sort_def mset_insertion_sort)
qed

lemma slice_sort_set: "slice_sort srt \<Longrightarrow> set (srt lt xs) = set xs"
  by (metis slice_sort_def mset_eq_setD)

lemma slice_sort_length: "slice_sort srt \<Longrightarrow> length (srt lt xs) = length xs"
  by (metis slice_sort_def mset_eq_length)

text \<open>On a key that tells all elements apart, every sorting function gives the same list.\<close>

lemma sorts_by_key_unique:
  fixes key :: "'a \<Rightarrow> 'k :: linorder"
  assumes s: "sorts_by (\<lambda>x y. key x < key y) srt"
    and inj: "inj_on key (set xs)"
  shows "srt (\<lambda>x y. key x < key y) xs = sort_key key xs"
proof -
  let ?ys = "srt (\<lambda>x y. key x < key y) xs"
  have m: "mset ?ys = mset xs" using s by (rule sorts_by_mset)
  have st: "sorted (map key ?ys)"
    using s by (simp add: sorts_by_def sorted_map not_less)
  have "filter (\<lambda>x. key k = key x) ?ys = filter (\<lambda>x. key k = key x) xs" if k: "k \<in> set ?ys" for k
  proof -
    have "filter (\<lambda>x. key k = key x) zs = replicate (count (mset xs) k) k"
      if zs: "mset zs = mset xs" for zs
    proof -
      have "set zs = set xs" using zs by (rule mset_eq_setD)
      with k m inj have "filter (\<lambda>x. key k = key x) zs = filter (\<lambda>x. k = x) zs"
        by (intro filter_cong) (auto simp: inj_on_def dest: mset_eq_setD)
      then show ?thesis by (simp add: zs flip: replicate_count_mset_eq_filter_eq)
    qed
    with m show ?thesis by simp
  qed
  with m st show ?thesis by (metis properties_for_sort_key)
qed

subsection \<open>Directories\<close>

text \<open>What the code reads of an \<^verbatim>\<open>fs.DirEntry\<close>.\<close>

record DirEntry =
  Entry_Name :: string
  Entry_IsDir :: bool

end
