(* ===== verification/Go_Strings.thy ===== *)
theory Go_Strings
  imports Go_Prelude "HOL-Library.Sublist"
begin

text \<open>
  The functions of Go's packages strings, strconv and path that the code calls, on byte
  strings. Go decodes UTF-8 for case and white space; the definitions below do so where it
  can matter, that is for the runes whose lower case or folding is an ASCII letter, and
  for every white-space rune.
\<close>

abbreviation byte_val :: "char \<Rightarrow> nat" where
  "byte_val c \<equiv> of_char c"

definition is_ascii :: "string \<Rightarrow> bool" where
  "is_ascii s = list_all (\<lambda>c. byte_val c < 128) s"

subsection \<open>Case\<close>

definition ascii_lower :: "char \<Rightarrow> char" where
  "ascii_lower c = (if 65 \<le> byte_val c \<and> byte_val c \<le> 90 then char_of (byte_val c + 32) else c)"

text \<open>
  \<^verbatim>\<open>strings.ToLower\<close>, as far as a comparison with an ASCII string can tell: of the runes
  outside ASCII only U+212A (Kelvin sign, to \<open>k\<close>) and U+0130 (dotted capital I, to
  \<open>i\<close>) have an ASCII lower case; every other one stays outside ASCII.
\<close>

fun to_lower :: "string \<Rightarrow> string" where
  "to_lower [] = []"
| "to_lower (c # s) =
     (if c = CHR 0xE2 \<and> take 2 s = [CHR 0x84, CHR 0xAA] then CHR ''k'' # to_lower (drop 2 s)
      else if c = CHR 0xC4 \<and> take 1 s = [CHR 0xB0] then CHR ''i'' # to_lower (drop 1 s)
      else ascii_lower c # to_lower s)"

text \<open>
  \<^verbatim>\<open>strings.EqualFold(h, t)\<close> for an ASCII \<open>h\<close>: the runes outside ASCII that fold to an
  ASCII letter are U+017F (long s) and U+212A (Kelvin sign).
\<close>

fun equal_fold :: "string \<Rightarrow> string \<Rightarrow> bool" where
  "equal_fold [] t = (t = [])"
| "equal_fold (h # hs) t =
     (case t of
        [] \<Rightarrow> False
      | c # cs \<Rightarrow>
          if ascii_lower c = ascii_lower h then equal_fold hs cs
          else if ascii_lower h = CHR ''s'' \<and> c = CHR 0xC5 \<and> take 1 cs = [CHR 0xBF]
            then equal_fold hs (drop 1 cs)
          else if ascii_lower h = CHR ''k'' \<and> c = CHR 0xE2 \<and> take 2 cs = [CHR 0x84, CHR 0xAA]
            then equal_fold hs (drop 2 cs)
          else False)"

lemma ascii_not_lead:
  assumes "byte_val c < (128 :: nat)"
  shows "c \<noteq> CHR 0xE2" and "c \<noteq> CHR 0xC4" and "c \<noteq> CHR 0xC5"
  using assms by auto

lemma is_ascii_Cons [simp]: "is_ascii (c # s) \<longleftrightarrow> byte_val c < (128 :: nat) \<and> is_ascii s"
  by (simp add: is_ascii_def)

lemma to_lower_ascii: "is_ascii s \<Longrightarrow> to_lower s = map ascii_lower s"
proof (induction s)
  case (Cons c s)
  then have "byte_val c < (128 :: nat)" by simp
  from ascii_not_lead [OF this] Cons show ?case by (simp only: to_lower.simps) simp
qed simp

lemma equal_fold_ascii:
  "is_ascii t \<Longrightarrow> equal_fold h t \<longleftrightarrow> map ascii_lower t = map ascii_lower h"
proof (induction h arbitrary: t)
  case (Cons h hs)
  show ?case
  proof (cases t)
    case (Cons c cs)
    with Cons.prems have "byte_val c < (128 :: nat)" by simp
    from ascii_not_lead [OF this] show ?thesis
      using Cons.IH [of cs] Cons.prems by (simp only: Cons equal_fold.simps list.case) simp
  qed simp
qed simp

subsection \<open>Substrings\<close>

definition has_prefix :: "string \<Rightarrow> string \<Rightarrow> bool" where
  "has_prefix s p = prefix p s"

definition has_suffix :: "string \<Rightarrow> string \<Rightarrow> bool" where
  "has_suffix s p = suffix p s"

definition trim_suffix :: "string \<Rightarrow> string \<Rightarrow> string" where
  "trim_suffix s p = (if has_suffix s p then take (length s - length p) s else s)"

fun str_contains :: "string \<Rightarrow> string \<Rightarrow> bool" where
  "str_contains [] p = (p = [])"
| "str_contains (c # s) p = (prefix p (c # s) \<or> str_contains s p)"

lemma str_contains_sublist: "str_contains s p \<longleftrightarrow> sublist p s"
  by (induction s) (auto simp: sublist_Cons_right)

text \<open>\<^verbatim>\<open>strings.Cut\<close> and \<^verbatim>\<open>strings.SplitSeq\<close> for a separator of one byte, \<^verbatim>\<open>strings.LastIndex\<close> likewise.\<close>

definition cut :: "char \<Rightarrow> string \<Rightarrow> (string \<times> string) option" where
  "cut c s = (if c \<in> set s
     then Some (takeWhile (\<lambda>x. x \<noteq> c) s, tl (dropWhile (\<lambda>x. x \<noteq> c) s)) else None)"

fun split_on :: "char \<Rightarrow> string \<Rightarrow> string list" where
  "split_on c [] = [[]]"
| "split_on c (x # s) =
     (if x = c then [] # split_on c s
      else case split_on c s of [] \<Rightarrow> [[x]] | p # ps \<Rightarrow> (x # p) # ps)"

fun last_index :: "char \<Rightarrow> string \<Rightarrow> nat option" where
  "last_index c [] = None"
| "last_index c (x # s) =
     (case last_index c s of
        Some i \<Rightarrow> Some (Suc i)
      | None \<Rightarrow> if x = c then Some 0 else None)"

fun join_with :: "string \<Rightarrow> string list \<Rightarrow> string" where
  "join_with sep [] = []"
| "join_with sep [s] = s"
| "join_with sep (s # t # ss) = s @ sep @ join_with sep (t # ss)"

lemma cut_append [simp]: "c \<notin> set k \<Longrightarrow> cut c (k @ c # v) = Some (k, v)"
proof -
  assume c: "c \<notin> set k"
  then have "takeWhile (\<lambda>x. x \<noteq> c) (k @ c # v) = k" by (induction k) auto
  moreover from c have "dropWhile (\<lambda>x. x \<noteq> c) (k @ c # v) = c # v" by (induction k) auto
  ultimately show ?thesis by (simp add: cut_def)
qed

lemma cut_Some:
  assumes "cut c s = Some (k, v)"
  shows "s = k @ c # v \<and> c \<notin> set k"
proof -
  from assms have "c \<in> set s" by (simp add: cut_def split: if_splits)
  then obtain k' v' where s: "s = k' @ c # v'" "c \<notin> set k'" by (metis split_list_first)
  with assms show ?thesis by simp
qed

lemma cut_None: "cut c s = None \<longleftrightarrow> c \<notin> set s"
  by (simp add: cut_def)

lemma split_on_nonempty [simp]: "split_on c s \<noteq> []"
  by (induction s) (auto split: list.splits)

lemma last_index_less: "last_index c s = Some i \<Longrightarrow> i < length s"
  by (induction s arbitrary: i) (auto split: option.splits if_splits)

subsection \<open>White space\<close>

text \<open>The length in bytes of the white-space rune at the head of a string, 0 if there is none.\<close>

fun space_len :: "string \<Rightarrow> nat" where
  "space_len [] = 0"
| "space_len (c # s) =
     (let n = byte_val c; m = map byte_val (take 2 s)
      in if n = 32 \<or> (9 \<le> n \<and> n \<le> 13) then 1
         else if n = 194 \<and> s \<noteq> [] \<and> hd m \<in> {133, 160} then 2
         else if n = 225 \<and> m = [154, 128] then 3
         else if n = 226 \<and> length m = 2 \<and> hd m = 128
              \<and> ((128 \<le> m ! 1 \<and> m ! 1 \<le> 138) \<or> m ! 1 \<in> {168, 169, 175}) then 3
         else if n = 226 \<and> m = [129, 159] then 3
         else if n = 227 \<and> m = [128, 128] then 3
         else 0)"

lemma space_len_le: "space_len s \<le> length s"
proof (cases s)
  case (Cons c t)
  have "length (map byte_val (take 2 t)) = 2 \<Longrightarrow> 2 \<le> length t" by simp
  moreover have "\<And>a b. map byte_val (take 2 t) = [a, b] \<Longrightarrow> 2 \<le> length t"
    by (drule arg_cong [where f = length]) simp
  ultimately show ?thesis unfolding Cons by (auto simp: Let_def Suc_le_eq)
qed simp

function trim_left :: "string \<Rightarrow> string" where
  "trim_left s = (if space_len s = 0 then s else trim_left (drop (space_len s) s))"
  by pat_completeness auto
termination
proof (relation "measure length")
  fix s :: string
  assume "space_len s \<noteq> 0"
  then show "(drop (space_len s) s, s) \<in> measure length"
    using space_len_le [of s] by simp
qed simp

declare trim_left.simps [simp del]

text \<open>The white-space rune that ends a string, by the two or three bytes before the end.\<close>

definition space_len_end :: "string \<Rightarrow> nat" where
  "space_len_end s =
     (if s = [] then 0
      else if space_len [last s] = 1 then 1
      else if 2 \<le> length s \<and> space_len (drop (length s - 2) s) = 2 then 2
      else if 3 \<le> length s \<and> space_len (drop (length s - 3) s) = 3 then 3
      else 0)"

function trim_right :: "string \<Rightarrow> string" where
  "trim_right s =
     (if space_len_end s = 0 then s else trim_right (take (length s - space_len_end s) s))"
  by pat_completeness auto
termination
proof (relation "measure length")
  fix s :: string
  assume "space_len_end s \<noteq> 0"
  then show "(take (length s - space_len_end s) s, s) \<in> measure length"
    by (auto simp: space_len_end_def split: if_splits)
qed simp

declare trim_right.simps [simp del]

definition trim_space :: "string \<Rightarrow> string" where
  "trim_space s = trim_right (trim_left s)"

text \<open>\<^verbatim>\<open>strings.Fields\<close>: the maximal runs without white space; the first argument is the run read so far, reversed.\<close>

function fields_from :: "string \<Rightarrow> string \<Rightarrow> string list" where
  "fields_from cur [] = (if cur = [] then [] else [rev cur])"
| "fields_from cur (c # s) =
     (if space_len (c # s) = 0 then fields_from (c # cur) s
      else (if cur = [] then [] else [rev cur]) @ fields_from [] (drop (space_len (c # s)) (c # s)))"
  by pat_completeness auto
termination
proof (relation "measure (\<lambda>(cur, s). length s)")
  fix cur s :: string and c :: char
  assume "space_len (c # s) \<noteq> 0"
  then show "(([], drop (space_len (c # s)) (c # s)), (cur, c # s)) \<in> measure (\<lambda>(cur, s). length s)"
    by (simp del: space_len.simps)
qed auto

definition str_fields :: "string \<Rightarrow> string list" where
  "str_fields s = fields_from [] s"

lemma fields_from_nonempty: "t \<in> set (fields_from cur s) \<Longrightarrow> t \<noteq> []"
  by (induction cur s rule: fields_from.induct) (auto simp del: space_len.simps split: if_splits)

lemma str_fields_nonempty: "t \<in> set (str_fields s) \<Longrightarrow> t \<noteq> []"
  by (auto simp: str_fields_def dest: fields_from_nonempty)

subsection \<open>Numbers\<close>

definition is_digit :: "char \<Rightarrow> bool" where
  "is_digit c = (48 \<le> byte_val c \<and> byte_val c \<le> 57)"

definition digit_val :: "char \<Rightarrow> nat" where
  "digit_val c = byte_val c - 48"

definition digits_val :: "string \<Rightarrow> nat" where
  "digits_val s = foldl (\<lambda>n c. 10 * n + digit_val c) 0 s"

definition int64_range :: "int \<Rightarrow> bool" where
  "int64_range n = (- (2 ^ 63) \<le> n \<and> n < 2 ^ 63)"

text \<open>\<^verbatim>\<open>strconv.Atoi\<close> on a 64-bit platform: an optional sign, then decimal digits, in range.\<close>

definition atoi :: "string \<Rightarrow> int option" where
  "atoi s =
     (let neg = (s \<noteq> [] \<and> hd s = CHR ''-'');
          ds = (if s \<noteq> [] \<and> hd s \<in> {CHR ''-'', CHR ''+''} then tl s else s);
          n = (if neg then - int (digits_val ds) else int (digits_val ds))
      in if ds \<noteq> [] \<and> list_all is_digit ds \<and> int64_range n then Some n else None)"

lemma atoi_range: "atoi s = Some n \<Longrightarrow> int64_range n"
  by (auto simp: atoi_def Let_def split: if_splits)

text \<open>\<^verbatim>\<open>strconv.FormatInt(n, 10)\<close>.\<close>

fun nat_digits :: "nat \<Rightarrow> string" where
  "nat_digits n =
     (if n < 10 then [char_of (48 + n)] else nat_digits (n div 10) @ [char_of (48 + n mod 10)])"

declare nat_digits.simps [simp del]

definition show_int :: "int \<Rightarrow> string" where
  "show_int n = (if n < 0 then CHR ''-'' # nat_digits (nat (- n)) else nat_digits (nat n))"

lemma digit_val_char [simp]: "k < (10 :: nat) \<Longrightarrow> digit_val (char_of (48 + k)) = k"
  by (simp add: digit_val_def)

lemma is_digit_char [simp]: "k < (10 :: nat) \<Longrightarrow> is_digit (char_of (48 + k))"
  by (simp add: is_digit_def)

lemma nat_digits_spec: "nat_digits n \<noteq> [] \<and> list_all is_digit (nat_digits n) \<and> digits_val (nat_digits n) = n"
proof (induction n rule: nat_digits.induct)
  case (1 n)
  show ?case
  proof (cases "n < 10")
    case True
    then show ?thesis by (simp add: nat_digits.simps [of n] digits_val_def)
  next
    case False
    with "1.IH" show ?thesis
      by (simp add: nat_digits.simps [of n] digits_val_def)
  qed
qed

lemma atoi_show_int: "int64_range n \<Longrightarrow> atoi (show_int n) = Some n"
proof -
  assume r: "int64_range n"
  have nd: "hd (nat_digits k) \<notin> {CHR ''-'', CHR ''+''}" for k
  proof -
    have "is_digit (hd (nat_digits k))"
      using nat_digits_spec [of k] by (cases "nat_digits k") auto
    then show ?thesis by (auto simp: is_digit_def)
  qed
  show ?thesis
    using r nd [of "nat n"] nat_digits_spec [of "nat n"] nat_digits_spec [of "nat (- n)"]
    by (auto simp: atoi_def show_int_def Let_def)
qed

subsection \<open>Paths\<close>

text \<open>
  \<^verbatim>\<open>filepath.Clean\<close> and \<^verbatim>\<open>filepath.Join\<close> on Unix (and package path, which agrees with
  them): the stack holds the elements kept so far, the last one first.
\<close>

fun clean_elems :: "bool \<Rightarrow> string list \<Rightarrow> string list \<Rightarrow> string list" where
  "clean_elems rooted stack [] = rev stack"
| "clean_elems rooted stack (e # es) =
     (if e = [] \<or> e = ''.'' then clean_elems rooted stack es
      else if e = ''..'' then
        (case stack of
           [] \<Rightarrow> clean_elems rooted (if rooted then [] else [e]) es
         | t # ts \<Rightarrow> if t = ''..'' then clean_elems rooted (e # stack) es
                    else clean_elems rooted ts es)
      else clean_elems rooted (e # stack) es)"

definition path_clean :: "string \<Rightarrow> string" where
  "path_clean p =
     (let rooted = (p \<noteq> [] \<and> hd p = CHR ''/'');
          body = join_with ''/'' (clean_elems rooted [] (split_on (CHR ''/'') p));
          out = (if rooted then CHR ''/'' # body else body)
      in if out = [] then ''.'' else out)"

definition path_join :: "string list \<Rightarrow> string" where
  "path_join es =
     (let ne = filter (\<lambda>e. e \<noteq> []) es
      in if ne = [] then [] else path_clean (join_with ''/'' ne))"

subsection \<open>Quoting\<close>

text \<open>
  The \<open>%q\<close> verb (\<^verbatim>\<open>strconv.Quote\<close>): exact for strings whose runes outside ASCII are
  printable, which it leaves as they are.
\<close>

definition hex_digit :: "nat \<Rightarrow> char" where
  "hex_digit n = (if n < 10 then char_of (48 + n) else char_of (87 + n))"

definition quote_char :: "char \<Rightarrow> string" where
  "quote_char c =
     (let n = byte_val c in
      if n = 34 then [CHR 0x5C, c]
      else if n = 92 then [c, c]
      else if n = 7 then [CHR 0x5C, CHR ''a'']
      else if n = 8 then [CHR 0x5C, CHR ''b'']
      else if n = 12 then [CHR 0x5C, CHR ''f'']
      else if n = 10 then [CHR 0x5C, CHR ''n'']
      else if n = 13 then [CHR 0x5C, CHR ''r'']
      else if n = 9 then [CHR 0x5C, CHR ''t'']
      else if n = 11 then [CHR 0x5C, CHR ''v'']
      else if n < 32 \<or> n = 127
        then [CHR 0x5C, CHR ''x'', hex_digit (n div 16), hex_digit (n mod 16)]
      else [c])"

definition quote :: "string \<Rightarrow> string" where
  "quote s = [CHR 0x22] @ concat (map quote_char s) @ [CHR 0x22]"

end
