(* ===== verification/Go_Time.thy ===== *)
theory Go_Time
  imports Go_Strings
begin

text \<open>
  Durations and instants. A \<^verbatim>\<open>time.Duration\<close> is a signed 64-bit count of nanoseconds,
  held here as an \<open>int\<close> within \<open>int64_range\<close>; an instant is an \<open>int\<close> count of
  nanoseconds from the Unix epoch. \<open>parse_duration\<close> is \<^verbatim>\<open>time.ParseDuration\<close>, which
  the configuration calls on every duration string.
\<close>

type_synonym duration = int
type_synonym instant = int

definition Millisecond :: duration where "Millisecond = 1000000"
definition Second :: duration where "Second = 1000000000"
definition Minute :: duration where "Minute = 60 * Second"
definition Hour :: duration where "Hour = 60 * Minute"

definition unit_ns :: "string \<Rightarrow> int option" where
  "unit_ns u =
     (if u = ''ns'' then Some 1
      else if u \<in> {''us'', [CHR 0xC2, CHR 0xB5, CHR ''s''], [CHR 0xCE, CHR 0xBC, CHR ''s'']}
        then Some 1000
      else if u = ''ms'' then Some 1000000
      else if u = ''s'' then Some 1000000000
      else if u = ''m'' then Some 60000000000
      else if u = ''h'' then Some 3600000000000
      else None)"

text \<open>\<^verbatim>\<open>leadingInt\<close>: the value of the leading digits and the rest, \<open>None\<close> on overflow.\<close>

fun leading_int :: "int \<Rightarrow> string \<Rightarrow> (int \<times> string) option" where
  "leading_int x [] = Some (x, [])"
| "leading_int x (c # s) =
     (if \<not> is_digit c then Some (x, c # s)
      else if x > 2 ^ 63 div 10 then None
      else if 10 * x + int (digit_val c) > 2 ^ 63 then None
      else leading_int (10 * x + int (digit_val c)) s)"

text \<open>\<^verbatim>\<open>leadingFraction\<close>: value and scale of the digits, ignoring those that would overflow.\<close>

fun leading_fraction :: "int \<Rightarrow> int \<Rightarrow> bool \<Rightarrow> string \<Rightarrow> int \<times> int \<times> string" where
  "leading_fraction x scale overflow [] = (x, scale, [])"
| "leading_fraction x scale overflow (c # s) =
     (if \<not> is_digit c then (x, scale, c # s)
      else if overflow then leading_fraction x scale True s
      else if x > (2 ^ 63 - 1) div 10 then leading_fraction x scale True s
      else if 10 * x + int (digit_val c) > 2 ^ 63 then leading_fraction x scale True s
      else leading_fraction (10 * x + int (digit_val c)) (10 * scale) False s)"

text \<open>The conversion \<^verbatim>\<open>uint64(x)\<close> of a finite non-negative float truncates it.\<close>

fun f64_trunc :: "f64 \<Rightarrow> int" where
  "f64_trunc (Fin x) = \<lfloor>x\<rfloor>"
| "f64_trunc _ = 0"

definition fraction_ns :: "int \<Rightarrow> int \<Rightarrow> int \<Rightarrow> int" where
  "fraction_ns f unit scale =
     f64_trunc (f64_mul (f64_of_int f) (f64_div (f64_of_int unit) (f64_of_int scale)))"

lemma leading_int_length: "leading_int x s = Some (v, r) \<Longrightarrow> length r \<le> length s"
  by (induction x s rule: leading_int.induct) (auto split: if_splits)

lemma leading_fraction_length: "leading_fraction x sc ov s = (f, sc', r) \<Longrightarrow> length r \<le> length s"
  by (induction x sc ov s rule: leading_fraction.induct) (auto split: if_splits)

definition is_unit_char :: "char \<Rightarrow> bool" where
  "is_unit_char c = (\<not> (c = CHR ''.'' \<or> is_digit c))"

text \<open>One \<^verbatim>\<open>number unit\<close> group at the head of the string: its nanoseconds and the rest.\<close>

definition duration_group :: "string \<Rightarrow> (int \<times> string) option" where
  "duration_group s =
     (if s = [] \<or> is_unit_char (hd s) then None
      else case leading_int 0 s of
        None \<Rightarrow> None
      | Some (v, s1) \<Rightarrow>
          let pre = length s1 \<noteq> length s;
              dot = s1 \<noteq> [] \<and> hd s1 = CHR ''.'';
              (f, scale, s2) = (if dot then leading_fraction 0 1 False (tl s1) else (0, 1, s1));
              post = dot \<and> length s2 \<noteq> length (tl s1)
          in if \<not> pre \<and> \<not> post then None
             else let u = takeWhile is_unit_char s2; rest = dropWhile is_unit_char s2
             in if u = [] then None
             else case unit_ns u of
               None \<Rightarrow> None
             | Some unit \<Rightarrow>
                 if v > 2 ^ 63 div unit then None
                 else let w = v * unit + (if f > 0 then fraction_ns f unit scale else 0)
                 in if f > 0 \<and> w > 2 ^ 63 then None else Some (w, rest))"

lemma duration_group_shorter:
  assumes "duration_group s = Some (w, r)"
  shows "length r < length s"
proof -
  from assms obtain v s1 where s1: "leading_int 0 s = Some (v, s1)"
    by (auto simp: duration_group_def split: if_splits option.splits)
  obtain f scale s2 where
    s2: "(if s1 \<noteq> [] \<and> hd s1 = CHR ''.'' then leading_fraction 0 1 False (tl s1)
          else (0, 1, s1)) = (f, scale, s2)"
    by (metis prod_cases3)
  have "length s2 \<le> length s1"
    using s2 leading_fraction_length [of 0 1 False "tl s1"]
    by (auto split: if_splits dest: leading_fraction_length)
  also have "\<dots> \<le> length s" using s1 by (rule leading_int_length)
  finally have le: "length s2 \<le> length s" .
  have u: "takeWhile is_unit_char s2 \<noteq> []" and r: "r = dropWhile is_unit_char s2"
    using assms unfolding duration_group_def s1
    by (simp_all add: s2 Let_def split: if_splits option.splits)
  have "length (takeWhile is_unit_char s2) + length r = length s2"
    by (simp add: r flip: length_append)
  with u le show ?thesis by (cases "takeWhile is_unit_char s2") auto
qed

text \<open>The loop over groups; the running sum is a \<^verbatim>\<open>uint64\<close>, so it wraps.\<close>

function duration_groups :: "int \<Rightarrow> string \<Rightarrow> int option" where
  "duration_groups d s =
     (if s = [] then Some d
      else case duration_group s of
        None \<Rightarrow> None
      | Some (v, rest) \<Rightarrow>
          let d' = (d + v) mod 2 ^ 64
          in if d' > 2 ^ 63 then None else duration_groups d' rest)"
  by pat_completeness auto
termination
  by (relation "measure (\<lambda>(d, s). length s)") (auto dest: duration_group_shorter)

declare duration_groups.simps [simp del]

definition parse_duration :: "string \<Rightarrow> duration option" where
  "parse_duration orig =
     (let neg = (orig \<noteq> [] \<and> hd orig = CHR ''-'');
          s = (if orig \<noteq> [] \<and> hd orig \<in> {CHR ''-'', CHR ''+''} then tl orig else orig)
      in if s = ''0'' then Some 0
         else if s = [] then None
         else case duration_groups 0 s of
           None \<Rightarrow> None
         | Some d \<Rightarrow>
             if neg then Some (- d)
             else if d > 2 ^ 63 - 1 then None
             else Some d)"

lemma duration_groups_range:
  "duration_groups d s = Some r \<Longrightarrow> 0 \<le> d \<Longrightarrow> d \<le> 2 ^ 63 \<Longrightarrow> 0 \<le> r \<and> r \<le> 2 ^ 63"
proof (induction d s rule: duration_groups.induct)
  case (1 d s)
  show ?case
  proof (cases "s = []")
    case True
    with "1.prems" show ?thesis by (simp add: duration_groups.simps [of d "[]"])
  next
    case False
    with 1 show ?thesis
      by (auto simp: duration_groups.simps [of d s] Let_def not_less split: option.splits if_splits prod.splits)
  qed
qed

text \<open>A parsed duration always fits a \<^verbatim>\<open>time.Duration\<close>.\<close>

lemma parse_duration_range: "parse_duration s = Some d \<Longrightarrow> int64_range d"
  by (auto simp: parse_duration_def Let_def int64_range_def
      split: option.splits if_splits dest!: duration_groups_range)

text \<open>\<^verbatim>\<open>time.Until\<close> and \<^verbatim>\<open>Time.Sub\<close> saturate at the ends of the range.\<close>

definition sat64 :: "int \<Rightarrow> int" where
  "sat64 n = max (- (2 ^ 63)) (min (2 ^ 63 - 1) n)"

definition time_until :: "instant \<Rightarrow> instant \<Rightarrow> duration" where
  "time_until now t = sat64 (t - now)"

lemma sat64_range: "int64_range (sat64 n)"
  by (simp add: sat64_def int64_range_def)

subsection \<open>Printing a duration\<close>

text \<open>
  \<^verbatim>\<open>Duration.String\<close>: \<^verbatim>\<open>fmtFrac\<close> gives the fraction below \<open>10 ^ prec\<close> without trailing zeros, and
  without a point when nothing is left of it.
\<close>

definition fraction_digits :: "nat \<Rightarrow> nat \<Rightarrow> string" where
  "fraction_digits prec u = map (\<lambda>i. char_of (48 + u div 10 ^ i mod 10)) (rev [0..<prec])"

definition fmt_frac :: "nat \<Rightarrow> nat \<Rightarrow> string" where
  "fmt_frac prec u =
     (let digits = rev (dropWhile (\<lambda>c. c = CHR ''0'') (rev (fraction_digits prec u)))
      in if digits = [] then [] else CHR ''.'' # digits)"

definition duration_magnitude :: "nat \<Rightarrow> string" where
  "duration_magnitude u =
     (if u = 0 then ''0s''
      else if u < 1000 then nat_digits u @ ''ns''
      else if u < 1000000 then nat_digits (u div 1000) @ fmt_frac 3 u @ [CHR 0xC2, CHR 0xB5, CHR ''s'']
      else if u < 1000000000 then nat_digits (u div 1000000) @ fmt_frac 6 u @ ''ms''
      else
        let s = u div 1000000000; m = s div 60; h = m div 60
        in (if h > 0 then nat_digits h @ ''h'' else [])
           @ (if m > 0 then nat_digits (m mod 60) @ ''m'' else [])
           @ nat_digits (s mod 60) @ fmt_frac 9 u @ ''s'')"

definition duration_string :: "duration \<Rightarrow> string" where
  "duration_string d = (if d < 0 then CHR ''-'' # duration_magnitude (nat (- d)) else duration_magnitude (nat d))"

lemma duration_string_examples:
  "duration_string 0 = ''0s''"
  "duration_string (720 * Hour) = ''720h0m0s''"
  "duration_string (- (90 * Second + 5 * Millisecond)) = ''-1m30.005s''"
  by (simp_all add: duration_string_def duration_magnitude_def Let_def Hour_def Minute_def Second_def Millisecond_def
      fmt_frac_def fraction_digits_def nat_digits.simps upt_rec char_of_def bit_0)

subsection \<open>Dates\<close>

text \<open>
  The proleptic Gregorian calendar of package time. Days count from 1 January of year 1; the Unix
  epoch is day 719162.
\<close>

definition leap_year :: "int \<Rightarrow> bool" where
  "leap_year y = (y mod 4 = 0 \<and> (y mod 100 \<noteq> 0 \<or> y mod 400 = 0))"

definition days_before_year :: "int \<Rightarrow> int" where
  "days_before_year y = 365 * (y - 1) + (y - 1) div 4 - (y - 1) div 100 + (y - 1) div 400"

text \<open>The year of a day: \<open>400 d / 146097\<close> is it or one less.\<close>

definition year_of :: "int \<Rightarrow> int" where
  "year_of d =
     (let y = 400 * d div 146097
      in if days_before_year (y + 2) \<le> d then y + 2 else if days_before_year (y + 1) \<le> d then y + 1 else y)"

definition month_lengths :: "int \<Rightarrow> int list" where
  "month_lengths y = [31, if leap_year y then 29 else 28, 31, 30, 31, 30, 31, 31, 30, 31, 30, 31]"

text \<open>Month and day of the month, counted from 1, for a day of the year counted from 0.\<close>

fun month_day :: "int \<Rightarrow> int list \<Rightarrow> int \<Rightarrow> int \<times> int" where
  "month_day m [] d = (m, d + 1)"
| "month_day m (l # ls) d = (if d < l then (m, d + 1) else month_day (m + 1) ls (d - l))"

record date_time =
  Date_Year :: int
  Date_Month :: int
  Date_Day :: int
  Date_Seconds :: int

definition date_of :: "int \<Rightarrow> date_time" where
  "date_of secs =
     (let d = secs div 86400 + 719162; y = year_of d; (m, k) = month_day 1 (month_lengths y) (d - days_before_year y)
      in \<lparr>Date_Year = y, Date_Month = m, Date_Day = k, Date_Seconds = secs mod 86400\<rparr>)"

definition pad_int :: "nat \<Rightarrow> int \<Rightarrow> string" where
  "pad_int w n =
     (let ds = nat_digits (nat \<bar>n\<bar>)
      in (if n < 0 then ''-'' else '''') @ replicate (w - length ds) (CHR ''0'') @ ds)"

definition zone_text :: "int \<Rightarrow> string" where
  "zone_text offset =
     (if offset = 0 then ''Z''
      else let m = \<bar>offset\<bar> div 60 in (if offset < 0 then ''-'' else ''+'') @ pad_int 2 (m div 60) @ '':'' @ pad_int 2 (m mod 60))"

text \<open>
  A time in the location whose offset from UTC is \<open>offset\<close> seconds, in the layouts \<^verbatim>\<open>RFC3339\<close>,
  \<^verbatim>\<open>RFC3339Nano\<close> and \<^verbatim>\<open>20060102T150405Z\<close>.
\<close>

definition format_with :: "string \<Rightarrow> string \<Rightarrow> string \<Rightarrow> int \<Rightarrow> instant \<Rightarrow> string" where
  "format_with dsep tsep zone offset t =
     (let d = date_of (t div 1000000000 + offset); s = Date_Seconds d
      in pad_int 4 (Date_Year d) @ dsep @ pad_int 2 (Date_Month d) @ dsep @ pad_int 2 (Date_Day d) @ ''T''
         @ pad_int 2 (s div 3600) @ tsep @ pad_int 2 (s div 60 mod 60) @ tsep @ pad_int 2 (s mod 60) @ zone)"

definition format_RFC3339 :: "int \<Rightarrow> instant \<Rightarrow> string" where
  "format_RFC3339 offset t = format_with ''-'' '':'' (zone_text offset) offset t"

definition format_RFC3339Nano :: "int \<Rightarrow> instant \<Rightarrow> string" where
  "format_RFC3339Nano offset t = format_with ''-'' '':'' (fmt_frac 9 (nat (t mod 1000000000)) @ zone_text offset) offset t"

definition format_stamp :: "instant \<Rightarrow> string" where
  "format_stamp t = format_with '''' '''' ''Z'' 0 t"

text \<open>\<^verbatim>\<open>Time.MarshalJSON\<close> refuses what RFC 3339 has no form for.\<close>

definition time_json_ok :: "int \<Rightarrow> instant \<Rightarrow> bool" where
  "time_json_ok offset t =
     (let y = Date_Year (date_of (t div 1000000000 + offset)) in 0 \<le> y \<and> y \<le> 9999 \<and> \<bar>offset\<bar> < 86400)"

text \<open>Every day lies in its year, the years have the lengths of their months, and a date has a month and a day of it.\<close>

lemma div_bounds: "0 < k \<Longrightarrow> k * (n div k) \<le> n \<and> n - (k - 1) \<le> k * (n div k)" for n k :: int
  using mult_div_mod_eq [of k n] pos_mod_sign [of k n] pos_mod_bound [of k n] by linarith

lemma days_before_year_bounds:
  "400 * days_before_year y \<le> 146097 * (y - 1) + 396" "146097 * (y - 1) - 699 \<le> 400 * days_before_year y"
proof -
  define n a b c where "n = y - 1" and "a = n div 4" and "b = n div 100" and "c = n div 400"
  have "4 * a \<le> n" "n - 3 \<le> 4 * a" "100 * b \<le> n" "n - 99 \<le> 100 * b" "400 * c \<le> n" "n - 399 \<le> 400 * c"
    using div_bounds [of 4 n] div_bounds [of 100 n] div_bounds [of 400 n] by (simp_all add: a_def b_def c_def)
  moreover have "days_before_year y = 365 * n + a - b + c" by (simp add: days_before_year_def n_def a_def b_def c_def)
  ultimately show "400 * days_before_year y \<le> 146097 * (y - 1) + 396" "146097 * (y - 1) - 699 \<le> 400 * days_before_year y"
    unfolding n_def [symmetric] by simp_all
qed

lemma year_of_exact: "days_before_year (year_of d) \<le> d \<and> d < days_before_year (year_of d + 1)"
proof -
  define y where "y = 400 * d div 146097"
  have "400 * d = 146097 * y + 400 * d mod 146097" "0 \<le> 400 * d mod 146097" "400 * d mod 146097 < 146097" by (simp_all add: y_def)
  then have "400 * days_before_year y < 400 * (d + 1)" "400 * d < 400 * days_before_year (y + 3)"
    using days_before_year_bounds [of y] days_before_year_bounds [of "y + 3"] by (simp_all add: algebra_simps)
  then have "days_before_year y \<le> d" "d < days_before_year (y + 3)" by simp_all
  then show ?thesis unfolding year_of_def y_def [symmetric] Let_def by (auto simp: add.assoc)
qed

lemma div_step: "0 < (k :: int) \<Longrightarrow> n div k - (n - 1) div k = (if n mod k = 0 then 1 else 0)"
proof -
  assume k: "0 < k"
  show ?thesis
  proof (cases "n mod k = 0")
    case True
    then obtain m where n: "n = k * m" by fastforce
    have "(k * m - 1) div k = m - 1" using k by (intro int_div_pos_eq [of _ _ _ "k - 1"]) (simp_all add: algebra_simps)
    with n k True show ?thesis by simp
  next
    case False
    have "n - 1 = k * (n div k) + (n mod k - 1)" by simp
    moreover have "0 \<le> n mod k - 1" "n mod k - 1 < k" using k False pos_mod_sign [of k n] pos_mod_bound [of k n] by linarith+
    ultimately have "(n - 1) div k = n div k" by (intro int_div_pos_eq [of _ _ _ "n mod k - 1"]) simp_all
    with False show ?thesis by simp
  qed
qed

lemma year_length: "days_before_year (y + 1) - days_before_year y = sum_list (month_lengths y)"
proof -
  have cases: "365 + (if a then 1 else 0) - (if b then 1 else 0) + (if c then 1 else 0)
      = (if a \<and> (\<not> b \<or> c) then 366 else (365 :: int))" if "c \<longrightarrow> b" "b \<longrightarrow> a" for a b c
    using that by (cases a; cases b; cases c) simp_all
  have "y mod 400 = 0 \<longrightarrow> y mod 100 = 0" "y mod 100 = 0 \<longrightarrow> y mod 4 = 0"
    using dvd_trans [of 100 400 y] dvd_trans [of 4 100 y] by (simp_all only: mod_eq_0_iff_dvd) simp_all
  note leap = cases [OF this]
  have "sum_list (month_lengths y) = (if leap_year y then 366 else 365)" by (simp add: month_lengths_def)
  moreover have "days_before_year (y + 1) - days_before_year y
      = 365 + (y div 4 - (y - 1) div 4) - (y div 100 - (y - 1) div 100) + (y div 400 - (y - 1) div 400)"
    by (simp add: days_before_year_def)
  ultimately show ?thesis by (simp only: div_step zero_less_numeral leap leap_year_def)
qed

lemma month_day_exact:
  assumes "0 \<le> d" and "d < sum_list ls" and "month_day m ls d = (m', k)"
  shows "m \<le> m' \<and> m' < m + int (length ls) \<and> 1 \<le> k \<and> k \<le> ls ! nat (m' - m) \<and> sum_list (take (nat (m' - m)) ls) + k = d + 1"
  using assms
proof (induction m ls d rule: month_day.induct)
  case (2 m l ls d)
  show ?case
  proof (cases "d < l")
    case False
    with 2 have ih: "m + 1 \<le> m' \<and> m' < m + 1 + int (length ls) \<and> 1 \<le> k \<and> k \<le> ls ! nat (m' - (m + 1))
        \<and> sum_list (take (nat (m' - (m + 1))) ls) + k = d - l + 1" by simp
    moreover have "nat (m' - m) = Suc (nat (m' - (m + 1)))" using ih by arith
    ultimately show ?thesis by simp
  qed (use 2 in auto)
qed simp

lemma date_of_exact:
  fixes secs :: int
  defines "t \<equiv> date_of secs"
  shows "1 \<le> Date_Month t \<and> Date_Month t \<le> 12 \<and> 1 \<le> Date_Day t
    \<and> Date_Day t \<le> month_lengths (Date_Year t) ! nat (Date_Month t - 1)
    \<and> days_before_year (Date_Year t) + sum_list (take (nat (Date_Month t - 1)) (month_lengths (Date_Year t))) + Date_Day t - 1
        = secs div 86400 + 719162"
proof -
  let ?d = "secs div 86400 + 719162"
  obtain m k where mk: "month_day 1 (month_lengths (year_of ?d)) (?d - days_before_year (year_of ?d)) = (m, k)" by fastforce
  have "0 \<le> ?d - days_before_year (year_of ?d)" "?d - days_before_year (year_of ?d) < sum_list (month_lengths (year_of ?d))"
    using year_of_exact [of ?d] year_length [of "year_of ?d"] by linarith+
  from month_day_exact [OF this mk] have "1 \<le> m" "m < 1 + int (length (month_lengths (year_of ?d)))" "1 \<le> k"
      "k \<le> month_lengths (year_of ?d) ! nat (m - 1)"
      "sum_list (take (nat (m - 1)) (month_lengths (year_of ?d))) + k = ?d - days_before_year (year_of ?d) + 1"
    by blast+
  moreover have "length (month_lengths (year_of ?d)) = 12" by (simp add: month_lengths_def)
  moreover have "t = \<lparr>Date_Year = year_of ?d, Date_Month = m, Date_Day = k, Date_Seconds = secs mod 86400\<rparr>"
    by (simp add: t_def date_of_def mk Let_def)
  ultimately show ?thesis by simp
qed

end
