(* ===== verification/Domain_Types.thy ===== *)
theory Domain_Types
  imports Go_Time
begin

text \<open>
  Package domain (\<^verbatim>\<open>internal/domain\<close>): the data shared by every component. The typed
  identifiers are strings, as in the code; JSON payloads are kept as their bytes.
\<close>

type_synonym WatchID = string
type_synonym ListingID = string
type_synonym ComponentID = string
type_synonym ScoreID = string
type_synonym JudgmentID = string
type_synonym AlertID = string
type_synonym NotificationID = string
type_synonym JobID = string
type_synonym TaskID = string

subsection \<open>States\<close>

datatype JobState =
  JobStatePending | JobStateRunning | JobStateSucceeded | JobStateFailed | JobStateCancelled

datatype TaskState =
  TaskStatePending | TaskStateRunning | TaskStateSucceeded | TaskStateFailed | TaskStateSkipped

datatype JobTrigger = JobTriggerCadence | JobTriggerManual | JobTriggerBackfill

text \<open>The integers the constants have (\<^verbatim>\<open>iota\<close>), which Postgres stores.\<close>

fun job_state_code :: "JobState \<Rightarrow> int" where
  "job_state_code JobStatePending = 0"
| "job_state_code JobStateRunning = 1"
| "job_state_code JobStateSucceeded = 2"
| "job_state_code JobStateFailed = 3"
| "job_state_code JobStateCancelled = 4"

fun task_state_code :: "TaskState \<Rightarrow> int" where
  "task_state_code TaskStatePending = 0"
| "task_state_code TaskStateRunning = 1"
| "task_state_code TaskStateSucceeded = 2"
| "task_state_code TaskStateFailed = 3"
| "task_state_code TaskStateSkipped = 4"

fun job_trigger_code :: "JobTrigger \<Rightarrow> int" where
  "job_trigger_code JobTriggerCadence = 0"
| "job_trigger_code JobTriggerManual = 1"
| "job_trigger_code JobTriggerBackfill = 2"

subsection \<open>Stages\<close>

type_synonym Stage = string

definition StagePoll :: Stage where "StagePoll = ''poll''"
definition StageExtract :: Stage where "StageExtract = ''extract''"
definition StageScore :: Stage where "StageScore = ''score''"
definition StageJudge :: Stage where "StageJudge = ''judge''"
definition StageIndex :: Stage where "StageIndex = ''index''"
definition StageNotify :: Stage where "StageNotify = ''notify''"
definition StageReconcileAlerts :: Stage where "StageReconcileAlerts = ''reconcile_alerts''"
definition StageReconcileBulk :: Stage where "StageReconcileBulk = ''reconcile_bulk''"
definition StageEvalAlerts :: Stage where "StageEvalAlerts = ''eval_alerts''"

definition AllStages :: "Stage list" where
  "AllStages =
     [StagePoll, StageExtract, StageScore, StageJudge, StageIndex, StageNotify,
      StageReconcileAlerts, StageReconcileBulk, StageEvalAlerts]"

lemma AllStages_distinct: "distinct AllStages"
  by (simp add: AllStages_def StagePoll_def StageExtract_def StageScore_def StageJudge_def
      StageIndex_def StageNotify_def StageReconcileAlerts_def StageReconcileBulk_def
      StageEvalAlerts_def)

subsection \<open>Records\<close>

record Watch =
  Watch_ID :: WatchID
  Watch_Name :: string
  Watch_Query :: string
  Watch_Cadence :: duration
  Watch_Disabled :: bool

record WatchFilter =
  WatchFilter_IncludeDisabled :: bool
  WatchFilter_Limit :: int

record Listing =
  Listing_ID :: ListingID
  Listing_WatchID :: WatchID
  Listing_EbayItemID :: string
  Listing_Title :: string

record Component =
  Component_ID :: ComponentID
  Component_ListingID :: ListingID
  Component_Kind :: string
  Component_Confidence :: f64
  Component_ExtractorVer :: string

record Score =
  Score_ID :: ScoreID
  Score_ListingID :: ListingID
  Score_Value :: f64
  Score_Percentile :: f64
  Score_CreatedAt :: instant

type_synonym Verdict = string

definition VerdictAgrees :: Verdict where "VerdictAgrees = ''agrees''"
definition VerdictDisagrees :: Verdict where "VerdictDisagrees = ''disagrees''"
definition VerdictUncertain :: Verdict where "VerdictUncertain = ''uncertain''"

record Judgment =
  Judgment_ID :: JudgmentID
  Judgment_ScoreID :: ScoreID
  Judgment_Verdict :: Verdict
  Judgment_Reasoning :: string
  Judgment_CreatedAt :: instant

record Job =
  Job_ID :: JobID
  Job_WatchID :: WatchID
  Job_State :: JobState
  Job_Trigger :: JobTrigger
  Job_CreatedAt :: instant
  Job_UpdatedAt :: instant

record Task =
  Task_ID :: TaskID
  Task_JobID :: JobID
  Task_Stage :: Stage
  Task_State :: TaskState
  Task_Input :: string
  Task_Output :: string
  Task_Attempts :: int
  Task_CreatedAt :: instant
  Task_UpdatedAt :: instant

end
