(* ===== verification/Config_Types.thy ===== *)
theory Config_Types
  imports Domain_Types
begin

text \<open>
  \<^verbatim>\<open>internal/config/types.go\<close>, \<^verbatim>\<open>errors.go\<close> and \<^verbatim>\<open>durations.go\<close>: the configuration
  records with their defaults, the sentinel errors, the aggregate \<open>ValidationError\<close> and
  the parsed views of the duration strings.
\<close>

subsection \<open>The records\<close>

record LogConfig =
  Log_Format :: string
  Log_Level :: string

record AdminConfig =
  Admin_Addr :: string

record EbayConfig =
  Ebay_AppID :: string
  Ebay_CertID :: string
  Ebay_Marketplace :: string
  Ebay_RateLimit :: int

record PostgresConfig =
  Postgres_DSN :: string
  Postgres_MaxOpenConns :: int
  Postgres_MaxIdleConns :: int

record ValkeyConfig =
  Valkey_Addr :: string
  Valkey_DB :: int
  Valkey_Password :: string

record MeilisearchConfig =
  Meili_URL :: string
  Meili_APIKey :: string

record ObsConfig =
  Obs_OTLPEndpoint :: string
  Obs_LangfuseHost :: string
  Obs_LangfusePublicKey :: string
  Obs_LangfuseSecretKey :: string
  Obs_SpanSampling :: f64

record APIConfig =
  API_Addr :: string
  API_ReadTimeout :: string
  API_WriteTimeout :: string

record SchedulerConfig =
  Sched_TickInterval :: string
  Sched_BulkReconcileInterval :: string
  Sched_SyncInterval :: string

record PoolConfig =
  Pool_Stage :: string
  Pool_Concurrency :: int

record WorkerConfig =
  Worker_Pools :: "PoolConfig list"

record WatchThresholdConfig =
  Threshold_MaxPercentile :: f64

record WatchNotifyConfig =
  Notify_Channel :: string
  Notify_Thresholds :: "WatchThresholdConfig list"

record WatchConfig =
  WatchC_Name :: string
  WatchC_Query :: string
  WatchC_Cadence :: string
  WatchC_JudgeSampleRate :: f64
  WatchC_Notify :: "WatchNotifyConfig list"

record Config =
  Cfg_ConfigFiles :: "string list"
  Cfg_ConfigDir :: string
  Cfg_Log :: LogConfig
  Cfg_Admin :: AdminConfig
  Cfg_Ebay :: EbayConfig
  Cfg_Postgres :: PostgresConfig
  Cfg_Valkey :: ValkeyConfig
  Cfg_Meilisearch :: MeilisearchConfig
  Cfg_Obs :: ObsConfig
  Cfg_API :: APIConfig
  Cfg_Scheduler :: SchedulerConfig
  Cfg_Worker :: WorkerConfig
  Cfg_Watches :: "WatchConfig list"

record FlagOverrides =
  Flag_LogFormat :: string
  Flag_LogLevel :: string
  Flag_AdminAddr :: string
  Flag_EbayAppID :: string
  Flag_EbayCertID :: string
  Flag_PostgresDSN :: string
  Flag_ValkeyAddr :: string
  Flag_MeiliURL :: string

text \<open>\<^verbatim>\<open>Defaults()\<close>: every field it does not name has Go's zero value.\<close>

definition Defaults :: Config where
  "Defaults =
     \<lparr>Cfg_ConfigFiles = [], Cfg_ConfigDir = '''',
      Cfg_Log = \<lparr>Log_Format = ''auto'', Log_Level = ''info''\<rparr>,
      Cfg_Admin = \<lparr>Admin_Addr = '':9090''\<rparr>,
      Cfg_Ebay = \<lparr>Ebay_AppID = '''', Ebay_CertID = '''', Ebay_Marketplace = ''EBAY_US'', Ebay_RateLimit = 0\<rparr>,
      Cfg_Postgres = \<lparr>Postgres_DSN = '''', Postgres_MaxOpenConns = 0, Postgres_MaxIdleConns = 0\<rparr>,
      Cfg_Valkey = \<lparr>Valkey_Addr = '''', Valkey_DB = 0, Valkey_Password = ''''\<rparr>,
      Cfg_Meilisearch = \<lparr>Meili_URL = '''', Meili_APIKey = ''''\<rparr>,
      Cfg_Obs = \<lparr>Obs_OTLPEndpoint = '''', Obs_LangfuseHost = '''', Obs_LangfusePublicKey = '''',
        Obs_LangfuseSecretKey = '''', Obs_SpanSampling = Fin 1\<rparr>,
      Cfg_API = \<lparr>API_Addr = '':8080'', API_ReadTimeout = ''15s'', API_WriteTimeout = ''15s''\<rparr>,
      Cfg_Scheduler = \<lparr>Sched_TickInterval = ''5s'', Sched_BulkReconcileInterval = ''12h'',
        Sched_SyncInterval = ''5m''\<rparr>,
      Cfg_Worker = \<lparr>Worker_Pools = []\<rparr>,
      Cfg_Watches = []\<rparr>"

subsection \<open>Errors\<close>

definition ErrParse :: err where "ErrParse = Sentinel ''config: parse''"
definition ErrDecode :: err where "ErrDecode = Sentinel ''config: decode''"
definition ErrInvalidDuration :: err where "ErrInvalidDuration = Sentinel ''config: invalid duration''"
definition ErrRequired :: err where "ErrRequired = Sentinel ''config: required field missing''"
definition ErrOutOfRange :: err where "ErrOutOfRange = Sentinel ''config: value out of range''"
definition ErrReadFile :: err where "ErrReadFile = Sentinel ''config: read file''"

lemmas config_sentinels =
  ErrParse_def ErrDecode_def ErrInvalidDuration_def ErrRequired_def ErrOutOfRange_def ErrReadFile_def

lemma config_sentinel_is [simp]:
  "errors_is ErrParse t \<longleftrightarrow> t = ErrParse" "errors_is ErrDecode t \<longleftrightarrow> t = ErrDecode"
  "errors_is ErrInvalidDuration t \<longleftrightarrow> t = ErrInvalidDuration" "errors_is ErrRequired t \<longleftrightarrow> t = ErrRequired"
  "errors_is ErrOutOfRange t \<longleftrightarrow> t = ErrOutOfRange" "errors_is ErrReadFile t \<longleftrightarrow> t = ErrReadFile"
  by (auto simp: config_sentinels)

text \<open>
  The methods of \<^verbatim>\<open>*ValidationError\<close>; a receiver is the list of its problems, \<open>None\<close> a
  nil pointer. The text of the single problems is \<open>error_text\<close>, the \<^verbatim>\<open>Error\<close> method of the
  errors they hold.
\<close>

definition VE_Error :: "(err \<Rightarrow> string) \<Rightarrow> problem list option \<Rightarrow> string" where
  "VE_Error error_text v =
     (case v of
        None \<Rightarrow> ''config: validation failed''
      | Some ps \<Rightarrow>
          if ps = [] then ''config: validation failed''
          else foldl (\<lambda>b p. b @ [CHR 0x0A] @ ''  - '' @ problem_field p @ '': '' @ error_text (problem_err p))
                 ''config: validation failed:'' ps)"

fun VE_Is :: "problem list option \<Rightarrow> err \<Rightarrow> bool" where
  "VE_Is None target = False"
| "VE_Is (Some []) target = False"
| "VE_Is (Some (p # ps)) target = (errors_is (problem_err p) target \<or> VE_Is (Some ps) target)"

definition VE_add :: "problem list \<Rightarrow> string \<Rightarrow> err option \<Rightarrow> problem list" where
  "VE_add ps field e = (case e of None \<Rightarrow> ps | Some e \<Rightarrow> ps @ [FieldProblem field e])"

definition VE_addRequired :: "problem list \<Rightarrow> string \<Rightarrow> string \<Rightarrow> problem list" where
  "VE_addRequired ps field val =
     (if val = '''' then ps @ [FieldProblem field (Errorf ''%w'' [ArgErr ErrRequired])] else ps)"

definition VE_asError :: "problem list option \<Rightarrow> err option" where
  "VE_asError v =
     (case v of None \<Rightarrow> None | Some ps \<Rightarrow> if ps = [] then None else Some (ValidationError ps))"

text \<open>The \<^verbatim>\<open>Is\<close> method is what \<^verbatim>\<open>errors.Is\<close> answers for the aggregate.\<close>

lemma VE_Is_iff: "VE_Is (Some ps) t \<longleftrightarrow> (\<exists>p \<in> set ps. errors_is (problem_err p) t)"
  by (induction ps) auto

lemma errors_is_ValidationError: "errors_is (ValidationError ps) t \<longleftrightarrow> VE_Is (Some ps) t"
  by (simp add: VE_Is_iff list_ex_iff problem_is_err)

subsection \<open>Durations\<close>

definition parseOptionalDuration :: "string \<Rightarrow> string \<Rightarrow> err + duration" where
  "parseOptionalDuration field raw =
     (if raw = '''' then Inr 0
      else case parse_duration raw of
        None \<Rightarrow> Inl (Errorf ''%w: %s = %q: %w''
          [ArgErr ErrInvalidDuration, ArgStr field, ArgQuoted raw,
           ArgErr (External ''time: invalid duration'')])
      | Some d \<Rightarrow> Inr d)"

definition ParsedTickInterval :: "SchedulerConfig \<Rightarrow> err + duration" where
  "ParsedTickInterval s = parseOptionalDuration ''scheduler.tick_interval'' (Sched_TickInterval s)"

definition ParsedBulkReconcileInterval :: "SchedulerConfig \<Rightarrow> err + duration" where
  "ParsedBulkReconcileInterval s =
     parseOptionalDuration ''scheduler.bulk_reconcile_interval'' (Sched_BulkReconcileInterval s)"

definition ParsedSyncInterval :: "SchedulerConfig \<Rightarrow> err + duration" where
  "ParsedSyncInterval s = parseOptionalDuration ''scheduler.sync_interval'' (Sched_SyncInterval s)"

definition ParsedReadTimeout :: "APIConfig \<Rightarrow> err + duration" where
  "ParsedReadTimeout a = parseOptionalDuration ''api.read_timeout'' (API_ReadTimeout a)"

definition ParsedWriteTimeout :: "APIConfig \<Rightarrow> err + duration" where
  "ParsedWriteTimeout a = parseOptionalDuration ''api.write_timeout'' (API_WriteTimeout a)"

definition ParsedCadence :: "WatchConfig \<Rightarrow> err + duration" where
  "ParsedCadence w =
     parseOptionalDuration (''watch['' @ quote (WatchC_Name w) @ ''].cadence'') (WatchC_Cadence w)"

lemmas parsed_defs =
  ParsedTickInterval_def ParsedBulkReconcileInterval_def ParsedSyncInterval_def
  ParsedReadTimeout_def ParsedWriteTimeout_def ParsedCadence_def

text \<open>A duration string the configuration accepts: absent, or one that parses.\<close>

definition duration_ok :: "string \<Rightarrow> bool" where
  "duration_ok raw = (raw = '''' \<or> parse_duration raw \<noteq> None)"

lemma parseOptionalDuration_cases:
  "parseOptionalDuration field raw =
     (if raw = '''' then Inr 0
      else if duration_ok raw then Inr (the (parse_duration raw))
      else Inl (Errorf ''%w: %s = %q: %w''
          [ArgErr ErrInvalidDuration, ArgStr field, ArgQuoted raw,
           ArgErr (External ''time: invalid duration'')]))"
  by (auto simp: parseOptionalDuration_def duration_ok_def)

lemma parseOptionalDuration_error_is:
  "parseOptionalDuration field raw = Inl e \<Longrightarrow> errors_is e t \<longleftrightarrow> t = ErrInvalidDuration"
  by (auto simp: parseOptionalDuration_def split: if_splits option.splits)

lemma default_durations_ok:
  "duration_ok ''15s''" "duration_ok ''5s''" "duration_ok ''12h''" "duration_ok ''5m''"
  by code_simp+

end
