(* ===== verification/Config_Validate.thy ===== *)
theory Config_Validate
  imports Config_Types
begin

text \<open>
  \<^verbatim>\<open>internal/config/validate.go\<close>: \<open>Validate\<close> runs the section validators in order, each
  appending its problems to one \<open>ValidationError\<close>. The abstract side is \<open>bad_fields\<close>, the
  list of the fields that break a rule, each with the sentinel that names the rule.
\<close>

definition validLogFormats :: "string list" where
  "validLogFormats = [''auto'', ''text'', ''json'']"

definition validLogLevels :: "string list" where
  "validLogLevels = [''debug'', ''info'', ''warn'', ''warning'', ''error'']"

fun containsFold :: "string list \<Rightarrow> string \<Rightarrow> bool" where
  "containsFold [] needle = False"
| "containsFold (h # hs) needle = (if equal_fold h needle then True else containsFold hs needle)"

definition validateLog :: "problem list \<Rightarrow> LogConfig \<Rightarrow> problem list" where
  "validateLog v lc =
     (let v = (if Log_Format lc \<noteq> '''' \<and> \<not> containsFold validLogFormats (Log_Format lc)
               then VE_add v ''log.format'' (Some (Errorf ''%w: %q (want one of %s)''
                      [ArgErr ErrOutOfRange, ArgQuoted (Log_Format lc),
                       ArgStr (join_with '', '' validLogFormats)]))
               else v)
      in if Log_Level lc \<noteq> '''' \<and> \<not> containsFold validLogLevels (Log_Level lc)
         then VE_add v ''log.level'' (Some (Errorf ''%w: %q (want one of %s)''
                [ArgErr ErrOutOfRange, ArgQuoted (Log_Level lc),
                 ArgStr (join_with '', '' validLogLevels)]))
         else v)"

definition validateObs :: "problem list \<Rightarrow> ObsConfig \<Rightarrow> problem list" where
  "validateObs v obs =
     (if f64_lt (Obs_SpanSampling obs) (Fin 0) \<or> f64_gt (Obs_SpanSampling obs) (Fin 1)
      then VE_add v ''obs.span_sampling'' (Some (Errorf ''%w: %v (want [0, 1])''
             [ArgErr ErrOutOfRange, ArgFloat (Obs_SpanSampling obs)]))
      else v)"

text \<open>The idiom \<^verbatim>\<open>if _, err := f(); err != nil { v.add(path, err) }\<close>.\<close>

fun add_failed :: "problem list \<Rightarrow> string \<Rightarrow> err + 'a \<Rightarrow> problem list" where
  "add_failed v field (Inl e) = VE_add v field (Some e)"
| "add_failed v field (Inr x) = v"

definition validateAPI :: "problem list \<Rightarrow> APIConfig \<Rightarrow> problem list" where
  "validateAPI v api =
     (let v = add_failed v ''api.read_timeout'' (ParsedReadTimeout api)
      in add_failed v ''api.write_timeout'' (ParsedWriteTimeout api))"

definition validateScheduler :: "problem list \<Rightarrow> SchedulerConfig \<Rightarrow> problem list" where
  "validateScheduler v sch =
     (let v = add_failed v ''scheduler.tick_interval'' (ParsedTickInterval sch);
          v = add_failed v ''scheduler.bulk_reconcile_interval'' (ParsedBulkReconcileInterval sch)
      in add_failed v ''scheduler.sync_interval'' (ParsedSyncInterval sch))"

definition validatePool :: "problem list \<Rightarrow> PoolConfig \<Rightarrow> problem list" where
  "validatePool v p =
     (if Pool_Concurrency p \<le> 0
      then VE_add v (''worker.pools['' @ quote (Pool_Stage p) @ ''].concurrency'')
             (Some (Errorf ''%w: %d (want > 0)'' [ArgErr ErrOutOfRange, ArgInt (Pool_Concurrency p)]))
      else v)"

definition validateWorker :: "problem list \<Rightarrow> WorkerConfig \<Rightarrow> problem list" where
  "validateWorker v w = foldl validatePool v (Worker_Pools w)"

definition validateWatch :: "problem list \<Rightarrow> WatchConfig \<Rightarrow> problem list" where
  "validateWatch v w =
     (let path = ''watch['' @ quote (WatchC_Name w) @ '']'';
          v = VE_addRequired v (path @ ''.query'') (WatchC_Query w);
          v = (if f64_lt (WatchC_JudgeSampleRate w) (Fin 0) \<or> f64_gt (WatchC_JudgeSampleRate w) (Fin 1)
               then VE_add v (path @ ''.judge_sample_rate'') (Some (Errorf ''%w: %v (want [0, 1])''
                      [ArgErr ErrOutOfRange, ArgFloat (WatchC_JudgeSampleRate w)]))
               else v)
      in add_failed v (path @ ''.cadence'') (ParsedCadence w))"

definition validateWatches :: "problem list \<Rightarrow> WatchConfig list \<Rightarrow> problem list" where
  "validateWatches v ws = foldl validateWatch v ws"

definition Validate :: "Config \<Rightarrow> err option" where
  "Validate cfg =
     (let v = [];
          v = validateLog v (Cfg_Log cfg);
          v = validateObs v (Cfg_Obs cfg);
          v = validateAPI v (Cfg_API cfg);
          v = validateScheduler v (Cfg_Scheduler cfg);
          v = validateWorker v (Cfg_Worker cfg);
          v = validateWatches v (Cfg_Watches cfg)
      in VE_asError (Some v))"

subsection \<open>What validation promises\<close>

text \<open>The fields that break a rule, in the order of the sections, each with its sentinel.\<close>

definition out_of_unit :: "f64 \<Rightarrow> bool" where
  "out_of_unit x = (f64_lt x (Fin 0) \<or> f64_gt x (Fin 1))"

definition flag_if :: "bool \<Rightarrow> string \<Rightarrow> err \<Rightarrow> (string \<times> err) list" where
  "flag_if b field e = (if b then [(field, e)] else [])"

definition bad_watch_fields :: "WatchConfig \<Rightarrow> (string \<times> err) list" where
  "bad_watch_fields w =
     (let path = ''watch['' @ quote (WatchC_Name w) @ '']''
      in flag_if (WatchC_Query w = '''') (path @ ''.query'') ErrRequired
       @ flag_if (out_of_unit (WatchC_JudgeSampleRate w)) (path @ ''.judge_sample_rate'') ErrOutOfRange
       @ flag_if (\<not> duration_ok (WatchC_Cadence w)) (path @ ''.cadence'') ErrInvalidDuration)"

definition bad_pool_fields :: "PoolConfig \<Rightarrow> (string \<times> err) list" where
  "bad_pool_fields p = flag_if (Pool_Concurrency p \<le> 0)
     (''worker.pools['' @ quote (Pool_Stage p) @ ''].concurrency'') ErrOutOfRange"

definition bad_fields :: "Config \<Rightarrow> (string \<times> err) list" where
  "bad_fields cfg =
       flag_if (Log_Format (Cfg_Log cfg) \<noteq> '''' \<and> \<not> containsFold validLogFormats (Log_Format (Cfg_Log cfg)))
         ''log.format'' ErrOutOfRange
     @ flag_if (Log_Level (Cfg_Log cfg) \<noteq> '''' \<and> \<not> containsFold validLogLevels (Log_Level (Cfg_Log cfg)))
         ''log.level'' ErrOutOfRange
     @ flag_if (out_of_unit (Obs_SpanSampling (Cfg_Obs cfg))) ''obs.span_sampling'' ErrOutOfRange
     @ flag_if (\<not> duration_ok (API_ReadTimeout (Cfg_API cfg))) ''api.read_timeout'' ErrInvalidDuration
     @ flag_if (\<not> duration_ok (API_WriteTimeout (Cfg_API cfg))) ''api.write_timeout'' ErrInvalidDuration
     @ flag_if (\<not> duration_ok (Sched_TickInterval (Cfg_Scheduler cfg))) ''scheduler.tick_interval'' ErrInvalidDuration
     @ flag_if (\<not> duration_ok (Sched_BulkReconcileInterval (Cfg_Scheduler cfg)))
         ''scheduler.bulk_reconcile_interval'' ErrInvalidDuration
     @ flag_if (\<not> duration_ok (Sched_SyncInterval (Cfg_Scheduler cfg))) ''scheduler.sync_interval'' ErrInvalidDuration
     @ concat (map bad_pool_fields (Worker_Pools (Cfg_Worker cfg)))
     @ concat (map bad_watch_fields (Cfg_Watches cfg))"

text \<open>A problem as the abstract side sees it: its field and the one sentinel it wraps.\<close>

definition reports :: "problem \<Rightarrow> string \<times> err \<Rightarrow> bool" where
  "reports p fe \<longleftrightarrow> problem_field p = fst fe \<and> (\<forall>t. errors_is (problem_err p) t \<longleftrightarrow> t = snd fe)"

lemma reports_simp [simp]:
  "reports (FieldProblem f e) (g, s) \<longleftrightarrow> f = g \<and> (\<forall>t. errors_is e t \<longleftrightarrow> t = s)"
  by (simp add: reports_def)

text \<open>One validator step: it appends problems that report exactly the flagged fields.\<close>

definition appends :: "(problem list \<Rightarrow> problem list) \<Rightarrow> (string \<times> err) list \<Rightarrow> bool" where
  "appends step fs \<longleftrightarrow> (\<forall>v. \<exists>ps. step v = v @ ps \<and> list_all2 reports ps fs)"

named_theorems appends_intros \<open>what each validator appends\<close>

lemma appends_id: "appends (\<lambda>v. v) []"
  by (simp add: appends_def)

lemma appends_comp:
  assumes "appends f fs" and "appends g gs"
  shows "appends (\<lambda>v. g (f v)) (fs @ gs)"
  unfolding appends_def
proof
  fix v
  from assms obtain ps qs where "f v = v @ ps" "list_all2 reports ps fs"
    and "g (v @ ps) = (v @ ps) @ qs" "list_all2 reports qs gs"
    unfolding appends_def by meson
  then show "\<exists>rs. g (f v) = v @ rs \<and> list_all2 reports rs (fs @ gs)"
    by (intro exI [of _ "ps @ qs"]) (simp add: list_all2_appendI)
qed

lemma appends_foldl:
  assumes "\<And>x. appends (\<lambda>v. step v x) (fs x)"
  shows "appends (\<lambda>v. foldl step v xs) (concat (map fs xs))"
proof (induction xs)
  case Nil
  show ?case by (simp add: appends_id)
next
  case (Cons x xs)
  from appends_comp [OF assms [of x] Cons.IH] show ?case by simp
qed

lemma appends_flag:
  assumes "\<And>t. errors_is e t \<longleftrightarrow> t = s"
  shows "appends (\<lambda>v. if b then VE_add v f (Some e) else v) (flag_if b f s)"
  using assms by (auto simp: appends_def VE_add_def flag_if_def)

lemma appends_required:
  "appends (\<lambda>v. VE_addRequired v f x) (flag_if (x = '''') f ErrRequired)"
  by (auto simp: appends_def VE_addRequired_def flag_if_def)

lemma appends_duration:
  "appends (\<lambda>v. add_failed v f (parseOptionalDuration g raw)) (flag_if (\<not> duration_ok raw) f ErrInvalidDuration)"
  by (auto simp: appends_def flag_if_def VE_add_def parseOptionalDuration_cases duration_ok_def)

lemma appends_validateLog [appends_intros]:
  "appends (\<lambda>v. validateLog v lc)
     (flag_if (Log_Format lc \<noteq> '''' \<and> \<not> containsFold validLogFormats (Log_Format lc)) ''log.format'' ErrOutOfRange
      @ flag_if (Log_Level lc \<noteq> '''' \<and> \<not> containsFold validLogLevels (Log_Level lc)) ''log.level'' ErrOutOfRange)"
  unfolding validateLog_def Let_def
  by (rule appends_comp [where f = "\<lambda>v. if _ then VE_add v _ _ else v"]) (rule appends_flag, simp)+

lemma appends_validateObs [appends_intros]:
  "appends (\<lambda>v. validateObs v obs)
     (flag_if (out_of_unit (Obs_SpanSampling obs)) ''obs.span_sampling'' ErrOutOfRange)"
  unfolding validateObs_def out_of_unit_def by (rule appends_flag) simp

lemma appends_validateAPI [appends_intros]:
  "appends (\<lambda>v. validateAPI v api)
     (flag_if (\<not> duration_ok (API_ReadTimeout api)) ''api.read_timeout'' ErrInvalidDuration
      @ flag_if (\<not> duration_ok (API_WriteTimeout api)) ''api.write_timeout'' ErrInvalidDuration)"
  unfolding validateAPI_def Let_def parsed_defs
  by (intro appends_comp [where f = "\<lambda>v. add_failed v _ _"] appends_duration)

lemma appends_validateScheduler [appends_intros]:
  "appends (\<lambda>v. validateScheduler v sch)
     (flag_if (\<not> duration_ok (Sched_TickInterval sch)) ''scheduler.tick_interval'' ErrInvalidDuration
      @ flag_if (\<not> duration_ok (Sched_BulkReconcileInterval sch)) ''scheduler.bulk_reconcile_interval'' ErrInvalidDuration
      @ flag_if (\<not> duration_ok (Sched_SyncInterval sch)) ''scheduler.sync_interval'' ErrInvalidDuration)"
  unfolding validateScheduler_def Let_def parsed_defs
  by (intro appends_comp [where f = "\<lambda>v. add_failed v _ _" and g = "\<lambda>v. add_failed (add_failed v _ _) _ _"]
      appends_comp [where f = "\<lambda>v. add_failed v _ _" and g = "\<lambda>v. add_failed v _ _"] appends_duration)

lemma appends_validateWorker [appends_intros]:
  "appends (\<lambda>v. validateWorker v w) (concat (map bad_pool_fields (Worker_Pools w)))"
  unfolding validateWorker_def
  unfolding validatePool_def bad_pool_fields_def by (rule appends_foldl, rule appends_flag) simp

lemma appends_validateWatch: "appends (\<lambda>v. validateWatch v w) (bad_watch_fields w)"
  unfolding validateWatch_def bad_watch_fields_def Let_def out_of_unit_def ParsedCadence_def
  by (rule appends_comp [where f = "\<lambda>v. VE_addRequired v _ _"
        and g = "\<lambda>v. add_failed (if _ then VE_add v _ _ else v) _ _"], rule appends_required,
      rule appends_comp [where f = "\<lambda>v. if _ then VE_add v _ _ else v" and g = "\<lambda>v. add_failed v _ _"],
      rule appends_flag, simp, rule appends_duration)

lemma appends_validateWatches [appends_intros]:
  "appends (\<lambda>v. validateWatches v ws) (concat (map bad_watch_fields ws))"
  unfolding validateWatches_def by (rule appends_foldl) (rule appends_validateWatch)

lemma Validate_problems:
  obtains ps where "Validate cfg = VE_asError (Some ps)" and "list_all2 reports ps (bad_fields cfg)"
proof -
  have "appends (\<lambda>v. validateWatches (validateWorker (validateScheduler (validateAPI (validateObs
      (validateLog v (Cfg_Log cfg)) (Cfg_Obs cfg)) (Cfg_API cfg)) (Cfg_Scheduler cfg))
      (Cfg_Worker cfg)) (Cfg_Watches cfg)) (bad_fields cfg)"
    using appends_comp [OF appends_comp [OF appends_comp [OF appends_comp [OF appends_comp [OF
      appends_validateLog [of "Cfg_Log cfg"] appends_validateObs [of "Cfg_Obs cfg"]]
      appends_validateAPI [of "Cfg_API cfg"]] appends_validateScheduler [of "Cfg_Scheduler cfg"]]
      appends_validateWorker [of "Cfg_Worker cfg"]] appends_validateWatches [of "Cfg_Watches cfg"]]
    by (simp add: bad_fields_def)
  then obtain ps where "list_all2 reports ps (bad_fields cfg)"
    and "validateWatches (validateWorker (validateScheduler (validateAPI (validateObs
      (validateLog [] (Cfg_Log cfg)) (Cfg_Obs cfg)) (Cfg_API cfg)) (Cfg_Scheduler cfg))
      (Cfg_Worker cfg)) (Cfg_Watches cfg) = [] @ ps"
    unfolding appends_def by blast
  then show ?thesis using that by (simp add: Validate_def Let_def)
qed

lemma Validate_None_iff: "Validate cfg = None \<longleftrightarrow> bad_fields cfg = []"
  by (rule Validate_problems [of cfg]) (auto simp: VE_asError_def)

end
