(* ===== verification/Config_Loader.thy ===== *)
theory Config_Loader
  imports Config_Validate
begin

text \<open>
  \<^verbatim>\<open>internal/config/loader.go\<close>: discovery of the files, decoding and layering of their
  sections, flag overrides, defaults and validation. The operating system and the HCL
  library are the record \<open>host\<close>: reading a directory and a file, parsing HCL text and
  decoding a parsed body into the schema with the \<open>env()\<close> function. A failing library call
  carries its diagnostics.
\<close>

record parseSchema =
  PS_Log :: "LogConfig option"
  PS_Admin :: "AdminConfig option"
  PS_Ebay :: "EbayConfig option"
  PS_Postgres :: "PostgresConfig option"
  PS_Valkey :: "ValkeyConfig option"
  PS_Meilisearch :: "MeilisearchConfig option"
  PS_Obs :: "ObsConfig option"
  PS_API :: "APIConfig option"
  PS_Scheduler :: "SchedulerConfig option"
  PS_Worker :: "WorkerConfig option"
  PS_Watches :: "WatchConfig list"

record 'body host =
  os_ReadDir :: "string \<Rightarrow> err + DirEntry list"
  os_ReadFile :: "string \<Rightarrow> err + string"
  hcl_Parse :: "string \<Rightarrow> string \<Rightarrow> err + 'body"
  gohcl_Decode :: "(string \<Rightarrow> string) \<Rightarrow> 'body \<Rightarrow> err + parseSchema"

subsection \<open>Discovery\<close>

fun hcl_names :: "DirEntry list \<Rightarrow> string list" where
  "hcl_names [] = []"
| "hcl_names (e # es) =
     (if Entry_IsDir e then hcl_names es
      else if \<not> has_suffix (Entry_Name e) ''.hcl'' then hcl_names es
      else Entry_Name e # hcl_names es)"

definition discoverFiles :: "'b host \<Rightarrow> string \<Rightarrow> string list \<Rightarrow> err + string list" where
  "discoverFiles h dir paths =
     (if dir = '''' then Inr paths
      else case os_ReadDir h dir of
        Inl e \<Rightarrow> Inl (Errorf ''%w: %s: %w'' [ArgErr ErrReadFile, ArgStr dir, ArgErr e])
      | Inr entries \<Rightarrow> Inr (map (\<lambda>n. path_join [dir, n]) (sort (hcl_names entries)) @ paths))"

subsection \<open>Decoding and projection\<close>

text \<open>\<^verbatim>\<open>envFunction\<close>: a missing variable reads as the empty string.\<close>

definition envFunction :: "(string \<rightharpoonup> string) \<Rightarrow> string \<Rightarrow> string" where
  "envFunction env name = (case env name of None \<Rightarrow> '''' | Some v \<Rightarrow> v)"

text \<open>The idiom \<^verbatim>\<open>if s.X != nil { cfg.X = *s.X }\<close>.\<close>

definition set_section :: "('a \<Rightarrow> Config \<Rightarrow> Config) \<Rightarrow> 'a option \<Rightarrow> Config \<Rightarrow> Config" where
  "set_section upd section cfg = (case section of None \<Rightarrow> cfg | Some x \<Rightarrow> upd x cfg)"

definition projectSchema :: "parseSchema \<Rightarrow> Config \<Rightarrow> Config" where
  "projectSchema s cfg =
     (let cfg = set_section (\<lambda>x c. c\<lparr>Cfg_Log := x\<rparr>) (PS_Log s) cfg;
          cfg = set_section (\<lambda>x c. c\<lparr>Cfg_Admin := x\<rparr>) (PS_Admin s) cfg;
          cfg = set_section (\<lambda>x c. c\<lparr>Cfg_Ebay := x\<rparr>) (PS_Ebay s) cfg;
          cfg = set_section (\<lambda>x c. c\<lparr>Cfg_Postgres := x\<rparr>) (PS_Postgres s) cfg;
          cfg = set_section (\<lambda>x c. c\<lparr>Cfg_Valkey := x\<rparr>) (PS_Valkey s) cfg;
          cfg = set_section (\<lambda>x c. c\<lparr>Cfg_Meilisearch := x\<rparr>) (PS_Meilisearch s) cfg;
          cfg = set_section (\<lambda>x c. c\<lparr>Cfg_Obs := x\<rparr>) (PS_Obs s) cfg;
          cfg = set_section (\<lambda>x c. c\<lparr>Cfg_API := x\<rparr>) (PS_API s) cfg;
          cfg = set_section (\<lambda>x c. c\<lparr>Cfg_Scheduler := x\<rparr>) (PS_Scheduler s) cfg;
          cfg = set_section (\<lambda>x c. c\<lparr>Cfg_Worker := x\<rparr>) (PS_Worker s) cfg
      in cfg\<lparr>Cfg_Watches := Cfg_Watches cfg @ PS_Watches s\<rparr>)"

text \<open>One file of the loop in \<open>decodeFiles\<close>: read, parse, decode.\<close>

definition decodeFile :: "'b host \<Rightarrow> (string \<rightharpoonup> string) \<Rightarrow> string \<Rightarrow> err + parseSchema" where
  "decodeFile h env p =
     (case os_ReadFile h p of
        Inl e \<Rightarrow> Inl (Errorf ''%w: %s: %w'' [ArgErr ErrReadFile, ArgStr p, ArgErr e])
      | Inr src \<Rightarrow>
          (case hcl_Parse h src p of
             Inl diags \<Rightarrow> Inl (Errorf ''%w: %s: %w'' [ArgErr ErrParse, ArgStr p, ArgErr diags])
           | Inr body \<Rightarrow>
               (case gohcl_Decode h (envFunction env) body of
                  Inl diags \<Rightarrow> Inl (Errorf ''%w: %w'' [ArgErr ErrDecode, ArgErr diags])
                | Inr schema \<Rightarrow> Inr schema)))"

fun decodeFiles :: "'b host \<Rightarrow> string list \<Rightarrow> (string \<rightharpoonup> string) \<Rightarrow> Config \<Rightarrow> err + Config" where
  "decodeFiles h [] env cfg = Inr cfg"
| "decodeFiles h (p # ps) env cfg =
     (case decodeFile h env p of
        Inl e \<Rightarrow> Inl e
      | Inr schema \<Rightarrow> decodeFiles h ps env (projectSchema schema cfg))"

subsection \<open>Overrides and defaults\<close>

text \<open>The idioms \<^verbatim>\<open>if flags.X != "" { cfg.S.X = flags.X }\<close> and \<^verbatim>\<open>if cfg.S.X == "" { cfg.S.X = d.S.X }\<close>.\<close>

definition set_flag :: "(string \<Rightarrow> Config \<Rightarrow> Config) \<Rightarrow> string \<Rightarrow> Config \<Rightarrow> Config" where
  "set_flag upd flag cfg = (if flag \<noteq> '''' then upd flag cfg else cfg)"

definition set_default :: "(Config \<Rightarrow> string) \<Rightarrow> (string \<Rightarrow> Config \<Rightarrow> Config) \<Rightarrow> Config \<Rightarrow> Config" where
  "set_default sel upd cfg = (if sel cfg = '''' then upd (sel Defaults) cfg else cfg)"

definition applyFlagOverrides :: "Config \<Rightarrow> FlagOverrides \<Rightarrow> Config" where
  "applyFlagOverrides cfg flags =
     (let cfg = set_flag (\<lambda>x c. c\<lparr>Cfg_Log := (Cfg_Log c)\<lparr>Log_Format := x\<rparr>\<rparr>) (Flag_LogFormat flags) cfg;
          cfg = set_flag (\<lambda>x c. c\<lparr>Cfg_Log := (Cfg_Log c)\<lparr>Log_Level := x\<rparr>\<rparr>) (Flag_LogLevel flags) cfg;
          cfg = set_flag (\<lambda>x c. c\<lparr>Cfg_Admin := (Cfg_Admin c)\<lparr>Admin_Addr := x\<rparr>\<rparr>) (Flag_AdminAddr flags) cfg;
          cfg = set_flag (\<lambda>x c. c\<lparr>Cfg_Ebay := (Cfg_Ebay c)\<lparr>Ebay_AppID := x\<rparr>\<rparr>) (Flag_EbayAppID flags) cfg;
          cfg = set_flag (\<lambda>x c. c\<lparr>Cfg_Ebay := (Cfg_Ebay c)\<lparr>Ebay_CertID := x\<rparr>\<rparr>) (Flag_EbayCertID flags) cfg;
          cfg = set_flag (\<lambda>x c. c\<lparr>Cfg_Postgres := (Cfg_Postgres c)\<lparr>Postgres_DSN := x\<rparr>\<rparr>) (Flag_PostgresDSN flags) cfg;
          cfg = set_flag (\<lambda>x c. c\<lparr>Cfg_Valkey := (Cfg_Valkey c)\<lparr>Valkey_Addr := x\<rparr>\<rparr>) (Flag_ValkeyAddr flags) cfg
      in set_flag (\<lambda>x c. c\<lparr>Cfg_Meilisearch := (Cfg_Meilisearch c)\<lparr>Meili_URL := x\<rparr>\<rparr>) (Flag_MeiliURL flags) cfg)"

definition applyDefaultsAfterMerge :: "Config \<Rightarrow> Config" where
  "applyDefaultsAfterMerge cfg =
     (let cfg = set_default (\<lambda>c. Log_Format (Cfg_Log c)) (\<lambda>x c. c\<lparr>Cfg_Log := (Cfg_Log c)\<lparr>Log_Format := x\<rparr>\<rparr>) cfg;
          cfg = set_default (\<lambda>c. Log_Level (Cfg_Log c)) (\<lambda>x c. c\<lparr>Cfg_Log := (Cfg_Log c)\<lparr>Log_Level := x\<rparr>\<rparr>) cfg;
          cfg = set_default (\<lambda>c. Admin_Addr (Cfg_Admin c)) (\<lambda>x c. c\<lparr>Cfg_Admin := (Cfg_Admin c)\<lparr>Admin_Addr := x\<rparr>\<rparr>) cfg;
          cfg = set_default (\<lambda>c. Ebay_Marketplace (Cfg_Ebay c)) (\<lambda>x c. c\<lparr>Cfg_Ebay := (Cfg_Ebay c)\<lparr>Ebay_Marketplace := x\<rparr>\<rparr>) cfg;
          cfg = set_default (\<lambda>c. API_Addr (Cfg_API c)) (\<lambda>x c. c\<lparr>Cfg_API := (Cfg_API c)\<lparr>API_Addr := x\<rparr>\<rparr>) cfg;
          cfg = set_default (\<lambda>c. API_ReadTimeout (Cfg_API c)) (\<lambda>x c. c\<lparr>Cfg_API := (Cfg_API c)\<lparr>API_ReadTimeout := x\<rparr>\<rparr>) cfg;
          cfg = set_default (\<lambda>c. API_WriteTimeout (Cfg_API c)) (\<lambda>x c. c\<lparr>Cfg_API := (Cfg_API c)\<lparr>API_WriteTimeout := x\<rparr>\<rparr>) cfg;
          cfg = set_default (\<lambda>c. Sched_TickInterval (Cfg_Scheduler c)) (\<lambda>x c. c\<lparr>Cfg_Scheduler := (Cfg_Scheduler c)\<lparr>Sched_TickInterval := x\<rparr>\<rparr>) cfg;
          cfg = set_default (\<lambda>c. Sched_BulkReconcileInterval (Cfg_Scheduler c)) (\<lambda>x c. c\<lparr>Cfg_Scheduler := (Cfg_Scheduler c)\<lparr>Sched_BulkReconcileInterval := x\<rparr>\<rparr>) cfg;
          cfg = set_default (\<lambda>c. Sched_SyncInterval (Cfg_Scheduler c)) (\<lambda>x c. c\<lparr>Cfg_Scheduler := (Cfg_Scheduler c)\<lparr>Sched_SyncInterval := x\<rparr>\<rparr>) cfg
      in if f64_eq (Obs_SpanSampling (Cfg_Obs cfg)) (Fin 0)
         then cfg\<lparr>Cfg_Obs := (Cfg_Obs cfg)\<lparr>Obs_SpanSampling := Obs_SpanSampling (Cfg_Obs Defaults)\<rparr>\<rparr> else cfg)"

definition Load :: "'b host \<Rightarrow> string list \<Rightarrow> string \<Rightarrow> (string \<rightharpoonup> string) \<Rightarrow> FlagOverrides option \<Rightarrow> err + Config" where
  "Load h paths configDir env flags =
     (let cfg = Defaults\<lparr>Cfg_ConfigFiles := paths, Cfg_ConfigDir := configDir\<rparr>
      in case discoverFiles h configDir paths of
        Inl e \<Rightarrow> Inl e
      | Inr files \<Rightarrow>
          (case (if 0 < length files then decodeFiles h files env cfg else Inr cfg) of
             Inl e \<Rightarrow> Inl e
           | Inr cfg \<Rightarrow>
               let cfg = (case flags of None \<Rightarrow> cfg | Some f \<Rightarrow> applyFlagOverrides cfg f);
                   cfg = applyDefaultsAfterMerge cfg
               in case Validate cfg of Some e \<Rightarrow> Inl e | None \<Rightarrow> Inr cfg))"

text \<open>\<^verbatim>\<open>EnvSliceToMap\<close>: later entries win, an entry without \<open>=\<close> is skipped.\<close>

fun env_entries :: "(string \<rightharpoonup> string) \<Rightarrow> string list \<Rightarrow> (string \<rightharpoonup> string)" where
  "env_entries out [] = out"
| "env_entries out (kv # env) =
     (case cut (CHR ''='') kv of
        None \<Rightarrow> env_entries out env
      | Some (k, v) \<Rightarrow> env_entries (out(k \<mapsto> v)) env)"

definition EnvSliceToMap :: "string list \<Rightarrow> (string \<rightharpoonup> string)" where
  "EnvSliceToMap env = env_entries Map.empty env"

subsection \<open>Layering\<close>

text \<open>
  What layering means, field by field: \<open>last_section d xs\<close> is the last section the files
  define, \<open>d\<close> if none does; \<open>effective flag file dflt\<close> is the value a string ends up with.
\<close>

fun last_section :: "'a \<Rightarrow> 'a option list \<Rightarrow> 'a" where
  "last_section d [] = d"
| "last_section d (x # xs) = last_section (case x of None \<Rightarrow> d | Some y \<Rightarrow> y) xs"

definition effective :: "string \<Rightarrow> string \<Rightarrow> string \<Rightarrow> string" where
  "effective flag file dflt = (if flag \<noteq> '''' then flag else if file \<noteq> '''' then file else dflt)"

definition flag_value :: "(FlagOverrides \<Rightarrow> string) \<Rightarrow> FlagOverrides option \<Rightarrow> string" where
  "flag_value sel flags = (case flags of None \<Rightarrow> '''' | Some f \<Rightarrow> sel f)"

lemma set_section_frame:
  assumes "\<And>x c. sel (upd x c) = sel c"
  shows "sel (set_section upd o' c) = sel c"
  by (simp add: set_section_def assms split: option.split)

lemma set_section_field:
  assumes "\<And>x c. sel (upd x c) = x"
  shows "sel (set_section upd o' c) = (case o' of None \<Rightarrow> sel c | Some x \<Rightarrow> x)"
  by (simp add: set_section_def assms split: option.split)

lemma set_flag_sel: "sel (set_flag upd flag c) = (if flag \<noteq> '''' then sel (upd flag c) else sel c)"
  by (simp add: set_flag_def)

lemma set_flag_frame:
  assumes "\<And>x c. sel (upd x c) = sel c"
  shows "sel (set_flag upd flag c) = sel c"
  by (simp add: set_flag_def assms)

lemma set_default_sel:
  "sel (set_default sl upd c) = (if sl c = '''' then sel (upd (sl Defaults) c) else sel c)"
  by (simp add: set_default_def)

lemma set_default_frame:
  assumes "\<And>x c. sel (upd x c) = sel c"
  shows "sel (set_default sl upd c) = sel c"
  by (simp add: set_default_def assms)

lemmas set_flag_simps =
  set_flag_sel [where sel = Cfg_Log]
  set_flag_sel [where sel = Cfg_Admin]
  set_flag_sel [where sel = Cfg_Ebay]
  set_flag_sel [where sel = Cfg_Postgres]
  set_flag_sel [where sel = Cfg_Valkey]
  set_flag_sel [where sel = Cfg_Meilisearch]
  set_flag_sel [where sel = Cfg_Obs]
  set_flag_sel [where sel = Cfg_API]
  set_flag_sel [where sel = Cfg_Scheduler]
  set_flag_sel [where sel = Cfg_Worker]
  set_flag_sel [where sel = Cfg_Watches]
  set_flag_frame [where sel = Cfg_ConfigFiles]
  set_flag_frame [where sel = Cfg_ConfigDir]

lemmas set_default_simps =
  set_default_sel [where sel = Cfg_Log and sl = "\<lambda>c. Log_Format (Cfg_Log c)"]
  set_default_sel [where sel = Cfg_Log and sl = "\<lambda>c. Log_Level (Cfg_Log c)"]
  set_default_sel [where sel = Cfg_Admin and sl = "\<lambda>c. Admin_Addr (Cfg_Admin c)"]
  set_default_sel [where sel = Cfg_Ebay and sl = "\<lambda>c. Ebay_Marketplace (Cfg_Ebay c)"]
  set_default_sel [where sel = Cfg_API and sl = "\<lambda>c. API_Addr (Cfg_API c)"]
  set_default_sel [where sel = Cfg_API and sl = "\<lambda>c. API_ReadTimeout (Cfg_API c)"]
  set_default_sel [where sel = Cfg_API and sl = "\<lambda>c. API_WriteTimeout (Cfg_API c)"]
  set_default_sel [where sel = Cfg_Scheduler and sl = "\<lambda>c. Sched_TickInterval (Cfg_Scheduler c)"]
  set_default_sel [where sel = Cfg_Scheduler and sl = "\<lambda>c. Sched_BulkReconcileInterval (Cfg_Scheduler c)"]
  set_default_sel [where sel = Cfg_Scheduler and sl = "\<lambda>c. Sched_SyncInterval (Cfg_Scheduler c)"]
  set_default_frame [where sel = Cfg_Log]
  set_default_frame [where sel = Cfg_Admin]
  set_default_frame [where sel = Cfg_Ebay]
  set_default_frame [where sel = Cfg_Postgres]
  set_default_frame [where sel = Cfg_Valkey]
  set_default_frame [where sel = Cfg_Meilisearch]
  set_default_frame [where sel = Cfg_Obs]
  set_default_frame [where sel = Cfg_API]
  set_default_frame [where sel = Cfg_Scheduler]
  set_default_frame [where sel = Cfg_Worker]
  set_default_frame [where sel = Cfg_Watches]
  set_default_frame [where sel = Cfg_ConfigFiles]
  set_default_frame [where sel = Cfg_ConfigDir]

lemma projectSchema_fields:
  "Cfg_Log (projectSchema s c) = (case PS_Log s of None \<Rightarrow> Cfg_Log c | Some x \<Rightarrow> x)"
  "Cfg_Admin (projectSchema s c) = (case PS_Admin s of None \<Rightarrow> Cfg_Admin c | Some x \<Rightarrow> x)"
  "Cfg_Ebay (projectSchema s c) = (case PS_Ebay s of None \<Rightarrow> Cfg_Ebay c | Some x \<Rightarrow> x)"
  "Cfg_Postgres (projectSchema s c) = (case PS_Postgres s of None \<Rightarrow> Cfg_Postgres c | Some x \<Rightarrow> x)"
  "Cfg_Valkey (projectSchema s c) = (case PS_Valkey s of None \<Rightarrow> Cfg_Valkey c | Some x \<Rightarrow> x)"
  "Cfg_Meilisearch (projectSchema s c) = (case PS_Meilisearch s of None \<Rightarrow> Cfg_Meilisearch c | Some x \<Rightarrow> x)"
  "Cfg_Obs (projectSchema s c) = (case PS_Obs s of None \<Rightarrow> Cfg_Obs c | Some x \<Rightarrow> x)"
  "Cfg_API (projectSchema s c) = (case PS_API s of None \<Rightarrow> Cfg_API c | Some x \<Rightarrow> x)"
  "Cfg_Scheduler (projectSchema s c) = (case PS_Scheduler s of None \<Rightarrow> Cfg_Scheduler c | Some x \<Rightarrow> x)"
  "Cfg_Worker (projectSchema s c) = (case PS_Worker s of None \<Rightarrow> Cfg_Worker c | Some x \<Rightarrow> x)"
  "Cfg_Watches (projectSchema s c) = Cfg_Watches c @ PS_Watches s"
  "Cfg_ConfigFiles (projectSchema s c) = Cfg_ConfigFiles c"
  "Cfg_ConfigDir (projectSchema s c) = Cfg_ConfigDir c"
  unfolding projectSchema_def Let_def
  by (simp_all cong: option.case_cong add: set_section_field [where sel = Cfg_Log]
      set_section_frame [where sel = Cfg_Log]
      set_section_field [where sel = Cfg_Admin] set_section_frame [where sel = Cfg_Admin]
      set_section_field [where sel = Cfg_Ebay] set_section_frame [where sel = Cfg_Ebay]
      set_section_field [where sel = Cfg_Postgres] set_section_frame [where sel = Cfg_Postgres]
      set_section_field [where sel = Cfg_Valkey] set_section_frame [where sel = Cfg_Valkey]
      set_section_field [where sel = Cfg_Meilisearch] set_section_frame [where sel = Cfg_Meilisearch]
      set_section_field [where sel = Cfg_Obs] set_section_frame [where sel = Cfg_Obs]
      set_section_field [where sel = Cfg_API] set_section_frame [where sel = Cfg_API]
      set_section_field [where sel = Cfg_Scheduler] set_section_frame [where sel = Cfg_Scheduler]
      set_section_field [where sel = Cfg_Worker] set_section_frame [where sel = Cfg_Worker] set_section_frame [where sel = Cfg_Watches] set_section_frame [where sel = Cfg_ConfigFiles] set_section_frame [where sel = Cfg_ConfigDir])

text \<open>The schemas \<open>ss\<close> the files decode to, in order.\<close>

definition decoded :: "'b host \<Rightarrow> (string \<rightharpoonup> string) \<Rightarrow> string list \<Rightarrow> parseSchema list \<Rightarrow> bool" where
  "decoded h env files ss \<longleftrightarrow> list_all2 (\<lambda>p s. decodeFile h env p = Inr s) files ss"

lemma decodeFiles_fold:
  "decodeFiles h files env c = Inr c' \<longleftrightarrow> (\<exists>ss. decoded h env files ss \<and> c' = fold projectSchema ss c)"
proof (induction files arbitrary: c)
  case Nil
  show ?case by (auto simp: decoded_def)
next
  case (Cons p ps)
  show ?case
  proof (cases "decodeFile h env p")
    case (Inl e)
    then show ?thesis by (auto simp: decoded_def list_all2_Cons1)
  next
    case (Inr s)
    then show ?thesis using Cons.IH [of "projectSchema s c"]
      by (auto simp: decoded_def list_all2_Cons1 intro: exI [of _ "s # _"])
  qed
qed

lemma fold_project_fields:
  "Cfg_Log (fold projectSchema ss c) = last_section (Cfg_Log c) (map PS_Log ss)"
  "Cfg_Admin (fold projectSchema ss c) = last_section (Cfg_Admin c) (map PS_Admin ss)"
  "Cfg_Ebay (fold projectSchema ss c) = last_section (Cfg_Ebay c) (map PS_Ebay ss)"
  "Cfg_Postgres (fold projectSchema ss c) = last_section (Cfg_Postgres c) (map PS_Postgres ss)"
  "Cfg_Valkey (fold projectSchema ss c) = last_section (Cfg_Valkey c) (map PS_Valkey ss)"
  "Cfg_Meilisearch (fold projectSchema ss c) = last_section (Cfg_Meilisearch c) (map PS_Meilisearch ss)"
  "Cfg_Obs (fold projectSchema ss c) = last_section (Cfg_Obs c) (map PS_Obs ss)"
  "Cfg_API (fold projectSchema ss c) = last_section (Cfg_API c) (map PS_API ss)"
  "Cfg_Scheduler (fold projectSchema ss c) = last_section (Cfg_Scheduler c) (map PS_Scheduler ss)"
  "Cfg_Worker (fold projectSchema ss c) = last_section (Cfg_Worker c) (map PS_Worker ss)"
  "Cfg_Watches (fold projectSchema ss c) = Cfg_Watches c @ concat (map PS_Watches ss)"
  "Cfg_ConfigFiles (fold projectSchema ss c) = Cfg_ConfigFiles c"
  "Cfg_ConfigDir (fold projectSchema ss c) = Cfg_ConfigDir c"
  by (induction ss arbitrary: c) (simp_all add: projectSchema_fields)

lemma applyFlagOverrides_fields:
  "Cfg_Log (applyFlagOverrides c f) =
     (Cfg_Log c)\<lparr>Log_Format := (if Flag_LogFormat f \<noteq> '''' then Flag_LogFormat f else Log_Format (Cfg_Log c)),
      Log_Level := (if Flag_LogLevel f \<noteq> '''' then Flag_LogLevel f else Log_Level (Cfg_Log c))\<rparr>"
  "Cfg_Admin (applyFlagOverrides c f) =
     (Cfg_Admin c)\<lparr>Admin_Addr := (if Flag_AdminAddr f \<noteq> '''' then Flag_AdminAddr f else Admin_Addr (Cfg_Admin c))\<rparr>"
  "Cfg_Ebay (applyFlagOverrides c f) =
     (Cfg_Ebay c)\<lparr>Ebay_AppID := (if Flag_EbayAppID f \<noteq> '''' then Flag_EbayAppID f else Ebay_AppID (Cfg_Ebay c)),
      Ebay_CertID := (if Flag_EbayCertID f \<noteq> '''' then Flag_EbayCertID f else Ebay_CertID (Cfg_Ebay c))\<rparr>"
  "Cfg_Postgres (applyFlagOverrides c f) =
     (Cfg_Postgres c)\<lparr>Postgres_DSN := (if Flag_PostgresDSN f \<noteq> '''' then Flag_PostgresDSN f
        else Postgres_DSN (Cfg_Postgres c))\<rparr>"
  "Cfg_Valkey (applyFlagOverrides c f) =
     (Cfg_Valkey c)\<lparr>Valkey_Addr := (if Flag_ValkeyAddr f \<noteq> '''' then Flag_ValkeyAddr f
        else Valkey_Addr (Cfg_Valkey c))\<rparr>"
  "Cfg_Meilisearch (applyFlagOverrides c f) =
     (Cfg_Meilisearch c)\<lparr>Meili_URL := (if Flag_MeiliURL f \<noteq> '''' then Flag_MeiliURL f
        else Meili_URL (Cfg_Meilisearch c))\<rparr>"
  "Cfg_Obs (applyFlagOverrides c f) = Cfg_Obs c" "Cfg_API (applyFlagOverrides c f) = Cfg_API c"
  "Cfg_Scheduler (applyFlagOverrides c f) = Cfg_Scheduler c"
  "Cfg_Worker (applyFlagOverrides c f) = Cfg_Worker c"
  "Cfg_Watches (applyFlagOverrides c f) = Cfg_Watches c"
  "Cfg_ConfigFiles (applyFlagOverrides c f) = Cfg_ConfigFiles c"
  "Cfg_ConfigDir (applyFlagOverrides c f) = Cfg_ConfigDir c"
  unfolding applyFlagOverrides_def Let_def by (simp_all add: set_flag_simps)

lemma applyDefaults_Log:
  "Cfg_Log (applyDefaultsAfterMerge c) =
     (Cfg_Log c)\<lparr>Log_Format := (if Log_Format (Cfg_Log c) = '''' then ''auto'' else Log_Format (Cfg_Log c)),
      Log_Level := (if Log_Level (Cfg_Log c) = '''' then ''info'' else Log_Level (Cfg_Log c))\<rparr>"
  unfolding applyDefaultsAfterMerge_def Let_def
  by (simp add: set_default_simps Defaults_def)

lemma applyDefaults_Admin:
  "Cfg_Admin (applyDefaultsAfterMerge c) =
     (Cfg_Admin c)\<lparr>Admin_Addr := (if Admin_Addr (Cfg_Admin c) = '''' then '':9090'' else Admin_Addr (Cfg_Admin c))\<rparr>"
  unfolding applyDefaultsAfterMerge_def Let_def
  by (simp add: set_default_simps Defaults_def)

lemma applyDefaults_API:
  "Cfg_API (applyDefaultsAfterMerge c) =
     (Cfg_API c)\<lparr>API_Addr := (if API_Addr (Cfg_API c) = '''' then '':8080'' else API_Addr (Cfg_API c)),
      API_ReadTimeout := (if API_ReadTimeout (Cfg_API c) = '''' then ''15s'' else API_ReadTimeout (Cfg_API c)),
      API_WriteTimeout := (if API_WriteTimeout (Cfg_API c) = '''' then ''15s'' else API_WriteTimeout (Cfg_API c))\<rparr>"
  unfolding applyDefaultsAfterMerge_def Let_def
  by (simp add: set_default_simps Defaults_def)

lemma applyDefaults_Ebay:
  "Cfg_Ebay (applyDefaultsAfterMerge c) =
     (Cfg_Ebay c)\<lparr>Ebay_Marketplace := (if Ebay_Marketplace (Cfg_Ebay c) = '''' then ''EBAY_US''
        else Ebay_Marketplace (Cfg_Ebay c))\<rparr>"
  unfolding applyDefaultsAfterMerge_def Let_def
  by (simp add: set_default_simps Defaults_def)

lemma applyDefaults_Scheduler:
  "Cfg_Scheduler (applyDefaultsAfterMerge c) =
     (Cfg_Scheduler c)\<lparr>Sched_TickInterval := (if Sched_TickInterval (Cfg_Scheduler c) = '''' then ''5s''
        else Sched_TickInterval (Cfg_Scheduler c)),
      Sched_BulkReconcileInterval := (if Sched_BulkReconcileInterval (Cfg_Scheduler c) = '''' then ''12h''
        else Sched_BulkReconcileInterval (Cfg_Scheduler c)),
      Sched_SyncInterval := (if Sched_SyncInterval (Cfg_Scheduler c) = '''' then ''5m''
        else Sched_SyncInterval (Cfg_Scheduler c))\<rparr>"
  unfolding applyDefaultsAfterMerge_def Let_def
  by (simp add: set_default_simps Defaults_def)

lemma applyDefaults_rest:
  "Cfg_Postgres (applyDefaultsAfterMerge c) = Cfg_Postgres c"
  "Cfg_Valkey (applyDefaultsAfterMerge c) = Cfg_Valkey c"
  "Cfg_Meilisearch (applyDefaultsAfterMerge c) = Cfg_Meilisearch c"
  "Cfg_Worker (applyDefaultsAfterMerge c) = Cfg_Worker c"
  "Cfg_Watches (applyDefaultsAfterMerge c) = Cfg_Watches c"
  "Cfg_ConfigFiles (applyDefaultsAfterMerge c) = Cfg_ConfigFiles c"
  "Cfg_ConfigDir (applyDefaultsAfterMerge c) = Cfg_ConfigDir c"
  unfolding applyDefaultsAfterMerge_def Let_def
  by (simp_all add: set_default_simps)

lemma applyDefaults_Obs:
  "Cfg_Obs (applyDefaultsAfterMerge c) =
     (Cfg_Obs c)\<lparr>Obs_SpanSampling := (if f64_eq (Obs_SpanSampling (Cfg_Obs c)) (Fin 0) then Fin 1
        else Obs_SpanSampling (Cfg_Obs c))\<rparr>"
  unfolding applyDefaultsAfterMerge_def Let_def
  by (simp add: set_default_simps Defaults_def)

lemmas applyDefaultsAfterMerge_fields =
  applyDefaults_Log applyDefaults_Admin applyDefaults_API applyDefaults_Ebay applyDefaults_Scheduler
  applyDefaults_rest applyDefaults_Obs

lemmas layering_fields =
  fold_project_fields applyFlagOverrides_fields applyDefaultsAfterMerge_fields

text \<open>The configuration that the decoded sections and the flags give.\<close>

definition merged :: "parseSchema list \<Rightarrow> FlagOverrides option \<Rightarrow> string list \<Rightarrow> string \<Rightarrow> Config" where
  "merged ss flags paths dir =
     (let cfg = fold projectSchema ss (Defaults\<lparr>Cfg_ConfigFiles := paths, Cfg_ConfigDir := dir\<rparr>)
      in applyDefaultsAfterMerge (case flags of None \<Rightarrow> cfg | Some f \<Rightarrow> applyFlagOverrides cfg f))"

lemma Load_Inr_iff:
  "Load h paths dir env flags = Inr cfg \<longleftrightarrow>
     (\<exists>files ss. discoverFiles h dir paths = Inr files \<and> decoded h env files ss
        \<and> cfg = merged ss flags paths dir \<and> bad_fields cfg = [])"
proof -
  let ?c = "Defaults\<lparr>Cfg_ConfigFiles := paths, Cfg_ConfigDir := dir\<rparr>"
  let ?fin = "\<lambda>c. applyDefaultsAfterMerge (case flags of None \<Rightarrow> c | Some f \<Rightarrow> applyFlagOverrides c f)"
  have files: "(if 0 < length files then decodeFiles h files env ?c else Inr ?c) = decodeFiles h files env ?c" for files
    by (cases files) auto
  have "Load h paths dir env flags = Inr cfg \<longleftrightarrow>
     (\<exists>files c. discoverFiles h dir paths = Inr files \<and> decodeFiles h files env ?c = Inr c
        \<and> cfg = ?fin c \<and> Validate cfg = None)"
    unfolding Load_def Let_def files by (auto split: sum.splits option.split_asm)
  then show ?thesis by (auto simp: merged_def Let_def decodeFiles_fold Validate_None_iff)
qed

subsection \<open>Properties\<close>

text \<open>
  C3. \<open>Validate\<close> is exact: it accepts a configuration iff no field breaks a rule, and otherwise
  returns one aggregate whose problems name exactly the offending fields, in section order, and
  which \<^verbatim>\<open>errors.Is\<close> matches against exactly the sentinels of the rules broken.
\<close>

theorem Validate_exact:
  "case Validate cfg of
     None \<Rightarrow> bad_fields cfg = []
   | Some e \<Rightarrow> bad_fields cfg \<noteq> []
       \<and> (\<exists>ps. e = ValidationError ps \<and> map problem_field ps = map fst (bad_fields cfg))
       \<and> (\<forall>t. errors_is e t \<longleftrightarrow> t \<in> snd ` set (bad_fields cfg))"
proof -
  obtain ps where v: "Validate cfg = VE_asError (Some ps)" and r: "list_all2 reports ps (bad_fields cfg)"
    by (rule Validate_problems)
  from r have fields: "map problem_field ps = map fst (bad_fields cfg)"
    by (induction rule: list_all2_induct) (auto simp: reports_def)
  from r have "(\<exists>p \<in> set ps. errors_is (problem_err p) t) \<longleftrightarrow> t \<in> snd ` set (bad_fields cfg)" for t
    by (induction rule: list_all2_induct) (auto simp: reports_def)
  then have "errors_is (ValidationError ps) t \<longleftrightarrow> t \<in> snd ` set (bad_fields cfg)" for t
    by (simp only: errors_is_ValidationError VE_Is_iff)
  with v r fields show ?thesis by (auto simp: VE_asError_def simp del: errors_is.simps)
qed

text \<open>
  The layering rule, as the whole configuration that the schemas \<open>ss\<close> of the files and the flags
  give: a record without a gap, so no setting of \<open>Config\<close> can be left out of it. A section is
  the last one the files define, the built-in one if none does; the settings with a flag or a
  default are filled in on it.
\<close>

definition layered :: "parseSchema list \<Rightarrow> FlagOverrides option \<Rightarrow> string list \<Rightarrow> string \<Rightarrow> Config" where
  "layered ss flags paths dir =
    (let log = last_section \<lparr>Log_Format = ''auto'', Log_Level = ''info''\<rparr> (map PS_Log ss);
         admin = last_section \<lparr>Admin_Addr = '':9090''\<rparr> (map PS_Admin ss);
         ebay = last_section \<lparr>Ebay_AppID = '''', Ebay_CertID = '''', Ebay_Marketplace = ''EBAY_US'', Ebay_RateLimit = 0\<rparr>
           (map PS_Ebay ss);
         pg = last_section \<lparr>Postgres_DSN = '''', Postgres_MaxOpenConns = 0, Postgres_MaxIdleConns = 0\<rparr> (map PS_Postgres ss);
         valkey = last_section \<lparr>Valkey_Addr = '''', Valkey_DB = 0, Valkey_Password = ''''\<rparr> (map PS_Valkey ss);
         meili = last_section \<lparr>Meili_URL = '''', Meili_APIKey = ''''\<rparr> (map PS_Meilisearch ss);
         obs = last_section \<lparr>Obs_OTLPEndpoint = '''', Obs_LangfuseHost = '''', Obs_LangfusePublicKey = '''',
           Obs_LangfuseSecretKey = '''', Obs_SpanSampling = Fin 1\<rparr> (map PS_Obs ss);
         api = last_section \<lparr>API_Addr = '':8080'', API_ReadTimeout = ''15s'', API_WriteTimeout = ''15s''\<rparr> (map PS_API ss);
         sch = last_section \<lparr>Sched_TickInterval = ''5s'', Sched_BulkReconcileInterval = ''12h'',
           Sched_SyncInterval = ''5m''\<rparr> (map PS_Scheduler ss)
     in \<lparr>Cfg_ConfigFiles = paths, Cfg_ConfigDir = dir,
         Cfg_Log = log
           \<lparr>Log_Format := effective (flag_value Flag_LogFormat flags) (Log_Format log) ''auto'',
            Log_Level := effective (flag_value Flag_LogLevel flags) (Log_Level log) ''info''\<rparr>,
         Cfg_Admin = admin\<lparr>Admin_Addr := effective (flag_value Flag_AdminAddr flags) (Admin_Addr admin) '':9090''\<rparr>,
         Cfg_Ebay = ebay
           \<lparr>Ebay_AppID := effective (flag_value Flag_EbayAppID flags) (Ebay_AppID ebay) '''',
            Ebay_CertID := effective (flag_value Flag_EbayCertID flags) (Ebay_CertID ebay) '''',
            Ebay_Marketplace := effective '''' (Ebay_Marketplace ebay) ''EBAY_US''\<rparr>,
         Cfg_Postgres = pg\<lparr>Postgres_DSN := effective (flag_value Flag_PostgresDSN flags) (Postgres_DSN pg) ''''\<rparr>,
         Cfg_Valkey = valkey\<lparr>Valkey_Addr := effective (flag_value Flag_ValkeyAddr flags) (Valkey_Addr valkey) ''''\<rparr>,
         Cfg_Meilisearch = meili\<lparr>Meili_URL := effective (flag_value Flag_MeiliURL flags) (Meili_URL meili) ''''\<rparr>,
         Cfg_Obs = obs
           \<lparr>Obs_SpanSampling := (if f64_eq (Obs_SpanSampling obs) (Fin 0) then Fin 1 else Obs_SpanSampling obs)\<rparr>,
         Cfg_API = api
           \<lparr>API_Addr := effective '''' (API_Addr api) '':8080'',
            API_ReadTimeout := effective '''' (API_ReadTimeout api) ''15s'',
            API_WriteTimeout := effective '''' (API_WriteTimeout api) ''15s''\<rparr>,
         Cfg_Scheduler = sch
           \<lparr>Sched_TickInterval := effective '''' (Sched_TickInterval sch) ''5s'',
            Sched_BulkReconcileInterval := effective '''' (Sched_BulkReconcileInterval sch) ''12h'',
            Sched_SyncInterval := effective '''' (Sched_SyncInterval sch) ''5m''\<rparr>,
         Cfg_Worker = last_section \<lparr>Worker_Pools = []\<rparr> (map PS_Worker ss),
         Cfg_Watches = concat (map PS_Watches ss)\<rparr>)"

lemma Defaults_sections:
  "Cfg_Log Defaults = \<lparr>Log_Format = ''auto'', Log_Level = ''info''\<rparr>"
  "Cfg_Admin Defaults = \<lparr>Admin_Addr = '':9090''\<rparr>"
  "Cfg_Ebay Defaults = \<lparr>Ebay_AppID = '''', Ebay_CertID = '''', Ebay_Marketplace = ''EBAY_US'', Ebay_RateLimit = 0\<rparr>"
  "Cfg_Postgres Defaults = \<lparr>Postgres_DSN = '''', Postgres_MaxOpenConns = 0, Postgres_MaxIdleConns = 0\<rparr>"
  "Cfg_Valkey Defaults = \<lparr>Valkey_Addr = '''', Valkey_DB = 0, Valkey_Password = ''''\<rparr>"
  "Cfg_Meilisearch Defaults = \<lparr>Meili_URL = '''', Meili_APIKey = ''''\<rparr>"
  "Cfg_Obs Defaults = \<lparr>Obs_OTLPEndpoint = '''', Obs_LangfuseHost = '''', Obs_LangfusePublicKey = '''',
     Obs_LangfuseSecretKey = '''', Obs_SpanSampling = Fin 1\<rparr>"
  "Cfg_API Defaults = \<lparr>API_Addr = '':8080'', API_ReadTimeout = ''15s'', API_WriteTimeout = ''15s''\<rparr>"
  "Cfg_Scheduler Defaults = \<lparr>Sched_TickInterval = ''5s'', Sched_BulkReconcileInterval = ''12h'', Sched_SyncInterval = ''5m''\<rparr>"
  "Cfg_Worker Defaults = \<lparr>Worker_Pools = []\<rparr>"
  "Cfg_Watches Defaults = []"
  by (simp_all add: Defaults_def)

lemma merged_layered: "merged ss flags paths dir = layered ss flags paths dir"
proof (cases flags)
  case None
  show ?thesis unfolding merged_def layered_def Let_def None option.case
    by (rule Config.equality)
      (simp_all add: layering_fields Defaults_sections effective_def flag_value_def)
next
  case (Some f)
  show ?thesis unfolding merged_def layered_def Let_def Some option.case
    by (rule Config.equality)
      (simp_all add: layering_fields Defaults_sections effective_def flag_value_def)
qed

text \<open>The files of the directory that count, and the order in which they are read.\<close>

definition is_config_file :: "DirEntry \<Rightarrow> bool" where
  "is_config_file e \<longleftrightarrow> \<not> Entry_IsDir e \<and> has_suffix (Entry_Name e) ''.hcl''"

definition discovered :: "'b host \<Rightarrow> string \<Rightarrow> string list \<Rightarrow> string list \<Rightarrow> bool" where
  "discovered h dir paths files \<longleftrightarrow>
     (if dir = '''' then files = paths
      else \<exists>entries names. os_ReadDir h dir = Inr entries \<and> sorted names
             \<and> mset names = mset (map Entry_Name (filter is_config_file entries))
             \<and> files = map (\<lambda>n. path_join [dir, n]) names @ paths)"

lemma hcl_names_filter: "hcl_names es = map Entry_Name (filter is_config_file es)"
  by (induction es) (simp_all add: is_config_file_def)

lemma discoverFiles_discovered: "discoverFiles h dir paths = Inr files \<Longrightarrow> discovered h dir paths files"
  by (auto simp: discoverFiles_def discovered_def hcl_names_filter split: if_splits sum.splits
      intro!: exI [of _ "sort (map Entry_Name (filter is_config_file _))"])

text \<open>
  C2. Layering: a loaded configuration is, in every one of its settings, the flag if the setting has one
  and it is set, otherwise the value of the last file that defines the section, otherwise the
  default; the watches of all files are concatenated in file order. The files are those of the
  directory that end in \<^verbatim>\<open>.hcl\<close>, in name order, then the explicit ones, and each of them was
  decoded.
\<close>

theorem Load_precedence:
  assumes "Load h paths dir env flags = Inr cfg"
  shows "\<exists>files ss. discovered h dir paths files \<and> decoded h env files ss \<and> cfg = layered ss flags paths dir"
proof -
  from assms obtain files ss where "discoverFiles h dir paths = Inr files" "decoded h env files ss"
    "cfg = merged ss flags paths dir" by (auto simp: Load_Inr_iff)
  then show ?thesis unfolding merged_layered by (blast intro: discoverFiles_discovered)
qed

text \<open>A concrete host: two configuration files, the first with a log section.\<close>

definition demo_host :: "string host" where
  "demo_host =
     \<lparr>os_ReadDir = (\<lambda>d. Inr [\<lparr>Entry_Name = ''b.hcl'', Entry_IsDir = False\<rparr>,
          \<lparr>Entry_Name = ''README.md'', Entry_IsDir = False\<rparr>, \<lparr>Entry_Name = ''a.hcl'', Entry_IsDir = False\<rparr>]),
      os_ReadFile = (\<lambda>p. Inr p),
      hcl_Parse = (\<lambda>src p. Inr src),
      gohcl_Decode = (\<lambda>getenv body. Inr
        \<lparr>PS_Log = (if body = ''conf/a.hcl'' then Some \<lparr>Log_Format = ''text'', Log_Level = ''debug''\<rparr> else None),
         PS_Admin = Some \<lparr>Admin_Addr = body\<rparr>, PS_Ebay = None,
         PS_Postgres = Some \<lparr>Postgres_DSN = getenv ''DSN'', Postgres_MaxOpenConns = 4, Postgres_MaxIdleConns = 2\<rparr>,
         PS_Valkey = None, PS_Meilisearch = None, PS_Obs = None, PS_API = None, PS_Scheduler = None,
         PS_Worker = None, PS_Watches = []\<rparr>)\<rparr>"

definition demo_flags :: FlagOverrides where
  "demo_flags = \<lparr>Flag_LogFormat = ''json'', Flag_LogLevel = '''', Flag_AdminAddr = '''', Flag_EbayAppID = '''',
     Flag_EbayCertID = '''', Flag_PostgresDSN = '''', Flag_ValkeyAddr = '''', Flag_MeiliURL = ''''\<rparr>"

definition demo_config :: Config where
  "demo_config = Defaults\<lparr>Cfg_ConfigDir := ''conf'', Cfg_Log := \<lparr>Log_Format = ''json'', Log_Level = ''debug''\<rparr>,
     Cfg_Admin := \<lparr>Admin_Addr = ''conf/b.hcl''\<rparr>,
     Cfg_Postgres := \<lparr>Postgres_DSN = ''pg'', Postgres_MaxOpenConns = 4, Postgres_MaxIdleConns = 2\<rparr>\<rparr>"

lemma demo_Load: "Load demo_host [] ''conf'' [''DSN'' \<mapsto> ''pg''] (Some demo_flags) = Inr demo_config"
  by code_simp

theorem Load_precedence_witness:
  "\<exists>files ss. discovered demo_host ''conf'' [] files \<and> decoded demo_host [''DSN'' \<mapsto> ''pg''] files ss
     \<and> demo_config = layered ss (Some demo_flags) [] ''conf''"
  by (rule Load_precedence [OF demo_Load])


lemma merged_filled:
  "Log_Format (Cfg_Log (merged ss flags paths dir)) \<noteq> ''''"
  "Log_Level (Cfg_Log (merged ss flags paths dir)) \<noteq> ''''"
  "Admin_Addr (Cfg_Admin (merged ss flags paths dir)) \<noteq> ''''"
  "API_Addr (Cfg_API (merged ss flags paths dir)) \<noteq> ''''"
  "API_ReadTimeout (Cfg_API (merged ss flags paths dir)) \<noteq> ''''"
  "API_WriteTimeout (Cfg_API (merged ss flags paths dir)) \<noteq> ''''"
  "Sched_TickInterval (Cfg_Scheduler (merged ss flags paths dir)) \<noteq> ''''"
  "Sched_BulkReconcileInterval (Cfg_Scheduler (merged ss flags paths dir)) \<noteq> ''''"
  "Sched_SyncInterval (Cfg_Scheduler (merged ss flags paths dir)) \<noteq> ''''"
  "\<not> f64_eq (Obs_SpanSampling (Cfg_Obs (merged ss flags paths dir))) (Fin 0)"
  unfolding merged_def Let_def by (simp_all add: applyDefaultsAfterMerge_fields)

lemma containsFold_iff: "containsFold hs x \<longleftrightarrow> (\<exists>h \<in> set hs. equal_fold h x)"
  by (induction hs) auto

lemma flag_if_empty: "flag_if b f e = [] \<longleftrightarrow> \<not> b"
  by (simp add: flag_if_def)

lemma bad_fields_empty:
  assumes "bad_fields cfg = []"
  shows "Log_Format (Cfg_Log cfg) = '''' \<or> (\<exists>h \<in> set validLogFormats. equal_fold h (Log_Format (Cfg_Log cfg)))"
    and "Log_Level (Cfg_Log cfg) = '''' \<or> (\<exists>h \<in> set validLogLevels. equal_fold h (Log_Level (Cfg_Log cfg)))"
    and "\<not> out_of_unit (Obs_SpanSampling (Cfg_Obs cfg))"
    and "duration_ok (API_ReadTimeout (Cfg_API cfg))" and "duration_ok (API_WriteTimeout (Cfg_API cfg))"
    and "duration_ok (Sched_TickInterval (Cfg_Scheduler cfg))"
    and "duration_ok (Sched_BulkReconcileInterval (Cfg_Scheduler cfg))"
    and "duration_ok (Sched_SyncInterval (Cfg_Scheduler cfg))"
    and "\<forall>p \<in> set (Worker_Pools (Cfg_Worker cfg)). 0 < Pool_Concurrency p"
    and "\<forall>w \<in> set (Cfg_Watches cfg). WatchC_Query w \<noteq> '''' \<and> duration_ok (WatchC_Cadence w)
           \<and> \<not> out_of_unit (WatchC_JudgeSampleRate w)"
  using assms unfolding bad_fields_def append_is_Nil_conv flag_if_empty containsFold_iff
  by - (elim conjE, (blast | auto simp: bad_pool_fields_def bad_watch_fields_def flag_if_empty Let_def not_le)+)

text \<open>What a process may rely on once \<open>Load\<close> has returned a configuration.\<close>

definition usable :: "Config \<Rightarrow> bool" where
  "usable cfg \<longleftrightarrow>
     (\<exists>f \<in> set validLogFormats. equal_fold f (Log_Format (Cfg_Log cfg)))
   \<and> (\<exists>l \<in> set validLogLevels. equal_fold l (Log_Level (Cfg_Log cfg)))
   \<and> Admin_Addr (Cfg_Admin cfg) \<noteq> '''' \<and> API_Addr (Cfg_API cfg) \<noteq> ''''
   \<and> \<not> out_of_unit (Obs_SpanSampling (Cfg_Obs cfg)) \<and> \<not> f64_eq (Obs_SpanSampling (Cfg_Obs cfg)) (Fin 0)
   \<and> (\<forall>s \<in> {API_ReadTimeout (Cfg_API cfg), API_WriteTimeout (Cfg_API cfg), Sched_TickInterval (Cfg_Scheduler cfg),
        Sched_BulkReconcileInterval (Cfg_Scheduler cfg), Sched_SyncInterval (Cfg_Scheduler cfg)}.
        parse_duration s \<noteq> None)
   \<and> (\<forall>p \<in> set (Worker_Pools (Cfg_Worker cfg)). 0 < Pool_Concurrency p)
   \<and> (\<forall>w \<in> set (Cfg_Watches cfg). WatchC_Query w \<noteq> '''' \<and> duration_ok (WatchC_Cadence w)
        \<and> \<not> out_of_unit (WatchC_JudgeSampleRate w))"

lemma merged_usable: "bad_fields (merged ss flags paths dir) = [] \<Longrightarrow> usable (merged ss flags paths dir)"
  using bad_fields_empty [of "merged ss flags paths dir"] merged_filled [of ss flags paths dir]
  by (simp add: usable_def duration_ok_def)

text \<open>
  C4. A configuration that \<open>Load\<close> returns is usable: the log settings are recognised, the
  addresses are set, every duration string parses, the span sampling is a positive ratio, every pool
  has workers and every watch a query and a sample rate in \<open>[0, 1]\<close>.
\<close>

theorem Load_usable:
  assumes "Load h paths dir env flags = Inr cfg"
  shows "usable cfg"
  using assms by (auto simp: Load_Inr_iff intro: merged_usable)

theorem Load_usable_witness: "usable demo_config"
  by (rule Load_usable [OF demo_Load])

lemma decodeFile_error:
  assumes "decodeFile h env p = Inl e"
  shows "\<exists>s \<in> {ErrReadFile, ErrParse, ErrDecode}. errors_is e s"
  using assms by (auto simp: decodeFile_def split: sum.splits)

lemma decodeFiles_error:
  "decodeFiles h ps env c = Inl e \<Longrightarrow>
     \<exists>pre p post. ps = pre @ p # post \<and> decodeFile h env p = Inl e \<and> (\<forall>q \<in> set pre. \<exists>s. decodeFile h env q = Inr s)"
proof (induction ps arbitrary: c)
  case (Cons p ps)
  show ?case
  proof (cases "decodeFile h env p")
    case (Inl e')
    with Cons.prems have "p # ps = [] @ p # ps \<and> decodeFile h env p = Inl e" by simp
    then show ?thesis by (metis empty_iff list.set(1))
  next
    case (Inr s)
    with Cons.prems obtain pre q post where "ps = pre @ q # post" "decodeFile h env q = Inl e"
      "\<forall>q \<in> set pre. \<exists>s. decodeFile h env q = Inr s" using Cons.IH [of "projectSchema s c"] by auto
    with Inr show ?thesis by (intro exI [of _ "p # pre"]) auto
  qed
qed simp

lemma bad_fields_sentinels: "snd ` set (bad_fields cfg) \<subseteq> {ErrRequired, ErrOutOfRange, ErrInvalidDuration}"
  by (auto simp: bad_fields_def flag_if_def bad_pool_fields_def bad_watch_fields_def Let_def split: if_splits)

lemma Validate_error_is:
  assumes "Validate cfg = Some e"
  shows "\<exists>s \<in> {ErrRequired, ErrOutOfRange, ErrInvalidDuration}. errors_is e s"
proof -
  obtain ps where v: "Validate cfg = VE_asError (Some ps)" and r: "list_all2 reports ps (bad_fields cfg)"
    by (rule Validate_problems)
  with assms obtain p ps' where e: "e = ValidationError (p # ps')" and ps: "ps = p # ps'"
    by (cases ps) (auto simp: VE_asError_def)
  with r obtain fe fes where "bad_fields cfg = fe # fes" "reports p fe"
    unfolding ps list_all2_Cons1 by blast
  then show ?thesis using bad_fields_sentinels [of cfg] by (auto simp: e reports_def problem_is_err)
qed

text \<open>
  C5. Every error of \<open>Load\<close> matches one of the six sentinels of the package, and comes from
  the first stage that failed: the discovery, the first file that cannot be read, parsed or
  decoded, or the validation of the merged configuration.
\<close>

theorem Load_error_classified:
  assumes "Load h paths dir env flags = Inl e"
  shows "(\<exists>s \<in> {ErrReadFile, ErrParse, ErrDecode, ErrRequired, ErrOutOfRange, ErrInvalidDuration}. errors_is e s)
    \<and> ((\<exists>x. discoverFiles h dir paths = Inl x \<and> e = x)
       \<or> (\<exists>files pre p post. discoverFiles h dir paths = Inr files \<and> files = pre @ p # post
            \<and> decodeFile h env p = Inl e \<and> (\<forall>q \<in> set pre. \<exists>s. decodeFile h env q = Inr s))
       \<or> (\<exists>files ss. discoverFiles h dir paths = Inr files \<and> decoded h env files ss
            \<and> Validate (merged ss flags paths dir) = Some e))"
proof -
  let ?c = "Defaults\<lparr>Cfg_ConfigFiles := paths, Cfg_ConfigDir := dir\<rparr>"
  let ?fin = "\<lambda>c. applyDefaultsAfterMerge (case flags of None \<Rightarrow> c | Some f \<Rightarrow> applyFlagOverrides c f)"
  have files: "(if 0 < length files then decodeFiles h files env ?c else Inr ?c) = decodeFiles h files env ?c" for files
    by (cases files) auto
  consider (disc) "discoverFiles h dir paths = Inl e"
    | (dec) files where "discoverFiles h dir paths = Inr files" "decodeFiles h files env ?c = Inl e"
    | (val) files c where "discoverFiles h dir paths = Inr files" "decodeFiles h files env ?c = Inr c"
        "Validate (?fin c) = Some e"
    using assms unfolding Load_def Let_def files by (auto split: sum.splits option.splits)
  then show ?thesis
  proof cases
    case disc
    then show ?thesis by (auto simp: discoverFiles_def split: if_splits sum.splits)
  next
    case dec
    from decodeFiles_error [OF dec(2)] dec(1) show ?thesis using decodeFile_error [of h env _ e] by blast
  next
    case val
    then show ?thesis using Validate_error_is [OF val(3)]
      by (auto simp: decodeFiles_fold merged_def Let_def)
  qed
qed

theorem Load_error_classified_witness:
  "\<exists>s \<in> {ErrReadFile, ErrParse, ErrDecode, ErrRequired, ErrOutOfRange, ErrInvalidDuration}.
     errors_is (Errorf ''%w: %s: %w'' [ArgErr ErrReadFile, ArgStr ''gone'', ArgErr fs_ErrNotExist]) s"
proof -
  have "Load (demo_host\<lparr>os_ReadDir := \<lambda>d. Inl fs_ErrNotExist\<rparr>) [] ''gone'' Map.empty None
    = Inl (Errorf ''%w: %s: %w'' [ArgErr ErrReadFile, ArgStr ''gone'', ArgErr fs_ErrNotExist])"
    by (simp add: Load_def discoverFiles_def Let_def)
  from Load_error_classified [OF this] show ?thesis by blast
qed

text \<open>The environment: what the process wrote is what a configuration file reads.\<close>

lemma env_entries_pairs:
  "\<forall>(k, v) \<in> set kvs. CHR ''='' \<notin> set k \<Longrightarrow>
     env_entries out (map (\<lambda>(k, v). k @ ''='' @ v) kvs) name =
       (case map_of (rev kvs) name of Some v \<Rightarrow> Some v | None \<Rightarrow> out name)"
  by (induction kvs arbitrary: out) (auto simp: map_add_def split: option.splits)

text \<open>
  C6. The environment round trip: the map that \<open>EnvSliceToMap\<close> builds from \<open>KEY=value\<close>
  entries gives every key its last value, also when the value contains \<open>=\<close>, and \<open>env()\<close> in a
  configuration file reads that value, or the empty string for an unset name.
\<close>

theorem environment_roundtrip:
  assumes "\<forall>(k, v) \<in> set kvs. CHR ''='' \<notin> set k"
  shows "EnvSliceToMap (map (\<lambda>(k, v). k @ ''='' @ v) kvs) = map_of (rev kvs)
    \<and> envFunction (EnvSliceToMap (map (\<lambda>(k, v). k @ ''='' @ v) kvs)) name
        = (case map_of (rev kvs) name of None \<Rightarrow> '''' | Some v \<Rightarrow> v)"
  using env_entries_pairs [OF assms, of Map.empty]
  by (auto simp: EnvSliceToMap_def envFunction_def fun_eq_iff split: option.splits)

theorem environment_roundtrip_witness:
  "EnvSliceToMap [''A=1'', ''B=x=y'', ''A=2''] = [''A'' \<mapsto> ''1'', ''B'' \<mapsto> ''x=y'', ''A'' \<mapsto> ''2'']"
  using environment_roundtrip [of "[(''A'', ''1''), (''B'', ''x=y''), (''A'', ''2'')]" "''B''"]
  by (auto simp: fun_eq_iff)

end
