(* ===== verification/Obs_Stack.thy ===== *)
theory Obs_Stack
  imports Config_Loader
begin

text \<open>
  Package obs (\<^verbatim>\<open>internal/obs\<close>): the logger (\<^verbatim>\<open>slog.go\<close>, \<^verbatim>\<open>context.go\<close>), the span
  categories and their filter (\<^verbatim>\<open>span_category.go\<close>, \<^verbatim>\<open>langfuse.go\<close>), the tracer provider
  with its composed shutdown (\<^verbatim>\<open>tracing.go\<close>), the metrics registry (\<^verbatim>\<open>metrics.go\<close>) and
  \<open>Setup\<close>. The OpenTelemetry SDK is a parameter: the record \<open>otel\<close>, over a type \<open>'w\<close> for
  the state of its exporters and processors.
\<close>

subsection \<open>Logging\<close>

definition ErrUnknownLogFormat :: err where
  "ErrUnknownLogFormat = Sentinel ''obs: unknown log format''"

definition ErrUnknownLogLevel :: err where
  "ErrUnknownLogLevel = Sentinel ''obs: unknown log level''"

text \<open>The levels of package slog.\<close>

type_synonym Level = int

definition LevelDebug :: Level where "LevelDebug = -4"
definition LevelInfo :: Level where "LevelInfo = 0"
definition LevelWarn :: Level where "LevelWarn = 4"
definition LevelError :: Level where "LevelError = 8"

definition logFormatAuto :: string where "logFormatAuto = ''auto''"
definition logFormatText :: string where "logFormatText = ''text''"
definition logFormatJSON :: string where "logFormatJSON = ''json''"

text \<open>A log writer: an \<^verbatim>\<open>*os.File\<close> (nil or with its descriptor) or any other writer.\<close>

datatype writer = OtherWriter | NilFile | File nat

text \<open>A \<^verbatim>\<open>*slog.Logger\<close>: its handler's kind and level, and the attributes \<^verbatim>\<open>With\<close> has added.\<close>

record Logger =
  Logger_Handler :: string
  Logger_Level :: Level
  Logger_Attrs :: "(string \<times> string) list"

definition ParseLevel :: "string \<Rightarrow> err + Level" where
  "ParseLevel level =
     (let l = to_lower level
      in if l = '''' \<or> l = ''info'' then Inr LevelInfo
         else if l = ''debug'' then Inr LevelDebug
         else if l = ''warn'' \<or> l = ''warning'' then Inr LevelWarn
         else if l = ''error'' then Inr LevelError
         else Inl (Errorf ''%w: %q (want one of debug, info, warn, error)''
                [ArgErr ErrUnknownLogLevel, ArgQuoted level]))"

fun isTerminal :: "(nat \<Rightarrow> bool) \<Rightarrow> writer \<Rightarrow> bool" where
  "isTerminal is_tty (File fd) = is_tty fd"
| "isTerminal is_tty NilFile = False"
| "isTerminal is_tty OtherWriter = False"

definition resolveFormat :: "(nat \<Rightarrow> bool) \<Rightarrow> string \<Rightarrow> writer \<Rightarrow> err + string" where
  "resolveFormat is_tty format w =
     (let f = to_lower format
      in if f = '''' \<or> f = logFormatAuto then
           (if isTerminal is_tty w then Inr logFormatText else Inr logFormatJSON)
         else if f = logFormatText then Inr logFormatText
         else if f = logFormatJSON then Inr logFormatJSON
         else Inl (Errorf ''%w: %q (want one of auto, text, json)''
                [ArgErr ErrUnknownLogFormat, ArgQuoted format]))"

definition NewLogger :: "(nat \<Rightarrow> bool) \<Rightarrow> writer \<Rightarrow> string \<Rightarrow> string \<Rightarrow> err + Logger" where
  "NewLogger is_tty w format level =
     (case resolveFormat is_tty format w of
        Inl e \<Rightarrow> Inl e
      | Inr resolved \<Rightarrow>
          (case ParseLevel level of
             Inl e \<Rightarrow> Inl e
           | Inr lvl \<Rightarrow>
               if resolved = logFormatJSON
               then Inr \<lparr>Logger_Handler = ''JSONHandler'', Logger_Level = lvl, Logger_Attrs = []\<rparr>
               else Inr \<lparr>Logger_Handler = ''TextHandler'', Logger_Level = lvl, Logger_Attrs = []\<rparr>))"

text \<open>
  A context as far as the loggers go: the value under \<open>loggerKey\<close> (possibly a nil logger)
  and the trace and span identifiers of a valid span context.
\<close>

record LogContext =
  Ctx_Logger :: "Logger option option"
  Ctx_Span :: "(string \<times> string) option"

definition WithLogger :: "LogContext \<Rightarrow> Logger option \<Rightarrow> LogContext" where
  "WithLogger ctx l = ctx\<lparr>Ctx_Logger := Some l\<rparr>"

definition LoggerFromContext :: "Logger \<Rightarrow> LogContext \<Rightarrow> Logger" where
  "LoggerFromContext slog_default ctx =
     (let l = (case Ctx_Logger ctx of Some (Some l) \<Rightarrow> l | _ \<Rightarrow> slog_default)
      in case Ctx_Span ctx of
           None \<Rightarrow> l
         | Some (trace_id, span_id) \<Rightarrow>
             l\<lparr>Logger_Attrs := Logger_Attrs l @ [(''trace_id'', trace_id), (''span_id'', span_id)]\<rparr>)"

subsection \<open>Span categories\<close>

definition AttrSpanCategory :: string where "AttrSpanCategory = ''spt.span_category''"
definition SpanCategorySystem :: string where "SpanCategorySystem = ''system''"
definition SpanCategoryAgent :: string where "SpanCategoryAgent = ''agent''"

text \<open>An attribute value; \<^verbatim>\<open>AsString\<close> of a value that is no string is the empty string.\<close>

datatype attr_value = AttrString string | AttrOther

fun AsString :: "attr_value \<Rightarrow> string" where
  "AsString (AttrString s) = s"
| "AsString AttrOther = ''''"

type_synonym attrs = "(string \<times> attr_value) list"

text \<open>A span is its name and attributes; \<open>SetAttributes\<close> is the SDK's.\<close>

record Span =
  Span_Name :: string
  Span_Attributes :: attrs

definition SetCategory :: "(Span \<Rightarrow> attrs \<Rightarrow> Span) \<Rightarrow> Span option \<Rightarrow> string \<Rightarrow> Span option" where
  "SetCategory SetAttributes sp cat =
     (case sp of
        None \<Rightarrow> None
      | Some s \<Rightarrow> Some (SetAttributes s [(AttrSpanCategory, AttrString cat)]))"

fun first_category :: "attrs \<Rightarrow> string" where
  "first_category [] = SpanCategorySystem"
| "first_category ((k, v) # as) = (if k = AttrSpanCategory then AsString v else first_category as)"

definition CategoryOf :: "Span option \<Rightarrow> string" where
  "CategoryOf sp = (case sp of None \<Rightarrow> SpanCategorySystem | Some s \<Rightarrow> first_category (Span_Attributes s))"

text \<open>A \<^verbatim>\<open>SpanProcessor\<close>, its methods as steps on the state \<open>'w\<close>.\<close>

record 'w SpanProcessor =
  Proc_OnStart :: "Span option \<Rightarrow> 'w \<Rightarrow> 'w"
  Proc_OnEnd :: "Span option \<Rightarrow> 'w \<Rightarrow> 'w"
  Proc_Shutdown :: "'w \<Rightarrow> err option \<times> 'w"
  Proc_ForceFlush :: "'w \<Rightarrow> err option \<times> 'w"

definition filter_OnStart :: "'w SpanProcessor \<Rightarrow> Span option \<Rightarrow> 'w \<Rightarrow> 'w" where
  "filter_OnStart inner s w = Proc_OnStart inner s w"

definition filter_OnEnd :: "'w SpanProcessor \<Rightarrow> string \<Rightarrow> Span option \<Rightarrow> 'w \<Rightarrow> 'w" where
  "filter_OnEnd inner want s w = (if CategoryOf s \<noteq> want then w else Proc_OnEnd inner s w)"

definition filter_Shutdown :: "'w SpanProcessor \<Rightarrow> 'w \<Rightarrow> err option \<times> 'w" where
  "filter_Shutdown inner w = Proc_Shutdown inner w"

definition filter_ForceFlush :: "'w SpanProcessor \<Rightarrow> 'w \<Rightarrow> err option \<times> 'w" where
  "filter_ForceFlush inner w = Proc_ForceFlush inner w"

definition newCategoryFilter :: "'w SpanProcessor \<Rightarrow> string \<Rightarrow> 'w SpanProcessor" where
  "newCategoryFilter inner want =
     \<lparr>Proc_OnStart = filter_OnStart inner, Proc_OnEnd = filter_OnEnd inner want,
      Proc_Shutdown = filter_Shutdown inner, Proc_ForceFlush = filter_ForceFlush inner\<rparr>"

subsection \<open>The tracer provider\<close>

definition ErrInvalidOTLPEndpoint :: err where
  "ErrInvalidOTLPEndpoint = Sentinel ''obs: invalid OTLP endpoint''"

record 'exp TracerOptions =
  Opt_ServiceName :: string
  Opt_OTLPEndpoint :: string
  Opt_Sampling :: f64
  Opt_LangfuseExporter :: "'exp option"

text \<open>The options handed to \<^verbatim>\<open>sdktrace.NewTracerProvider\<close>, in order.\<close>

datatype ('res, 'exp, 'w) provider_option =
    WithResource 'res
  | WithSampler f64
  | WithBatcher 'exp
  | WithSpanProcessor "'w SpanProcessor"

record ('res, 'exp, 'tp, 'w) otel =
  resource_Merge :: "string \<Rightarrow> err + 'res"
  otlptrace_New :: "string \<Rightarrow> err + 'exp"
  exporter_Shutdown :: "'exp \<Rightarrow> 'w \<Rightarrow> err option \<times> 'w"
  NewBatchSpanProcessor :: "'exp \<Rightarrow> 'w SpanProcessor"
  sdk_NewTracerProvider :: "('res, 'exp, 'w) provider_option list \<Rightarrow> 'tp"
  provider_Shutdown :: "'tp \<Rightarrow> 'w \<Rightarrow> err option \<times> 'w"

text \<open>The loop of \<open>composeShutdown\<close>; \<open>firstErr\<close> is the first error so far.\<close>

fun run_shutdowns :: "err option \<Rightarrow> ('w \<Rightarrow> err option \<times> 'w) list \<Rightarrow> 'w \<Rightarrow> err option \<times> 'w" where
  "run_shutdowns firstErr [] w = (firstErr, w)"
| "run_shutdowns firstErr (fn # fns) w =
     (let (e, w') = fn w
      in run_shutdowns (if e \<noteq> None \<and> firstErr = None then e else firstErr) fns w')"

definition composeShutdown :: "('w \<Rightarrow> err option \<times> 'w) list \<Rightarrow> 'w \<Rightarrow> err option \<times> 'w" where
  "composeShutdown fns w = run_shutdowns None fns w"

definition NewTracerProvider ::
  "('res, 'exp, 'tp, 'w) otel \<Rightarrow> 'exp TracerOptions
     \<Rightarrow> err + 'tp \<times> ('w \<Rightarrow> err option \<times> 'w)" where
  "NewTracerProvider sdk opts =
     (case resource_Merge sdk (Opt_ServiceName opts) of
        Inl e \<Rightarrow> Inl (Errorf ''obs: build resource: %w'' [ArgErr e])
      | Inr res \<Rightarrow>
          let sampling = (if f64_le (Opt_Sampling opts) (Fin 0) then Fin 1 else Opt_Sampling opts);
              tpOpts = [WithResource res, WithSampler sampling];
              shutdownFns = [];
              after_otlp =
                (if Opt_OTLPEndpoint opts \<noteq> '''' then
                   (case otlptrace_New sdk (Opt_OTLPEndpoint opts) of
                      Inl e \<Rightarrow> Inl (Errorf ''%w: %s: %w''
                        [ArgErr ErrInvalidOTLPEndpoint, ArgStr (Opt_OTLPEndpoint opts), ArgErr e])
                    | Inr x \<Rightarrow> Inr (tpOpts @ [WithBatcher x], shutdownFns @ [exporter_Shutdown sdk x]))
                 else Inr (tpOpts, shutdownFns))
          in case after_otlp of
               Inl e \<Rightarrow> Inl e
             | Inr (tpOpts, shutdownFns) \<Rightarrow>
                 let (tpOpts, shutdownFns) =
                       (case Opt_LangfuseExporter opts of
                          None \<Rightarrow> (tpOpts, shutdownFns)
                        | Some x \<Rightarrow>
                            (tpOpts @ [WithSpanProcessor
                               (newCategoryFilter (NewBatchSpanProcessor sdk x) SpanCategoryAgent)],
                             shutdownFns @ [exporter_Shutdown sdk x]));
                     tp = sdk_NewTracerProvider sdk tpOpts;
                     shutdownFns = shutdownFns @ [provider_Shutdown sdk tp]
                 in Inr (tp, composeShutdown shutdownFns))"

subsection \<open>Metrics and setup\<close>

text \<open>A registry is the list of its collectors; the two of package collectors are named.\<close>

type_synonym Registry = "string list"

definition NewRegistry :: Registry where
  "NewRegistry = [] @ [''NewGoCollector'', ''NewProcessCollector'']"

text \<open>\<open>WrapRegistererWith\<close> is Prometheus's: a registerer that adds labels to what it registers.\<close>

definition WithInstance :: "((string \<times> string) list \<Rightarrow> 'r \<Rightarrow> 'r) \<Rightarrow> 'r \<Rightarrow> string \<Rightarrow> 'r" where
  "WithInstance WrapRegistererWith r inst = WrapRegistererWith [(''instance'', inst)] r"

record 'tp Obs =
  Obs_Logger :: Logger
  Obs_TracerProvider :: 'tp
  Obs_Registry :: Registry

text \<open>The process globals \<open>Setup\<close> sets: \<^verbatim>\<open>slog.SetDefault\<close> and \<^verbatim>\<open>otel.SetTracerProvider\<close>.\<close>

record 'tp obs_globals =
  Slog_Default :: "Logger option"
  Otel_Provider :: "'tp option"

definition Setup ::
  "(nat \<Rightarrow> bool) \<Rightarrow> ('res, 'exp, 'tp, 'w) otel \<Rightarrow> Config \<Rightarrow> string \<Rightarrow> 'tp obs_globals
     \<Rightarrow> (err + 'tp Obs \<times> ('w \<Rightarrow> err option \<times> 'w)) \<times> 'tp obs_globals" where
  "Setup is_tty sdk cfg serviceName g =
     (case NewLogger is_tty (File 2) (Log_Format (Cfg_Log cfg)) (Log_Level (Cfg_Log cfg)) of
        Inl e \<Rightarrow> (Inl (Errorf ''obs: configure logger: %w'' [ArgErr e]), g)
      | Inr logger \<Rightarrow>
          let g = g\<lparr>Slog_Default := Some logger\<rparr>
          in case NewTracerProvider sdk
                    \<lparr>Opt_ServiceName = serviceName, Opt_OTLPEndpoint = Obs_OTLPEndpoint (Cfg_Obs cfg),
                     Opt_Sampling = Obs_SpanSampling (Cfg_Obs cfg), Opt_LangfuseExporter = None\<rparr> of
               Inl e \<Rightarrow> (Inl (Errorf ''obs: configure tracer: %w'' [ArgErr e]), g)
             | Inr (tp, shutdown) \<Rightarrow>
                 let g = g\<lparr>Otel_Provider := Some tp\<rparr>
                 in (Inr (\<lparr>Obs_Logger = logger, Obs_TracerProvider = tp, Obs_Registry = NewRegistry\<rparr>, shutdown), g))"

subsection \<open>What the stack promises\<close>

lemma fold_ascii_lower:
  assumes "is_ascii x" and "equal_fold h x" and "map ascii_lower h = h"
  shows "to_lower x = h"
  using assms by (simp add: equal_fold_ascii to_lower_ascii)

lemma valid_names_lower:
  "h \<in> set validLogFormats \<Longrightarrow> map ascii_lower h = h"
  "h \<in> set validLogLevels \<Longrightarrow> map ascii_lower h = h"
  unfolding validLogFormats_def validLogLevels_def by (auto simp: ascii_lower_def)

lemma resolveFormat_valid:
  assumes "is_ascii x" and "x = '''' \<or> (\<exists>h \<in> set validLogFormats. equal_fold h x)"
  shows "\<exists>f. resolveFormat is_tty x w = Inr f"
proof -
  from assms have "to_lower x = '''' \<or> to_lower x \<in> set validLogFormats"
    using fold_ascii_lower valid_names_lower(1) by fastforce
  then show ?thesis
    by (auto simp: resolveFormat_def Let_def validLogFormats_def logFormatAuto_def logFormatText_def
        logFormatJSON_def)
qed

lemma ParseLevel_valid:
  assumes "is_ascii x" and "x = '''' \<or> (\<exists>h \<in> set validLogLevels. equal_fold h x)"
  shows "\<exists>l. ParseLevel x = Inr l"
proof -
  from assms have "to_lower x = '''' \<or> to_lower x \<in> set validLogLevels"
    using fold_ascii_lower valid_names_lower(2) by fastforce
  then show ?thesis by (auto simp: ParseLevel_def Let_def validLogLevels_def)
qed

lemma NewLogger_valid:
  assumes "bad_fields cfg = []" and "is_ascii (Log_Format (Cfg_Log cfg))" and "is_ascii (Log_Level (Cfg_Log cfg))"
  shows "\<exists>l. NewLogger is_tty w (Log_Format (Cfg_Log cfg)) (Log_Level (Cfg_Log cfg)) = Inr l"
  using resolveFormat_valid [OF assms(2) bad_fields_empty(1) [OF assms(1)], of is_tty w]
    ParseLevel_valid [OF assms(3) bad_fields_empty(2) [OF assms(1)]]
  by (auto simp: NewLogger_def split: if_splits)

text \<open>
  The provider's options and shutdowns when neither exporter is configured wrong: the list of
  shutdowns ends with the provider's own.
\<close>

lemma NewTracerProvider_Inr:
  assumes "NewTracerProvider sdk opts = Inr (tp, shutdown)"
  obtains res x where "resource_Merge sdk (Opt_ServiceName opts) = Inr res"
    and "tp = sdk_NewTracerProvider sdk
      ([WithResource res, WithSampler (if f64_le (Opt_Sampling opts) (Fin 0) then Fin 1 else Opt_Sampling opts)]
       @ (if Opt_OTLPEndpoint opts \<noteq> '''' then [WithBatcher x] else [])
       @ (case Opt_LangfuseExporter opts of None \<Rightarrow> []
          | Some y \<Rightarrow> [WithSpanProcessor (newCategoryFilter (NewBatchSpanProcessor sdk y) SpanCategoryAgent)]))"
    and "shutdown = composeShutdown
      ((if Opt_OTLPEndpoint opts \<noteq> '''' then [exporter_Shutdown sdk x] else [])
       @ (case Opt_LangfuseExporter opts of None \<Rightarrow> [] | Some y \<Rightarrow> [exporter_Shutdown sdk y])
       @ [provider_Shutdown sdk tp])"
    and "Opt_OTLPEndpoint opts \<noteq> '''' \<Longrightarrow> otlptrace_New sdk (Opt_OTLPEndpoint opts) = Inr x"
  using assms
  by (cases "Opt_LangfuseExporter opts")
    (auto simp: NewTracerProvider_def Let_def split: sum.splits if_splits)

text \<open>
  C7. A configuration that \<open>Load\<close> accepted with ASCII log settings never fails in the logger of
  \<open>Setup\<close>: the role either gets its observability stack, with the logger installed as the
  process default and a sampler at exactly the configured ratio, or a tracer error, whose logger
  is installed too.
\<close>

theorem Setup_after_Load:
  assumes "Load h paths dir env flags = Inr cfg"
    and "is_ascii (Log_Format (Cfg_Log cfg))" and "is_ascii (Log_Level (Cfg_Log cfg))"
  shows "\<exists>l. NewLogger is_tty (File 2) (Log_Format (Cfg_Log cfg)) (Log_Level (Cfg_Log cfg)) = Inr l
    \<and> Slog_Default (snd (Setup is_tty sdk cfg name g)) = Some l
    \<and> (case fst (Setup is_tty sdk cfg name g) of
         Inl e \<Rightarrow> (\<exists>e'. e = Errorf ''obs: configure tracer: %w'' [ArgErr e'])
                \<and> Otel_Provider (snd (Setup is_tty sdk cfg name g)) = Otel_Provider g
       | Inr (o', shutdown) \<Rightarrow> Obs_Logger o' = l
           \<and> Otel_Provider (snd (Setup is_tty sdk cfg name g)) = Some (Obs_TracerProvider o')
           \<and> (\<exists>res opts. Obs_TracerProvider o' = sdk_NewTracerProvider sdk
                (WithResource res # WithSampler (Obs_SpanSampling (Cfg_Obs cfg)) # opts)))"
proof -
  from assms(1) obtain ss where m: "cfg = merged ss flags paths dir" and b: "bad_fields cfg = []"
    by (auto simp: Load_Inr_iff)
  obtain l where l: "NewLogger is_tty (File 2) (Log_Format (Cfg_Log cfg)) (Log_Level (Cfg_Log cfg)) = Inr l"
    using NewLogger_valid [OF b assms(2,3)] by blast
  have samp: "\<not> f64_le (Obs_SpanSampling (Cfg_Obs cfg)) (Fin 0)"
    using merged_filled(10) [of ss flags paths dir, folded m] bad_fields_empty(3) [OF b]
    by (auto simp: out_of_unit_def f64_le_def)
  let ?opts = "\<lparr>Opt_ServiceName = name, Opt_OTLPEndpoint = Obs_OTLPEndpoint (Cfg_Obs cfg),
    Opt_Sampling = Obs_SpanSampling (Cfg_Obs cfg), Opt_LangfuseExporter = None\<rparr>"
  show ?thesis
  proof (cases "NewTracerProvider sdk ?opts")
    case (Inl e)
    then show ?thesis by (simp add: Setup_def l)
  next
    case (Inr p)
    obtain tp sh where p: "p = (tp, sh)" by (cases p)
    have "\<exists>res opts. tp = sdk_NewTracerProvider sdk
        (WithResource res # WithSampler (Obs_SpanSampling (Cfg_Obs cfg)) # opts)"
      by (rule NewTracerProvider_Inr [OF Inr [unfolded p]]) (use samp in auto)
    with Inr p show ?thesis by (simp add: Setup_def l)
  qed
qed

text \<open>A concrete SDK over the list of the calls made to it.\<close>

definition demo_sdk :: "(string, string, string, string list) otel" where
  "demo_sdk =
     \<lparr>resource_Merge = Inr, otlptrace_New = Inr,
      exporter_Shutdown = (\<lambda>x w. (Some (External x), w @ [x])),
      NewBatchSpanProcessor = (\<lambda>x. \<lparr>Proc_OnStart = (\<lambda>_ w. w),
         Proc_OnEnd = (\<lambda>s w. case s of None \<Rightarrow> w | Some s \<Rightarrow> w @ [Span_Name s]),
         Proc_Shutdown = (\<lambda>w. (None, w)), Proc_ForceFlush = (\<lambda>w. (None, w))\<rparr>),
      sdk_NewTracerProvider = (\<lambda>opts. ''provider''),
      provider_Shutdown = (\<lambda>tp w. (None, w @ [tp]))\<rparr>"

lemma demo_log: "Log_Format (Cfg_Log demo_config) = ''json''" "Log_Level (Cfg_Log demo_config) = ''debug''"
  by (simp_all add: demo_config_def)

theorem Setup_after_Load_witness:
  "\<exists>l. NewLogger (\<lambda>_. False) (File 2) ''json'' ''debug'' = Inr l
     \<and> Slog_Default (snd (Setup (\<lambda>_. False) demo_sdk demo_config ''spt-api''
         \<lparr>Slog_Default = None, Otel_Provider = None\<rparr>)) = Some l"
  using Setup_after_Load [OF demo_Load, of "\<lambda>_. False" demo_sdk "''spt-api''" "\<lparr>Slog_Default = None, Otel_Provider = None\<rparr>"]
  by (auto simp: demo_log is_ascii_def)

text \<open>
  The validator folds case (\<^verbatim>\<open>strings.EqualFold\<close>), the logger lowers it: a format spelt with
  the long s (U+017F) validates and is then refused by the logger.
\<close>

lemma long_s_format_diverges:
  "let cfg = Defaults\<lparr>Cfg_Log := \<lparr>Log_Format = [CHR ''j'', CHR 0xC5, CHR 0xBF, CHR ''o'', CHR ''n''], Log_Level = ''info''\<rparr>\<rparr>
   in Validate cfg = None \<and> \<not> isl (ParseLevel (Log_Level (Cfg_Log cfg)))
    \<and> isl (NewLogger is_tty w (Log_Format (Cfg_Log cfg)) (Log_Level (Cfg_Log cfg)))"
proof -
  let ?f = "[CHR ''j'', CHR 0xC5, CHR 0xBF, CHR ''o'', CHR ''n'']"
  have "Validate (Defaults\<lparr>Cfg_Log := \<lparr>Log_Format = ?f, Log_Level = ''info''\<rparr>\<rparr>) = None"
    by code_simp
  moreover have "to_lower ?f \<notin> {'''', ''auto'', ''text'', ''json''}"
    by code_simp
  ultimately show ?thesis
    by (simp add: Let_def NewLogger_def resolveFormat_def ParseLevel_def logFormatAuto_def logFormatText_def
        logFormatJSON_def ascii_lower_def)
qed

lemma run_shutdowns_append:
  "run_shutdowns e (fs @ gs) w = (let (e', w') = run_shutdowns e fs w in run_shutdowns e' gs w')"
  by (induction fs arbitrary: e w) (auto split: prod.split)

lemma run_shutdowns_Some: "fst (run_shutdowns (Some e) fs w) = Some e"
  by (induction fs arbitrary: w) (auto split: prod.split)

text \<open>The state before the \<open>i\<close>-th shutdown, and what it returns.\<close>

definition shutdown_state :: "('w \<Rightarrow> err option \<times> 'w) list \<Rightarrow> 'w \<Rightarrow> nat \<Rightarrow> 'w" where
  "shutdown_state fns w i = foldl (\<lambda>w fn. snd (fn w)) w (take i fns)"

definition shutdown_result :: "('w \<Rightarrow> err option \<times> 'w) list \<Rightarrow> 'w \<Rightarrow> nat \<Rightarrow> err option" where
  "shutdown_result fns w i = fst ((fns ! i) (shutdown_state fns w i))"

fun first_error :: "err option list \<Rightarrow> err option" where
  "first_error [] = None"
| "first_error (None # es) = first_error es"
| "first_error (Some e # es) = Some e"

lemma first_error_append: "first_error (es @ fs) = (case first_error es of None \<Rightarrow> first_error fs | Some e \<Rightarrow> Some e)"
  by (induction es rule: first_error.induct) auto

lemma run_shutdowns_spec:
  "run_shutdowns None fns w =
     (first_error (map (shutdown_result fns w) [0..<length fns]), shutdown_state fns w (length fns))"
proof (induction fns rule: rev_induct)
  case Nil
  show ?case by (simp add: shutdown_state_def)
next
  case (snoc f fs)
  have pre: "map (shutdown_result (fs @ [f]) w) [0..<length fs] = map (shutdown_result fs w) [0..<length fs]"
    by (auto simp: shutdown_result_def shutdown_state_def nth_append)
  have last: "shutdown_result (fs @ [f]) w (length fs) = fst (f (shutdown_state fs w (length fs)))"
    by (simp add: shutdown_result_def shutdown_state_def)
  have st: "shutdown_state (fs @ [f]) w (Suc (length fs)) = snd (f (shutdown_state fs w (length fs)))"
    by (simp add: shutdown_state_def)
  show ?case
    by (cases "f (shutdown_state fs w (length fs))"; cases "fst (f (shutdown_state fs w (length fs)))")
      (auto simp: run_shutdowns_append snoc.IH pre last st first_error_append split: option.splits)
qed

text \<open>
  C8. The composed shutdown of a tracer provider runs every shutdown function once, in order,
  each on the state the one before left, whatever they return; it returns the first error and
  nothing else. The functions are the OTLP exporter's, if there is an endpoint, then the Langfuse
  exporter's, if there is one, and last the provider's own, which flushes to them.
\<close>

theorem tracer_shutdown:
  assumes "NewTracerProvider sdk opts = Inr (tp, shutdown)"
  shows "\<exists>fns. shutdown w =
       (first_error (map (shutdown_result fns w) [0..<length fns]), shutdown_state fns w (length fns))
     \<and> last fns = provider_Shutdown sdk tp
     \<and> length fns = (if Opt_OTLPEndpoint opts \<noteq> '''' then 1 else 0)
         + (if Opt_LangfuseExporter opts \<noteq> None then 1 else 0) + 1
     \<and> set (butlast fns) \<subseteq> range (exporter_Shutdown sdk)
     \<and> (\<exists>x. (Opt_OTLPEndpoint opts \<noteq> '''' \<longrightarrow> otlptrace_New sdk (Opt_OTLPEndpoint opts) = Inr x)
          \<and> butlast fns = (if Opt_OTLPEndpoint opts \<noteq> '''' then [exporter_Shutdown sdk x] else [])
              @ (case Opt_LangfuseExporter opts of None \<Rightarrow> [] | Some y \<Rightarrow> [exporter_Shutdown sdk y]))"
proof (rule NewTracerProvider_Inr [OF assms])
  fix res x
  let ?fns = "(if Opt_OTLPEndpoint opts \<noteq> '''' then [exporter_Shutdown sdk x] else [])
       @ (case Opt_LangfuseExporter opts of None \<Rightarrow> [] | Some y \<Rightarrow> [exporter_Shutdown sdk y])
       @ [provider_Shutdown sdk tp]"
  assume "shutdown = composeShutdown ?fns"
    and "Opt_OTLPEndpoint opts \<noteq> '''' \<Longrightarrow> otlptrace_New sdk (Opt_OTLPEndpoint opts) = Inr x"
  then show ?thesis
    by (intro exI [of _ ?fns]) (auto simp: composeShutdown_def run_shutdowns_spec butlast_append split: option.split)
qed

definition demo_opts :: "string TracerOptions" where
  "demo_opts = \<lparr>Opt_ServiceName = ''spt'', Opt_OTLPEndpoint = ''otlp:4318'', Opt_Sampling = Fin 1,
     Opt_LangfuseExporter = Some ''langfuse''\<rparr>"

lemma demo_tracer:
  "NewTracerProvider demo_sdk demo_opts = Inr (''provider'', composeShutdown
     [exporter_Shutdown demo_sdk ''otlp:4318'', exporter_Shutdown demo_sdk ''langfuse'',
      provider_Shutdown demo_sdk ''provider''])"
  by (simp add: NewTracerProvider_def demo_sdk_def demo_opts_def Let_def f64_le_def)

theorem tracer_shutdown_witness:
  "composeShutdown [exporter_Shutdown demo_sdk ''otlp:4318'', exporter_Shutdown demo_sdk ''langfuse'',
      provider_Shutdown demo_sdk ''provider''] []
     = (Some (External ''otlp:4318''), [''otlp:4318'', ''langfuse'', ''provider''])
   \<and> (\<exists>fns. last fns = provider_Shutdown demo_sdk ''provider'' \<and> length fns = 3)"
proof
  show "composeShutdown [exporter_Shutdown demo_sdk ''otlp:4318'', exporter_Shutdown demo_sdk ''langfuse'',
      provider_Shutdown demo_sdk ''provider''] []
     = (Some (External ''otlp:4318''), [''otlp:4318'', ''langfuse'', ''provider''])"
    by (simp add: composeShutdown_def demo_sdk_def)
  show "\<exists>fns. last fns = provider_Shutdown demo_sdk ''provider'' \<and> length fns = 3"
    using tracer_shutdown [OF demo_tracer] by (auto simp: demo_opts_def numeral_3_eq_3)
qed

text \<open>
  A span for Langfuse: the first attribute with the category's key says \<open>agent\<close>. What the SDK's
  \<open>SetAttributes\<close> documents: the key has the new value, the other keys keep theirs (a span within its
  limit of attributes).
\<close>

definition is_agent_span :: "Span option \<Rightarrow> bool" where
  "is_agent_span sp \<longleftrightarrow>
     (case sp of None \<Rightarrow> False
      | Some s \<Rightarrow> map_of (Span_Attributes s) ''spt.span_category'' = Some (AttrString ''agent''))"

definition sets_attributes :: "(Span \<Rightarrow> attrs \<Rightarrow> Span) \<Rightarrow> bool" where
  "sets_attributes SetAttributes \<longleftrightarrow>
     (\<forall>s k v k'. map_of (Span_Attributes (SetAttributes s [(k, v)])) k'
        = (if k' = k then Some v else map_of (Span_Attributes s) k'))"

lemma AsString_agent: "AsString v = ''agent'' \<longleftrightarrow> v = AttrString ''agent''"
  by (cases v) auto

lemma first_category_agent:
  "first_category as = SpanCategoryAgent \<longleftrightarrow> map_of as ''spt.span_category'' = Some (AttrString ''agent'')"
  by (induction as rule: first_category.induct)
    (auto simp: SpanCategorySystem_def SpanCategoryAgent_def AttrSpanCategory_def AsString_agent)

lemma CategoryOf_agent: "CategoryOf sp = SpanCategoryAgent \<longleftrightarrow> is_agent_span sp"
  by (auto simp: CategoryOf_def is_agent_span_def first_category_agent split: option.split)
    (simp_all add: SpanCategorySystem_def SpanCategoryAgent_def)

lemma SetCategory_agent:
  "sets_attributes SetAttributes \<Longrightarrow> is_agent_span (SetCategory SetAttributes (Some s) cat) \<longleftrightarrow> cat = ''agent''"
  by (simp add: is_agent_span_def SetCategory_def sets_attributes_def AttrSpanCategory_def)

lemma agent_filter_fields:
  "Proc_OnEnd (newCategoryFilter inner SpanCategoryAgent) sp w = (if is_agent_span sp then Proc_OnEnd inner sp w else w)"
  "Proc_OnStart (newCategoryFilter inner want) = Proc_OnStart inner"
  "Proc_Shutdown (newCategoryFilter inner want) = Proc_Shutdown inner"
  "Proc_ForceFlush (newCategoryFilter inner want) = Proc_ForceFlush inner"
  by (auto simp: newCategoryFilter_def filter_OnEnd_def filter_OnStart_def filter_Shutdown_def
      filter_ForceFlush_def CategoryOf_agent fun_eq_iff)

text \<open>
  C9. The split between agent and system spans, on the provider that \<open>NewTracerProvider\<close> builds:
  the OTLP exporter gets its spans unfiltered; with a Langfuse exporter there is exactly one span
  processor besides, and an ended span reaches the exporter's own processor through it only if its
  category attribute is \<open>agent\<close>: never a span without the attribute, and of the spans tagged by
  \<open>SetCategory\<close> exactly those tagged \<open>agent\<close> last. Start, flush and shutdown always reach it.
  Without a Langfuse exporter there is no such processor.
\<close>

theorem agent_split:
  fixes sdk :: "('res, 'exp, 'tp, 'w) otel"
  assumes "NewTracerProvider sdk opts = Inr (tp, shutdown)" and "sets_attributes SetAttributes"
  shows "\<exists>os. tp = sdk_NewTracerProvider sdk os
    \<and> (Opt_OTLPEndpoint opts \<noteq> '''' \<longrightarrow>
         (\<exists>x. otlptrace_New sdk (Opt_OTLPEndpoint opts) = Inr x \<and> WithBatcher x \<in> set os))
    \<and> (case Opt_LangfuseExporter opts of
         None \<Rightarrow> \<forall>p. WithSpanProcessor p \<notin> set os
       | Some y \<Rightarrow> \<exists>p. concat (map (\<lambda>op. case op of WithSpanProcessor q \<Rightarrow> [q] | _ \<Rightarrow> []) os) = [p]
           \<and> (\<forall>sp w. Proc_OnEnd p sp w
                = (if is_agent_span sp then Proc_OnEnd (NewBatchSpanProcessor sdk y) sp w else w))
           \<and> (\<forall>s cat w. Proc_OnEnd p (SetCategory SetAttributes (Some s) cat) w
                = (if cat = ''agent''
                   then Proc_OnEnd (NewBatchSpanProcessor sdk y) (SetCategory SetAttributes (Some s) cat) w else w))
           \<and> Proc_OnStart p = Proc_OnStart (NewBatchSpanProcessor sdk y)
           \<and> Proc_Shutdown p = Proc_Shutdown (NewBatchSpanProcessor sdk y)
           \<and> Proc_ForceFlush p = Proc_ForceFlush (NewBatchSpanProcessor sdk y))"
proof (rule NewTracerProvider_Inr [OF assms(1)])
  fix res :: 'res and x :: 'exp
  let ?os = "[WithResource res, WithSampler (if f64_le (Opt_Sampling opts) (Fin 0) then Fin 1 else Opt_Sampling opts)]
       @ (if Opt_OTLPEndpoint opts \<noteq> '''' then [WithBatcher x] else [])
       @ (case Opt_LangfuseExporter opts of None \<Rightarrow> []
          | Some y \<Rightarrow> [WithSpanProcessor (newCategoryFilter (NewBatchSpanProcessor sdk y) SpanCategoryAgent)])"
  assume tp: "tp = sdk_NewTracerProvider sdk ?os"
    and x: "Opt_OTLPEndpoint opts \<noteq> '''' \<Longrightarrow> otlptrace_New sdk (Opt_OTLPEndpoint opts) = Inr x"
  show ?thesis
    by (rule exI [of _ ?os], intro conjI)
      (use x in \<open>auto simp: tp agent_filter_fields SetCategory_agent [OF assms(2)] split: option.split\<close>)
qed

text \<open>An SDK that keeps the newest attributes in front; a span tagged twice, and an untagged one.\<close>

definition demo_SetAttributes :: "Span \<Rightarrow> attrs \<Rightarrow> Span" where
  "demo_SetAttributes s as = s\<lparr>Span_Attributes := as @ Span_Attributes s\<rparr>"

theorem agent_split_witness:
  "\<exists>p :: string list SpanProcessor. (\<forall>sp w. Proc_OnEnd p sp w
        = (if is_agent_span sp then Proc_OnEnd (NewBatchSpanProcessor demo_sdk ''langfuse'') sp w else w))
    \<and> Proc_OnEnd p (SetCategory demo_SetAttributes (SetCategory demo_SetAttributes
        (Some \<lparr>Span_Name = ''judge'', Span_Attributes = []\<rparr>) ''system'') ''agent'') [] = [''judge'']
    \<and> Proc_OnEnd p (Some \<lparr>Span_Name = ''sync'', Span_Attributes = []\<rparr>) [] = []"
proof -
  have s: "sets_attributes demo_SetAttributes" by (simp add: sets_attributes_def demo_SetAttributes_def)
  have y: "Opt_LangfuseExporter demo_opts = Some ''langfuse''" by (simp add: demo_opts_def)
  obtain p :: "string list SpanProcessor" where "\<forall>sp w. Proc_OnEnd p sp w
        = (if is_agent_span sp then Proc_OnEnd (NewBatchSpanProcessor demo_sdk ''langfuse'') sp w else w)"
    using agent_split [OF demo_tracer s, unfolded y option.case] by (elim exE conjE)  then show ?thesis
    by (intro exI [of _ p])
      (simp add: is_agent_span_def SetCategory_def demo_SetAttributes_def AttrSpanCategory_def demo_sdk_def)
qed

end
