(* ===== verification/Go_Http.thy ===== *)
theory Go_Http
  imports Go_Strings
begin

text \<open>
  What the servers use of net/http and encoding/json: a response writer with its live
  header map, the headers and status that went out with \<^verbatim>\<open>WriteHeader\<close>, and the body; and
  JSON documents with the decoding of a document into typed fields. The concrete syntax of JSON
  is that of \<open>Go_Json\<close>; a body holds what can be read of it.
\<close>

subsection \<open>JSON\<close>

text \<open>
  \<open>JRaw\<close> is a \<^verbatim>\<open>json.RawMessage\<close>, bytes emitted as they are. An object keeps the order of its
  members; a Go map is encoded with sorted keys, a struct in field order.
\<close>

datatype json =
    JNull
  | JBool bool
  | JInt int
  | JFloat f64
  | JStr string
  | JArr "json list"
  | JObj "(string \<times> json) list"
  | JRaw string

text \<open>The members a struct field of that name receives: keys match up to case folding.\<close>

definition json_members :: "string \<Rightarrow> (string \<times> json) list \<Rightarrow> json list" where
  "json_members name kvs = map snd (filter (\<lambda>(k, v). equal_fold name k) kvs)"

text \<open>
  Decoding into a field that holds \<open>x\<close>: null leaves it, a value of another type is an
  error (\<open>None\<close>), a later member overwrites an earlier one.
\<close>

fun decode_field :: "(json \<Rightarrow> 'a option) \<Rightarrow> 'a \<Rightarrow> json list \<Rightarrow> 'a option" where
  "decode_field dec x [] = Some x"
| "decode_field dec x (v # vs) =
     (if v = JNull then decode_field dec x vs
      else case dec v of None \<Rightarrow> None | Some y \<Rightarrow> decode_field dec y vs)"

fun dec_string :: "json \<Rightarrow> string option" where
  "dec_string (JStr s) = Some s"
| "dec_string _ = None"

fun dec_bool :: "json \<Rightarrow> bool option" where
  "dec_bool (JBool b) = Some b"
| "dec_bool _ = None"

fun dec_int64 :: "json \<Rightarrow> int option" where
  "dec_int64 (JInt n) = (if int64_range n then Some n else None)"
| "dec_int64 _ = None"

fun dec_float :: "json \<Rightarrow> f64 option" where
  "dec_float (JInt n) = (case f64_of_int n of Fin q \<Rightarrow> Some (Fin q) | _ \<Rightarrow> None)"
| "dec_float (JFloat x) = (case x of Fin q \<Rightarrow> Some (Fin q) | _ \<Rightarrow> None)"
| "dec_float _ = None"

text \<open>A pointer field: null makes it nil.\<close>

fun decode_pointer :: "(json \<Rightarrow> 'a option) \<Rightarrow> 'a option \<Rightarrow> json list \<Rightarrow> 'a option option" where
  "decode_pointer dec x [] = Some x"
| "decode_pointer dec x (v # vs) =
     (if v = JNull then decode_pointer dec None vs
      else case dec v of None \<Rightarrow> None | Some y \<Rightarrow> decode_pointer dec (Some y) vs)"

text \<open>The members a struct sees of a document: null is the empty object, another kind an error.\<close>

fun json_object :: "json \<Rightarrow> (string \<times> json) list option" where
  "json_object (JObj kvs) = Some kvs"
| "json_object JNull = Some []"
| "json_object _ = None"

lemma decode_field_range:
  "decode_field dec_int64 x vs = Some y \<Longrightarrow> int64_range x \<Longrightarrow> int64_range y"
proof (induction vs arbitrary: x)
  case (Cons v vs)
  then show ?case by (cases v) (auto split: if_splits)
qed simp

subsection \<open>Requests and responses\<close>

record request =
  Req_Method :: string
  Req_Path :: string
  Req_Query :: "string \<Rightarrow> string"
  Req_Header :: "string \<Rightarrow> string"
  Req_Body :: string

datatype chunk = Bytes string | Doc json

text \<open>
  The writer of net/http's server. \<open>Rw_Sent\<close> is what went out with \<^verbatim>\<open>WriteHeader\<close>: the
  status and a copy of the headers; later changes of the header map are not sent.
\<close>

record conn =
  Rw_Header :: "string \<rightharpoonup> string"
  Rw_Sent :: "(int \<times> (string \<rightharpoonup> string)) option"
  Rw_Body :: "chunk list"

definition new_conn :: conn where
  "new_conn = \<lparr>Rw_Header = Map.empty, Rw_Sent = None, Rw_Body = []\<rparr>"

text \<open>An \<^verbatim>\<open>http.ResponseWriter\<close>: the server's, or one wrapped in a \<open>statusRecorder\<close>.\<close>

datatype response_writer =
    Conn conn
  | StatusRecorder response_writer int bool

fun header_set :: "response_writer \<Rightarrow> string \<Rightarrow> string \<Rightarrow> response_writer" where
  "header_set (Conn c) k v = Conn (c\<lparr>Rw_Header := (Rw_Header c)(k \<mapsto> v)\<rparr>)"
| "header_set (StatusRecorder w status wrote) k v = StatusRecorder (header_set w k v) status wrote"

text \<open>A second \<^verbatim>\<open>WriteHeader\<close> is ignored by the server; \<^verbatim>\<open>Write\<close> sends 200 first if nothing was sent.\<close>

definition conn_write_header :: "conn \<Rightarrow> int \<Rightarrow> conn" where
  "conn_write_header c code =
     (case Rw_Sent c of
        None \<Rightarrow> c\<lparr>Rw_Sent := Some (code, Rw_Header c)\<rparr>
      | Some _ \<Rightarrow> c)"

definition conn_write :: "conn \<Rightarrow> chunk \<Rightarrow> conn" where
  "conn_write c b = (let c = conn_write_header c 200 in c\<lparr>Rw_Body := Rw_Body c @ [b]\<rparr>)"

fun write_header :: "response_writer \<Rightarrow> int \<Rightarrow> response_writer" where
  "write_header (Conn c) code = Conn (conn_write_header c code)"
| "write_header (StatusRecorder w status wrote) code =
     StatusRecorder (write_header w code) (if \<not> wrote then code else status) True"

fun write_body :: "response_writer \<Rightarrow> chunk \<Rightarrow> response_writer" where
  "write_body (Conn c) b = Conn (conn_write c b)"
| "write_body (StatusRecorder w status wrote) b = StatusRecorder (write_body w b) status True"

fun base_conn :: "response_writer \<Rightarrow> conn" where
  "base_conn (Conn c) = c"
| "base_conn (StatusRecorder w _ _) = base_conn w"

text \<open>The response the client gets: status, headers, body; \<open>None\<close> while nothing was sent.\<close>

definition wire :: "response_writer \<Rightarrow> (int \<times> (string \<rightharpoonup> string) \<times> chunk list) option" where
  "wire w = (case Rw_Sent (base_conn w) of None \<Rightarrow> None | Some (code, h) \<Rightarrow> Some (code, h, Rw_Body (base_conn w)))"

lemma base_conn_ops [simp]:
  "base_conn (header_set w k v) = (base_conn w)\<lparr>Rw_Header := (Rw_Header (base_conn w))(k \<mapsto> v)\<rparr>"
  "base_conn (write_header w code) = conn_write_header (base_conn w) code"
  "base_conn (write_body w b) = conn_write (base_conn w) b"
  by (induction w) auto

lemma wire_header_set: "wire w \<noteq> None \<Longrightarrow> wire (header_set w k v) = wire w"
  by (auto simp: wire_def split: option.splits)

lemma wire_fresh: "Rw_Sent (base_conn w) = None \<Longrightarrow>
    wire (write_body (write_header w code) b) = Some (code, Rw_Header (base_conn w), Rw_Body (base_conn w) @ [b])"
  by (simp add: wire_def conn_write_def conn_write_header_def)

text \<open>The recorder around a writer that has sent nothing ends with the status that went out.\<close>

fun recorder_in_step :: "response_writer \<Rightarrow> bool" where
  "recorder_in_step (Conn c) = True"
| "recorder_in_step (StatusRecorder w status wrote) =
     (recorder_in_step w \<and> (wrote \<longleftrightarrow> Rw_Sent (base_conn w) \<noteq> None)
      \<and> status = (case Rw_Sent (base_conn w) of None \<Rightarrow> 200 | Some (code, _) \<Rightarrow> code))"

lemma recorder_in_step_ops:
  "recorder_in_step w \<Longrightarrow> recorder_in_step (header_set w k v)"
  "recorder_in_step w \<Longrightarrow> recorder_in_step (write_header w code)"
  "recorder_in_step w \<Longrightarrow> recorder_in_step (write_body w b)"
  by (induction w) (auto simp: conn_write_def conn_write_header_def Let_def split: option.splits)

text \<open>\<^verbatim>\<open>writeJSON\<close> and its like: content type, status, one document.\<close>

definition respond_json :: "response_writer \<Rightarrow> int \<Rightarrow> json \<Rightarrow> response_writer" where
  "respond_json w code body =
     write_body (write_header (header_set w ''Content-Type'' ''application/json'') code) (Doc body)"

lemma respond_json_step: "recorder_in_step w \<Longrightarrow> recorder_in_step (respond_json w code body)"
  by (simp add: respond_json_def recorder_in_step_ops)

lemma wire_respond_json:
  "Rw_Sent (base_conn w) = None \<Longrightarrow>
     wire (respond_json w code body) =
       Some (code, (Rw_Header (base_conn w))(''Content-Type'' \<mapsto> ''application/json''), Rw_Body (base_conn w) @ [Doc body])"
  by (simp add: respond_json_def wire_fresh)

text \<open>What a handler leaves: the state with the response, or with a panic that aborts the connection.\<close>

datatype 's served = Served 's response_writer | Aborted 's string

primrec served_state :: "'s served \<Rightarrow> 's" where
  "served_state (Served s w) = s"
| "served_state (Aborted s m) = s"

type_synonym 's handler = "request \<Rightarrow> 's \<Rightarrow> response_writer \<Rightarrow> 's served"

end
