(* ===== verification/Go_Process.thy ===== *)
theory Go_Process
  imports Go_Prelude
begin

text \<open>
  Goroutines as labelled step relations. A step is one of the program (\<open>Own\<close>) or of its
  environment (\<open>Env\<close>: a signal, a failing listener), which may or may not come. The locale
  \<open>bounded_process\<close> is what the roles and the admin server owe their callers: no run is longer
  than its budget, and once stopping is asked for, the program can always move on until it is
  finished.
\<close>

datatype label = Own | Env

inductive run :: "(label \<Rightarrow> 's \<Rightarrow> 's \<Rightarrow> bool) \<Rightarrow> 's \<Rightarrow> label list \<Rightarrow> 's \<Rightarrow> bool"
  for step :: "label \<Rightarrow> 's \<Rightarrow> 's \<Rightarrow> bool" and s :: 's where
  run_start: "run step s [] s"
| run_step: "run step s ls t \<Longrightarrow> step l t u \<Longrightarrow> run step s (ls @ [l]) u"

inductive_cases run_NilE: "run step s [] t"

lemma run_Cons: "run step t ls u \<Longrightarrow> step l s t \<Longrightarrow> run step s (l # ls) u"
proof (induction rule: run.induct)
  case run_start
  then show ?case using run.run_step [OF run.run_start [of step s], of l t] by simp
next
  case (run_step ls u l' v)
  from run.run_step [OF run_step.IH [OF run_step.prems] run_step.hyps(2)] show ?case by simp
qed

lemma run_append: "run step s ls t \<Longrightarrow> run step t ls' u \<Longrightarrow> run step s (ls @ ls') u"
proof (induction arbitrary: ls' rule: run.induct)
  case (run_step ls t l v)
  from run_step.IH [OF run_Cons [OF run_step.prems run_step.hyps(2)]] show ?case by simp
qed simp

lemma run_invariant:
  assumes "run step s ls t" and "ok s" and "\<And>l x y. ok x \<Longrightarrow> step l x y \<Longrightarrow> ok y"
  shows "ok t"
  using assms(1) by (induction rule: run.induct) (use assms(2,3) in blast)+

locale bounded_process =
  fixes step :: "label \<Rightarrow> 's \<Rightarrow> 's \<Rightarrow> bool" and init :: 's and ok :: "'s \<Rightarrow> bool"
    and budget :: "'s \<Rightarrow> nat" and stopping :: "'s \<Rightarrow> bool" and finished :: "'s \<Rightarrow> bool"
  assumes inv_init: "ok init"
    and inv_step: "ok s \<Longrightarrow> step l s t \<Longrightarrow> ok t"
    and budget_step: "ok s \<Longrightarrow> step l s t \<Longrightarrow> budget t < budget s"
    and stopping_step: "ok s \<Longrightarrow> stopping s \<Longrightarrow> step l s t \<Longrightarrow> stopping t"
    and progress: "ok s \<Longrightarrow> stopping s \<Longrightarrow> \<not> finished s \<Longrightarrow> \<exists>t. step Own s t"
begin

lemma run_inv: "run step init ls s \<Longrightarrow> ok s"
  by (erule run_invariant) (use inv_init inv_step in blast)+

lemma run_budget: "run step init ls s \<Longrightarrow> length ls + budget s \<le> budget init"
proof (induction rule: run.induct)
  case (run_step ls s l t)
  with budget_step [OF run_inv [OF run_step.hyps(1)] run_step.hyps(2)] show ?case by simp
qed simp

lemma no_long_run: "run step init ls s \<Longrightarrow> length ls \<le> budget init"
  using run_budget by force

lemma can_finish:
  "run step init ls s \<Longrightarrow> stopping s \<Longrightarrow>
     \<exists>n t. n \<le> budget s \<and> run step s (replicate n Own) t \<and> finished t"
proof (induction "budget s" arbitrary: ls s rule: less_induct)
  case less
  show ?case
  proof (cases "finished s")
    case True
    then show ?thesis using run.run_start [of step s] by (intro exI [of _ 0] exI [of _ s]) simp
  next
    case False
    with progress [OF run_inv [OF less.prems(1)] less.prems(2)] obtain t where t: "step Own s t" by blast
    have b: "budget t < budget s" by (rule budget_step [OF run_inv [OF less.prems(1)] t])
    from less.hyps [OF b run.run_step [OF less.prems(1) t] stopping_step [OF run_inv [OF less.prems(1)] less.prems(2) t]]
    obtain n u where "n \<le> budget t" "run step t (replicate n Own) u" "finished u" by blast
    with t b show ?thesis by (intro exI [of _ "Suc n"] exI [of _ u]) (simp add: run_Cons)
  qed
qed

text \<open>A run that cannot be continued by the program and was asked to stop has finished.\<close>

lemma stuck_finished: "run step init ls s \<Longrightarrow> stopping s \<Longrightarrow> (\<And>t. \<not> step Own s t) \<Longrightarrow> finished s"
  using progress run_inv by blast

end

end
