(* ===== verification/Health_Server.thy ===== *)
theory Health_Server
  imports Go_Http Go_Process "HOL-Library.AList"
begin

text \<open>
  Package health (\<^verbatim>\<open>internal/health/health.go\<close>): the admin server's probes with the handlers of
  \<^verbatim>\<open>/healthz\<close> and \<^verbatim>\<open>/readyz\<close>, and \<open>Serve\<close> as a step relation of its main goroutine, the
  goroutine that accepts connections, and the context. The listener and net/http's server are
  the environment: a step may fail with any error of theirs.
\<close>

definition ErrServerClosed :: err where
  "ErrServerClosed = Sentinel ''health: server closed''"

text \<open>A probe gets its time limit and acts on a state \<open>'w\<close>; nil is a healthy dependency.\<close>

type_synonym 'w Probe = "int \<Rightarrow> 'w \<Rightarrow> err option \<times> 'w"

definition probeTimeout :: int where
  "probeTimeout = 2 * 1000000000"

record ('reg, 'w) HealthServer =
  Health_registry :: 'reg
  Health_probes :: "(string \<times> 'w Probe) list"

definition New :: "'reg \<Rightarrow> ('reg, 'w) HealthServer" where
  "New registry = \<lparr>Health_registry = registry, Health_probes = []\<rparr>"

text \<open>\<open>s.probes[name] = p\<close> on the association list that holds the map.\<close>

definition RegisterReadiness :: "string \<Rightarrow> 'w Probe \<Rightarrow> ('reg, 'w) HealthServer \<Rightarrow> ('reg, 'w) HealthServer" where
  "RegisterReadiness name p s = s\<lparr>Health_probes := AList.update name p (Health_probes s)\<rparr>"

subsection \<open>The handlers\<close>

definition handleHealthz :: "response_writer \<Rightarrow> response_writer" where
  "handleHealthz w =
     (let w = header_set w ''Content-Type'' ''text/plain; charset=utf-8'';
          w = write_header w 200
      in write_body w (Bytes ''ok''))"

text \<open>
  The loop over the sorted names: the answers so far, whether all were nil, and the state the
  probes leave. \<open>error_text\<close> is \<^verbatim>\<open>Error()\<close>.
\<close>

fun run_probes :: "(err \<Rightarrow> string) \<Rightarrow> (string \<rightharpoonup> 'w Probe) \<Rightarrow> string list
    \<Rightarrow> (string \<times> string) list \<Rightarrow> bool \<Rightarrow> 'w \<Rightarrow> (string \<times> string) list \<times> bool \<times> 'w" where
  "run_probes error_text probes [] resp allOK w = (resp, allOK, w)"
| "run_probes error_text probes (name # names) resp allOK w =
     (let (e, w') = the (probes name) probeTimeout w
      in case e of
           Some e \<Rightarrow> run_probes error_text probes names (resp @ [(name, ''error: '' @ error_text e)]) False w'
         | None \<Rightarrow> run_probes error_text probes names (resp @ [(name, ''ok'')]) allOK w')"

text \<open>
  \<open>resp\<close> is filled in the order of the sorted names, which is the order in which
  encoding/json writes the keys of a map. \<open>iter_names\<close> is the iteration order of the map.
\<close>

definition handleReadyz ::
  "(err \<Rightarrow> string) \<Rightarrow> (string list \<Rightarrow> string list) \<Rightarrow> ('reg, 'w) HealthServer \<Rightarrow> 'w \<Rightarrow> response_writer
     \<Rightarrow> 'w \<times> response_writer" where
  "handleReadyz error_text iter_names s w rw =
     (let names = sort (iter_names (map fst (Health_probes s)));
          probes = map_of (Health_probes s);
          (resp, allOK, w') = run_probes error_text probes names [] True w;
          rw = header_set rw ''Content-Type'' ''application/json'';
          rw = (if allOK then write_header rw 200 else write_header rw 503)
      in (w', write_body rw (Doc (JObj (map (\<lambda>(n, a). (n, JStr a)) resp)))))"

subsection \<open>Serve\<close>

text \<open>
  Where the two goroutines of \<open>Serve\<close> are. \<open>ServeShutdown\<close> is the call of
  \<^verbatim>\<open>httpSrv.Shutdown\<close>, from which on net/http's \<^verbatim>\<open>Serve\<close> may return \<^verbatim>\<open>http.ErrServerClosed\<close>.
\<close>

datatype serve_pc = ServeListen | ServeSelect | ServeShutdown | ServeReturned "err option"
datatype http_pc = HttpIdle | HttpServing | HttpDone

record serve_state =
  Srv_Cancelled :: bool
  Srv_Pc :: serve_pc
  Srv_Http :: http_pc
  Srv_ErrCh :: "err option list"
  Srv_Addr :: string

definition serve_start :: serve_state where
  "serve_start = \<lparr>Srv_Cancelled = False, Srv_Pc = ServeListen, Srv_Http = HttpIdle, Srv_ErrCh = [], Srv_Addr = ''''\<rparr>"

definition Server_Addr :: "serve_state \<Rightarrow> string" where
  "Server_Addr s = Srv_Addr s"

definition after_shutdown :: "serve_pc \<Rightarrow> bool" where
  "after_shutdown pc = (pc = ServeShutdown \<or> (\<exists>v. pc = ServeReturned v))"

text \<open>
  An error of package net or net/http is none of this package's. They report a cancelled
  context only when it is cancelled, and the accepting loop, which has none, never.
\<close>

definition foreign :: "err \<Rightarrow> bool" where
  "foreign e = (\<not> errors_is e ErrServerClosed)"

inductive serve_step :: "string \<Rightarrow> label \<Rightarrow> serve_state \<Rightarrow> serve_state \<Rightarrow> bool" for addr where
  cancel: "\<not> Srv_Cancelled s \<Longrightarrow> serve_step addr Env s (s\<lparr>Srv_Cancelled := True\<rparr>)"
| listen: "Srv_Pc s = ServeListen \<Longrightarrow>
    serve_step addr Own s (s\<lparr>Srv_Pc := ServeSelect, Srv_Http := HttpServing, Srv_Addr := bound\<rparr>)"
| listen_error: "Srv_Pc s = ServeListen \<Longrightarrow> foreign e \<Longrightarrow> (errors_is e context_Canceled \<longrightarrow> Srv_Cancelled s) \<Longrightarrow>
    serve_step addr Own s (s\<lparr>Srv_Pc := ServeReturned (Some (Errorf ''health: listen %s: %w'' [ArgStr addr, ArgErr e]))\<rparr>)"
| http_error: "Srv_Http s = HttpServing \<Longrightarrow> foreign e \<Longrightarrow> \<not> errors_is e http_ErrServerClosed \<Longrightarrow>
    \<not> errors_is e context_Canceled \<Longrightarrow>
    serve_step addr Env s (s\<lparr>Srv_Http := HttpDone, Srv_ErrCh := Srv_ErrCh s @ [Some e]\<rparr>)"
| http_closed: "Srv_Http s = HttpServing \<Longrightarrow> after_shutdown (Srv_Pc s) \<Longrightarrow>
    serve_step addr Own s (s\<lparr>Srv_Http := HttpDone, Srv_ErrCh := Srv_ErrCh s @ [None]\<rparr>)"
| receive: "Srv_Pc s = ServeSelect \<Longrightarrow> Srv_ErrCh s = v # vs \<Longrightarrow>
    serve_step addr Own s (s\<lparr>Srv_Pc := ServeReturned v, Srv_ErrCh := vs\<rparr>)"
| ctx_done: "Srv_Pc s = ServeSelect \<Longrightarrow> Srv_Cancelled s \<Longrightarrow>
    serve_step addr Own s (s\<lparr>Srv_Pc := ServeShutdown\<rparr>)"
| shutdown: "Srv_Pc s = ServeShutdown \<Longrightarrow>
    serve_step addr Own s (s\<lparr>Srv_Pc := ServeReturned (Some ErrServerClosed)\<rparr>)"
| shutdown_error: "Srv_Pc s = ServeShutdown \<Longrightarrow> foreign e \<Longrightarrow>
    serve_step addr Own s (s\<lparr>Srv_Pc := ServeReturned (Some (Errorf ''health: shutdown: %w'' [ArgErr e]))\<rparr>)"

inductive_cases serve_stepE: "serve_step addr l s t"

subsection \<open>What Serve promises\<close>

text \<open>
  What \<open>Serve\<close> may return, given whether its context is cancelled: always an error; its own
  sentinel only after a cancel.
\<close>

definition serve_result :: "string \<Rightarrow> bool \<Rightarrow> err option \<Rightarrow> bool" where
  "serve_result addr cancelled v =
     ((\<exists>e. foreign e \<and> (errors_is e context_Canceled \<longrightarrow> cancelled) \<and> v = Some (Errorf ''health: listen %s: %w'' [ArgStr addr, ArgErr e]))
    \<or> (\<exists>e. foreign e \<and> \<not> errors_is e http_ErrServerClosed \<and> \<not> errors_is e context_Canceled \<and> v = Some e)
    \<or> cancelled \<and> (v = Some ErrServerClosed \<or> (\<exists>e. foreign e \<and> v = Some (Errorf ''health: shutdown: %w'' [ArgErr e]))))"

definition serve_ok :: "string \<Rightarrow> serve_state \<Rightarrow> bool" where
  "serve_ok addr s \<longleftrightarrow>
     (Srv_Pc s = ServeListen \<longrightarrow> Srv_Http s = HttpIdle)
   \<and> (Srv_Http s \<noteq> HttpDone \<longrightarrow> Srv_ErrCh s = []) \<and> length (Srv_ErrCh s) \<le> 1
   \<and> (\<not> after_shutdown (Srv_Pc s) \<longrightarrow> (\<forall>v\<in>set (Srv_ErrCh s). \<exists>e. foreign e \<and> \<not> errors_is e http_ErrServerClosed
          \<and> \<not> errors_is e context_Canceled \<and> v = Some e))
   \<and> (Srv_Pc s = ServeShutdown \<longrightarrow> Srv_Cancelled s)
   \<and> (\<forall>v. Srv_Pc s = ServeReturned v \<longrightarrow> serve_result addr (Srv_Cancelled s) v)"

lemma serve_ok_start: "serve_ok addr serve_start"
  by (simp add: serve_ok_def serve_start_def)

lemma serve_result_cancel: "serve_result addr c v \<Longrightarrow> serve_result addr True v"
  by (auto simp: serve_result_def)

lemma serve_ok_step: "serve_step addr l s t \<Longrightarrow> serve_ok addr s \<Longrightarrow> serve_ok addr t"
proof (induction rule: serve_step.induct)
  case (cancel s)
  then show ?case by (auto simp: serve_ok_def dest: serve_result_cancel)
qed (auto simp: serve_ok_def serve_result_def after_shutdown_def)

fun serve_left :: "serve_pc \<Rightarrow> nat" where
  "serve_left ServeListen = 4"
| "serve_left ServeSelect = 2"
| "serve_left ServeShutdown = 1"
| "serve_left (ServeReturned v) = 0"

definition serve_budget :: "serve_state \<Rightarrow> nat" where
  "serve_budget s = (if Srv_Cancelled s then 0 else 1) + serve_left (Srv_Pc s) + (if Srv_Http s = HttpServing then 1 else 0)"

definition serve_returned :: "serve_state \<Rightarrow> bool" where
  "serve_returned s = (\<exists>v. Srv_Pc s = ServeReturned v)"

lemma serve_budget_step: "serve_step addr l s t \<Longrightarrow> serve_ok addr s \<Longrightarrow> serve_budget t < serve_budget s"
  by (induction rule: serve_step.induct) (auto simp: serve_budget_def serve_ok_def)

lemma serve_cancelled_step: "serve_step addr l s t \<Longrightarrow> Srv_Cancelled s \<Longrightarrow> Srv_Cancelled t"
  by (induction rule: serve_step.induct) auto

lemma serve_progress: "Srv_Cancelled s \<Longrightarrow> \<not> serve_returned s \<Longrightarrow> \<exists>t. serve_step addr Own s t"
  by (cases "Srv_Pc s") (auto simp: serve_returned_def intro: serve_step.intros)

interpretation serve: bounded_process "serve_step addr" serve_start "serve_ok addr" serve_budget Srv_Cancelled serve_returned
  for addr
  by unfold_locales
    (auto intro: serve_ok_start serve_ok_step serve_budget_step serve_cancelled_step serve_progress)

text \<open>
  C29. \<open>Serve\<close> cannot hang and its error tells its callers how it ended: no run takes more than
  five steps; once the context is cancelled the server can always go on until it returns; and
  what it returns is never nil, and is \<open>ErrServerClosed\<close> (by \<^verbatim>\<open>errors.Is\<close>) only when the context
  was cancelled. The accepting goroutine never blocks on its channel of one element.
\<close>
theorem Serve_contract:
  assumes "run (serve_step addr) serve_start ls s"
  shows "length ls \<le> 5
    \<and> (Srv_Cancelled s \<longrightarrow> (\<exists>n t. n \<le> 5 \<and> run (serve_step addr) s (replicate n Own) t \<and> serve_returned t))
    \<and> (\<forall>v. Srv_Pc s = ServeReturned v \<longrightarrow>
         (\<exists>e. v = Some e \<and> (errors_is e ErrServerClosed \<longrightarrow> Srv_Cancelled s)))
    \<and> length (Srv_ErrCh s) \<le> 1"
proof -
  have ok: "serve_ok addr s" by (rule serve.run_inv [OF assms])
  have five: "serve_budget serve_start = 5" by (simp add: serve_budget_def serve_start_def)
  have "serve_budget s \<le> 5" using serve.run_budget [OF assms] five by simp
  then have "Srv_Cancelled s \<longrightarrow> (\<exists>n t. n \<le> 5 \<and> run (serve_step addr) s (replicate n Own) t \<and> serve_returned t)"
    using serve.can_finish [OF assms] by (meson le_trans)
  moreover have "\<exists>e. v = Some e \<and> (errors_is e ErrServerClosed \<longrightarrow> Srv_Cancelled s)" if "Srv_Pc s = ServeReturned v" for v
    using ok that by (auto simp: serve_ok_def serve_result_def foreign_def)
  ultimately show ?thesis using serve.no_long_run [OF assms] five ok by (simp add: serve_ok_def)
qed

lemma Serve_contract_witness:
  "\<exists>n t. n \<le> 5 \<and> run (serve_step '':9090'') (serve_start\<lparr>Srv_Cancelled := True\<rparr>) (replicate n Own) t \<and> serve_returned t"
proof -
  have "run (serve_step '':9090'') serve_start ([] @ [Env]) (serve_start\<lparr>Srv_Cancelled := True\<rparr>)"
    by (intro run_step [OF run_start] cancel) (simp add: serve_start_def)
  from Serve_contract [OF this] show ?thesis by (simp add: serve_start_def)
qed


subsection \<open>Readiness\<close>

text \<open>The answers of the probes, each run in the state the one before it left.\<close>

fun probe_trace :: "(string \<rightharpoonup> 'w Probe) \<Rightarrow> string list \<Rightarrow> 'w \<Rightarrow> (string \<times> err option) list \<times> 'w" where
  "probe_trace probes [] w = ([], w)"
| "probe_trace probes (name # names) w =
     (let (e, w1) = the (probes name) probeTimeout w; (es, w2) = probe_trace probes names w1
      in ((name, e) # es, w2))"

definition probe_answer :: "(err \<Rightarrow> string) \<Rightarrow> err option \<Rightarrow> string" where
  "probe_answer error_text e = (case e of None \<Rightarrow> ''ok'' | Some e \<Rightarrow> ''error: '' @ error_text e)"

lemma run_probes_trace:
  "run_probes error_text probes names resp allOK w =
     (resp @ map (map_prod id (probe_answer error_text)) (fst (probe_trace probes names w)),
      allOK \<and> (\<forall>a\<in>set (fst (probe_trace probes names w)). snd a = None),
      snd (probe_trace probes names w))"
  by (induction error_text probes names resp allOK w rule: run_probes.induct)
    (auto simp: probe_answer_def Let_def split: prod.splits option.splits)

lemma map_fst_probe_trace [simp]: "map fst (fst (probe_trace probes names w)) = names"
  by (induction probes names w rule: probe_trace.induct) (auto simp: Let_def split: prod.splits)

lemma distinct_probes_register:
  "distinct (map fst (Health_probes s)) \<Longrightarrow> distinct (map fst (Health_probes (RegisterReadiness name p s)))"
  by (simp add: RegisterReadiness_def distinct_update)

lemma probes_register:
  "map_of (Health_probes (RegisterReadiness name p s)) = (map_of (Health_probes s))(name \<mapsto> p)"
  by (simp add: RegisterReadiness_def update_conv')

text \<open>A server after its registrations, in their order.\<close>

definition registered :: "'reg \<Rightarrow> (string \<times> 'w Probe) list \<Rightarrow> ('reg, 'w) HealthServer" where
  "registered registry rs = fold (\<lambda>(name, p). RegisterReadiness name p) rs (New registry)"

lemma registered_probes:
  "distinct (map fst (Health_probes (registered registry rs)))
   \<and> map_of (Health_probes (registered registry rs)) = map_of (rev rs)"
proof (induction rs rule: rev_induct)
  case (snoc r rs)
  then show ?case by (cases r) (simp add: registered_def distinct_probes_register probes_register)
qed (simp add: registered_def New_def)

lemma sort_names:
  assumes "distinct ns" and "mset (f ns) = mset ns"
  shows "sort (f ns) = sorted_list_of_set (set ns)"
  using assms by (metis mset_eq_imp_distinct_iff mset_eq_setD sorted_list_of_set_sort_remdups distinct_remdups_id)

text \<open>
  C30. \<^verbatim>\<open>/readyz\<close> answers for exactly the registered names, each once and in order, whatever the
  iteration order of the map: every probe runs once, the latest one registered under its name,
  with the time limit of two seconds; its answer is \<^verbatim>\<open>ok\<close> or its error; and the status is 200
  iff every probe returned nil, 503 otherwise.
\<close>
theorem readyz_reports:
  assumes "\<And>ns. mset (iter_names ns) = mset ns" and "Rw_Sent (base_conn rw) = None"
  shows "let names = sorted_list_of_set (fst ` set rs);
             (answers, w') = probe_trace (map_of (rev rs)) names w;
             (w'', rw') = handleReadyz error_text iter_names (registered registry rs) w rw
         in w'' = w' \<and> map fst answers = names
          \<and> wire rw' = Some (if \<forall>a\<in>set answers. snd a = None then 200 else 503,
              (Rw_Header (base_conn rw))(''Content-Type'' \<mapsto> ''application/json''),
              Rw_Body (base_conn rw) @ [Doc (JObj (map (\<lambda>(n, e). (n, JStr (probe_answer error_text e))) answers))])"
proof -
  let ?ps = "Health_probes (registered registry rs)"
  have d: "distinct (map fst ?ps)" and m: "map_of ?ps = map_of (rev rs)"
    using registered_probes [of registry rs] by blast+
  have "set (map fst ?ps) = dom (map_of ?ps)" by (simp add: dom_map_of_conv_image_fst)
  also have "\<dots> = fst ` set rs" unfolding m by (simp add: dom_map_of_conv_image_fst)
  finally have n: "sort (iter_names (map fst ?ps)) = sorted_list_of_set (fst ` set rs)"
    using sort_names [where f = iter_names, OF d assms(1)] by simp
  show ?thesis
    unfolding handleReadyz_def n m run_probes_trace
    using assms(2) by (simp add: Let_def case_prod_unfold wire_fresh comp_def)
qed

text \<open>Two dependencies, the second registered twice: the first probe of that name never runs.\<close>

lemma readyz_reports_witness:
  "wire (snd (handleReadyz (\<lambda>e. ''down'') rev
      (registered () [(''valkey'', \<lambda>t w. (None, w)), (''postgres'', \<lambda>t w. (None, w)),
        (''valkey'', \<lambda>t w. (Some context_DeadlineExceeded, Suc w))]) (0::nat) (Conn new_conn)))
   = Some (503, [''Content-Type'' \<mapsto> ''application/json''],
       [Doc (JObj [(''postgres'', JStr ''ok''), (''valkey'', JStr ''error: down'')])])"
proof -
  have "sorted_list_of_set (set [''valkey'', ''postgres'', ''valkey'']) = [''postgres'', ''valkey'']"
    unfolding sorted_list_of_set_sort_remdups by code_simp
  then show ?thesis
    using readyz_reports [of rev "Conn new_conn" "[(''valkey'', \<lambda>t w. (None, w)), (''postgres'', \<lambda>t w. (None, w)),
        (''valkey'', \<lambda>t w. (Some context_DeadlineExceeded, Suc w))]" "0::nat" "\<lambda>e. ''down''" "()"]
    by (simp add: Let_def new_conn_def probe_answer_def case_prod_unfold)
qed


text \<open>
  How long a readiness request may take: each probe has a limit of its own and they run one
  after another, so probes that use up their limit (\<open>slow_probe\<close>, on a clock in nanoseconds)
  take two seconds each, and the request as many times that as there are names.
\<close>

definition slow_probe :: "int Probe" where
  "slow_probe limit now = (Some context_DeadlineExceeded, now + limit)"

lemma probes_time:
  assumes "\<forall>n\<in>set names. probes n = Some slow_probe"
  shows "snd (snd (run_probes error_text probes names resp allOK now)) = now + int (length names) * probeTimeout"
  using assms
proof (induction names arbitrary: resp allOK now)
  case (Cons n names)
  then show ?case by (simp add: slow_probe_def algebra_simps)
qed simp

end
