(* ===== verification/Go_Utf8.thy ===== *)
theory Go_Utf8
  imports Go_Strings
begin

text \<open>
  Package unicode/utf8 on byte strings: the length of the well-formed rune at the head of a
  string, the replacement of ill-formed bytes by U+FFFD, and the encoding of a rune.
\<close>

definition utf8_cont :: "char \<Rightarrow> bool" where
  "utf8_cont c = (128 \<le> byte_val c \<and> byte_val c \<le> (191 :: nat))"

text \<open>
  The size of the rune at the head, 0 where the bytes there are no rune (\<^verbatim>\<open>DecodeRune\<close> then
  answers U+FFFD with size 1): no overlong form, no surrogate, nothing above U+10FFFF.
\<close>

fun rune_len :: "string \<Rightarrow> nat" where
  "rune_len [] = 0"
| "rune_len (c # s) =
     (let n = byte_val c
      in if n < 128 then 1
         else if 194 \<le> n \<and> n \<le> 223 then (case s of x # _ \<Rightarrow> if utf8_cont x then 2 else 0 | _ \<Rightarrow> 0)
         else if 224 \<le> n \<and> n \<le> 239
           then (case s of x # y # _ \<Rightarrow>
                   if utf8_cont x \<and> utf8_cont y \<and> (n = 224 \<longrightarrow> 160 \<le> byte_val x) \<and> (n = 237 \<longrightarrow> byte_val x \<le> 159)
                   then 3 else 0 | _ \<Rightarrow> 0)
         else if 240 \<le> n \<and> n \<le> 244
           then (case s of x # y # z # _ \<Rightarrow>
                   if utf8_cont x \<and> utf8_cont y \<and> utf8_cont z \<and> (n = 240 \<longrightarrow> 144 \<le> byte_val x) \<and> (n = 244 \<longrightarrow> byte_val x \<le> 143)
                   then 4 else 0 | _ \<Rightarrow> 0)
         else 0)"

definition rune_error :: string where
  "rune_error = [CHR 0xEF, CHR 0xBF, CHR 0xBD]"

text \<open>\<^verbatim>\<open>strings.ToValidUTF8(s, "\uFFFD")\<close> byte by byte: each byte outside a rune becomes U+FFFD.\<close>

function to_valid :: "string \<Rightarrow> string" where
  "to_valid [] = []"
| "to_valid (c # s) =
     (let n = rune_len (c # s)
      in if n = 0 then rune_error @ to_valid s
         else c # take (n - 1) s @ to_valid (drop (n - 1) s))"
  by pat_completeness auto
termination by (relation "measure length") auto

definition valid_utf8 :: "string \<Rightarrow> bool" where
  "valid_utf8 s = (to_valid s = s)"

text \<open>\<^verbatim>\<open>utf8.EncodeRune\<close>, for a rune that is no surrogate and at most U+10FFFF.\<close>

definition encode_rune :: "nat \<Rightarrow> string" where
  "encode_rune r =
     (if r < 128 then [char_of r]
      else if r < 2048 then [char_of (192 + r div 64), char_of (128 + r mod 64)]
      else if r < 65536 then [char_of (224 + r div 4096), char_of (128 + r div 64 mod 64), char_of (128 + r mod 64)]
      else [char_of (240 + r div 262144), char_of (128 + r div 4096 mod 64), char_of (128 + r div 64 mod 64), char_of (128 + r mod 64)])"

subsection \<open>Facts\<close>

lemma rune_len_ascii: "byte_val c < (128 :: nat) \<Longrightarrow> rune_len (c # s) = 1"
  by simp

lemma rune_len_le: "rune_len s \<le> length s"
  by (cases s) (auto simp: Let_def split: list.split)

text \<open>What is a rune stays one whatever follows it, and its bytes are not ASCII unless it is.\<close>

lemma rune_len_append:
  assumes "rune_len (c # s) = Suc n"
  shows "rune_len (c # take n s @ t) = Suc n"
  using assms by (auto simp: Let_def take_Cons split: if_splits list.splits nat.splits)

lemma rune_bytes:
  assumes "rune_len (c # s) = Suc n" and "128 \<le> (byte_val c :: nat)"
  shows "\<forall>x\<in>set (take n s). 128 \<le> (byte_val x :: nat)"
  using assms by (auto simp: Let_def utf8_cont_def take_Cons split: if_splits list.splits nat.splits)

lemma to_valid_ascii: "is_ascii s \<Longrightarrow> to_valid s = s"
  by (induction s) (simp_all add: Let_def)

lemma rune_len_error: "rune_len (rune_error @ s) = 3"
  by (simp add: rune_error_def utf8_cont_def)

lemma to_valid_idem: "valid_utf8 (to_valid s)"
proof (induction s rule: to_valid.induct)
  case (2 c s)
  show ?case
  proof (cases "rune_len (c # s)")
    case 0
    have "to_valid (rune_error @ to_valid s) = rune_error @ to_valid (to_valid s)"
      using rune_len_error [of "to_valid s"] by (simp add: rune_error_def Let_def)
    with 0 2 show ?thesis by (simp add: valid_utf8_def Let_def)
  next
    case (Suc n)
    then have "length (take n s) = n" using rune_len_le [of "c # s"] by simp
    moreover have "rune_len (c # take n s @ to_valid (drop n s)) = Suc n" by (rule rune_len_append [OF Suc])
    ultimately show ?thesis using 2 Suc by (simp add: valid_utf8_def Let_def)
  qed
qed (simp add: valid_utf8_def)

lemma valid_utf8_ascii: "is_ascii s \<Longrightarrow> valid_utf8 s"
  by (simp add: valid_utf8_def to_valid_ascii)


text \<open>The encoding of a rune is a rune, so concatenations of runes are well formed.\<close>

lemma rune_len_encode:
  assumes "r < 1114112" and "\<not> (55296 \<le> r \<and> r < 57344)"
  shows "rune_len (encode_rune r @ t) = length (encode_rune r)"
proof -
  have lt: "a div 64 mod 64 < 64" "a mod 64 < 64" for a :: nat by simp_all
  consider "r < 128" | "128 \<le> r" "r < 2048" | "2048 \<le> r" "r < 65536" | "65536 \<le> r" by linarith
  then show ?thesis
  proof cases
    case 1
    then show ?thesis by (simp add: encode_rune_def of_char_of)
  next
    case 2
    then have "2 \<le> r div 64" "r div 64 < 32" by simp_all
    with 2 lt [of r] show ?thesis by (simp add: encode_rune_def of_char_of utf8_cont_def)
  next
    case 3
    then have d: "r div 4096 < 16" by simp
    have "r div 4096 = r div 64 div 64" by (simp flip: div_mult2_eq)
    then have e: "r div 64 = 64 * (r div 4096) + r div 64 mod 64" by simp
    have "32 \<le> r div 64 mod 64" if "r div 4096 = 0" using 3 e that by simp
    moreover have "r div 64 mod 64 < 32" if "r div 4096 = 13"
    proof -
      have "r < 57344" using that by (simp add: div_nat_eqI dividend_less_div_times less_mult_imp_div_less)
      with assms(2) have "r < 55296" by simp
      then have "r div 64 < 864" by simp
      with e that show ?thesis by simp
    qed
    ultimately show ?thesis using 3 d lt [of r] by (auto simp: encode_rune_def of_char_of utf8_cont_def Let_def)
  next
    case 4
    then have d: "r div 262144 \<le> 4" using assms(1) by simp
    have "r div 262144 = r div 4096 div 64" by (simp flip: div_mult2_eq)
    then have e: "r div 4096 = 64 * (r div 262144) + r div 4096 mod 64" by simp
    have "16 \<le> r div 4096 mod 64" if "r div 262144 = 0" using 4 e that by simp
    moreover have "r div 4096 mod 64 < 16" if "r div 262144 = 4"
    proof -
      have "r div 4096 < 272" using assms(1) by simp
      with e that show ?thesis by simp
    qed
    moreover have "r div 4096 mod 64 < 64" by simp
    ultimately show ?thesis using 4 d lt [of r] by (auto simp: encode_rune_def of_char_of utf8_cont_def Let_def)
  qed
qed

lemma to_valid_rune:
  assumes "rune_len (x @ t) = length x" and "x \<noteq> []"
  shows "to_valid (x @ t) = x @ to_valid t"
  using assms by (cases x) (simp_all add: Let_def del: rune_len.simps)

lemma to_valid_encode_rune:
  assumes "r < 1114112" and "\<not> (55296 \<le> r \<and> r < 57344)"
  shows "to_valid (encode_rune r @ t) = encode_rune r @ to_valid t"
  by (rule to_valid_rune [OF rune_len_encode [OF assms]]) (simp add: encode_rune_def)

lemma to_valid_rune_error: "to_valid (rune_error @ t) = rune_error @ to_valid t"
  by (rule to_valid_rune) (simp_all add: rune_error_def utf8_cont_def)

end
