(* ===== verification/Go_Tabwriter.thy ===== *)
theory Go_Tabwriter
  imports Go_Utf8 Go_Prelude
begin

text \<open>
  Package text/tabwriter, as \<^verbatim>\<open>tabwriter.NewWriter(w, 0, 0, 2, ' ', 0)\<close> sets it up: cells end with a
  tab, consecutive lines with a cell in a column form a block, and a block's column is as wide as its
  widest cell and two spaces. The output \<open>out\<close> is a step on a state \<open>'w\<close> that may refuse a write.
\<close>

subsection \<open>The writer\<close>

text \<open>
  The lines, the current one last, each cell with its width in runes; the current cell with the
  width counted so far and the bytes not counted yet; whether the text is inside an escape (0xFF).
\<close>

type_synonym tab_line = "(string \<times> int) list"

record tab_writer =
  Tab_lines :: "tab_line list"
  Tab_cell :: string
  Tab_width :: int
  Tab_pending :: string
  Tab_escape :: bool

definition tab_new :: tab_writer where
  "tab_new = \<lparr>Tab_lines = [[]], Tab_cell = '''', Tab_width = 0, Tab_pending = '''', Tab_escape = False\<rparr>"

text \<open>\<^verbatim>\<open>utf8.RuneCount\<close>: a byte outside a rune counts as one.\<close>

function rune_count :: "string \<Rightarrow> nat" where
  "rune_count [] = 0"
| "rune_count (c # s) = Suc (rune_count (drop (rune_len (c # s) - 1) s))"
  by pat_completeness auto
termination by (relation "measure length") auto

definition tab_append :: "char \<Rightarrow> tab_writer \<Rightarrow> tab_writer" where
  "tab_append c t = t\<lparr>Tab_cell := Tab_cell t @ [c], Tab_pending := Tab_pending t @ [c]\<rparr>"

definition updateWidth :: "tab_writer \<Rightarrow> tab_writer" where
  "updateWidth t = t\<lparr>Tab_width := Tab_width t + int (rune_count (Tab_pending t)), Tab_pending := ''''\<rparr>"

definition endEscape :: "tab_writer \<Rightarrow> tab_writer" where
  "endEscape t = (let t = updateWidth t in t\<lparr>Tab_width := Tab_width t - 2, Tab_escape := False\<rparr>)"

definition terminateCell :: "tab_writer \<Rightarrow> tab_writer" where
  "terminateCell t = t\<lparr>Tab_lines := butlast (Tab_lines t) @ [last (Tab_lines t) @ [(Tab_cell t, Tab_width t)]],
     Tab_cell := '''', Tab_width := 0\<rparr>"

definition addLine :: "tab_writer \<Rightarrow> tab_writer" where
  "addLine t = t\<lparr>Tab_lines := Tab_lines t @ [[]]\<rparr>"

text \<open>A byte that ends no cell.\<close>

definition tab_put :: "char \<Rightarrow> tab_writer \<Rightarrow> tab_writer" where
  "tab_put c t =
     (if Tab_escape t then (if c = CHR 0xFF then endEscape (tab_append c t) else tab_append c t)
      else if c = CHR 0xFF then (tab_append c (updateWidth t))\<lparr>Tab_escape := True\<rparr>
      else tab_append c t)"

subsection \<open>Formatting\<close>

text \<open>Padding goes out in writes of at most eight bytes.\<close>

function writeN :: "nat \<Rightarrow> string list" where
  "writeN n = (if 8 < n then replicate 8 (CHR '' '') # writeN (n - 8) else [replicate n (CHR '' '')])"
  by pat_completeness auto
termination by (relation "measure id") auto

declare writeN.simps [simp del]

text \<open>The writes for the cells of a line from column \<open>j\<close> on, with the widths of the columns known so far.\<close>

fun write_cells :: "int list \<Rightarrow> nat \<Rightarrow> tab_line \<Rightarrow> string list" where
  "write_cells widths j [] = []"
| "write_cells widths j ((s, n) # cs) =
     (if s = '''' then [] else [s]) @ (if j < length widths then writeN (nat (widths ! j - n)) else [])
     @ write_cells widths (Suc j) cs"

text \<open>A line comes with what ends it: a newline, or nothing for the last line of the buffer.\<close>

definition writeLines :: "int list \<Rightarrow> (tab_line \<times> string) list \<Rightarrow> string list" where
  "writeLines widths ls = concat (map (\<lambda>(l, eol). write_cells widths 0 l @ [eol]) ls)"

definition in_column :: "nat \<Rightarrow> tab_line \<times> string \<Rightarrow> bool" where
  "in_column column l = (Suc column < length (fst l))"

definition column_width :: "nat \<Rightarrow> (tab_line \<times> string) list \<Rightarrow> int" where
  "column_width column ls = foldl (\<lambda>width l. max width (snd (fst l ! column) + 2)) 0 ls"

definition longest :: "(tab_line \<times> string) list \<Rightarrow> nat" where
  "longest ls = foldr max (map (length \<circ> fst) ls) 0"

lemma longest_mono: "set ls \<subseteq> set ls' \<Longrightarrow> longest ls \<le> longest ls'"
proof (induction ls)
  case (Cons l ls)
  have "length (fst l) \<le> longest ls'" if "l \<in> set ls'" using that by (induction ls') (auto simp: longest_def)
  with Cons show ?case by (simp add: longest_def)
qed (simp add: longest_def)

lemma longest_ge: "l \<in> set ls \<Longrightarrow> length (fst l) \<le> longest ls"
  by (induction ls) (auto simp: longest_def)

text \<open>
  The lines before the next block of this column, the block with its column's width known, the
  lines after it.
\<close>

function (sequential) tab_format :: "int list \<Rightarrow> (tab_line \<times> string) list \<Rightarrow> string list" where
  "tab_format widths ls =
     (let column = length widths;
          above = takeWhile (\<lambda>l. \<not> in_column column l) ls;
          rest = dropWhile (\<lambda>l. \<not> in_column column l) ls;
          block = takeWhile (in_column column) rest;
          after = dropWhile (in_column column) rest
      in writeLines widths above
         @ (if rest = [] then []
            else tab_format (widths @ [column_width column block]) block @ tab_format widths after))"
  by pat_completeness auto
termination
proof (relation "measures [\<lambda>(widths, ls). longest ls - length widths, \<lambda>(widths, ls). length ls]", simp, goal_cases)
  case (1 widths ls column above rest block after)
  then obtain l where l: "l \<in> set ls" "in_column column l" by (auto simp: dropWhile_eq_Nil_conv)
  have "longest block \<le> longest ls"
    unfolding 1 by (rule longest_mono) (auto dest!: set_takeWhileD set_dropWhileD)
  with longest_ge [OF l(1)] l(2) 1(1) show ?case by (auto simp: in_column_def)
next
  case (2 widths ls column above rest block after)
  have sub: "set after \<subseteq> set ls" unfolding 2 by (auto dest!: set_dropWhileD)
  obtain r rs where r: "rest = r # rs" using 2(6) by (cases rest) auto
  then have "in_column column r" using 2(3) hd_dropWhile [of "\<lambda>l. \<not> in_column column l" ls] by simp
  then have "after = dropWhile (in_column column) rs" unfolding 2(5) r by simp
  then have "length after < length rest" unfolding r by (simp add: length_dropWhile_le less_Suc_eq_le)  moreover have "length rest \<le> length ls" unfolding 2 by (rule length_dropWhile_le)
  ultimately show ?case using longest_mono [OF sub] 2(1) by (auto simp: diff_le_mono)
qed

declare tab_format.simps [simp del]

definition tab_writes :: "tab_writer \<Rightarrow> string list" where
  "tab_writes t = tab_format [] (map (\<lambda>l. (l, [CHR 0x0A])) (butlast (Tab_lines t)) @ [(last (Tab_lines t), '''')])"

fun write_all :: "(string \<Rightarrow> 'w \<Rightarrow> err option \<times> 'w) \<Rightarrow> string list \<Rightarrow> 'w \<Rightarrow> err option \<times> 'w" where
  "write_all out [] w = (None, w)"
| "write_all out (s # ss) w = (case out s w of (Some e, w) \<Rightarrow> (Some e, w) | (None, w) \<Rightarrow> write_all out ss w)"

text \<open>
  A line of one cell ends what came before, so the buffer goes out. After a write that failed the
  buffer stays as it was. (What the next flush then tries to write may differ from Go's, which does
  not forget the columns it was in.)
\<close>

fun tab_Write :: "(string \<Rightarrow> 'w \<Rightarrow> err option \<times> 'w) \<Rightarrow> string \<Rightarrow> tab_writer \<Rightarrow> 'w \<Rightarrow> err option \<times> tab_writer \<times> 'w" where
  "tab_Write out [] t w = (None, t, w)"
| "tab_Write out (c # s) t w =
     (if \<not> Tab_escape t \<and> c \<in> {CHR 0x09, CHR 0x0B, CHR 0x0A, CHR 0x0C} then
        let t = terminateCell (updateWidth t); ncells = length (last (Tab_lines t))
        in if c \<in> {CHR 0x0A, CHR 0x0C} then
             let t = addLine t
             in if c = CHR 0x0C \<or> ncells = 1
                then (case write_all out (tab_writes t) w of
                        (Some e, w) \<Rightarrow> (Some e, t, w)
                      | (None, w) \<Rightarrow> tab_Write out s tab_new w)
                else tab_Write out s t w
           else tab_Write out s t w
      else tab_Write out s (tab_put c t) w)"

definition tab_Flush :: "(string \<Rightarrow> 'w \<Rightarrow> err option \<times> 'w) \<Rightarrow> tab_writer \<Rightarrow> 'w \<Rightarrow> err option \<times> 'w" where
  "tab_Flush out t w =
     (let t = (if Tab_cell t = '''' then t else terminateCell (if Tab_escape t then endEscape t else t))
      in write_all out (tab_writes t) w)"


subsection \<open>A table\<close>

text \<open>Text written to a buffer, and what a sequence of prints leaves there after the flush.\<close>

definition buffer_write :: "string \<Rightarrow> string \<Rightarrow> err option \<times> string" where
  "buffer_write t buf = (None, buf @ t)"

definition tabbed :: "string \<Rightarrow> string" where
  "tabbed s = (case tab_Write buffer_write s tab_new '''' of (_, t, buf) \<Rightarrow> snd (tab_Flush buffer_write t buf))"

lemma write_all_buffer: "write_all buffer_write ss buf = (None, buf @ concat ss)"
  by (induction ss arbitrary: buf) (simp_all add: buffer_write_def)

lemma tab_Write_append:
  "tab_Write out (s @ s') t w = (case tab_Write out s t w of
     (Some e, t, w) \<Rightarrow> (Some e, t, w) | (None, t, w) \<Rightarrow> tab_Write out s' t w)"
  by (induction out s t w rule: tab_Write.induct) (auto simp: Let_def split: prod.split option.split)

text \<open>The rows of a table: cells without control characters, separated by tabs.\<close>

definition plain_cell :: "string \<Rightarrow> bool" where
  "plain_cell s = (\<forall>c\<in>set s. c \<notin> {CHR 0x09, CHR 0x0A, CHR 0x0B, CHR 0x0C, CHR 0xFF})"

fun tab_row :: "string list \<Rightarrow> string" where
  "tab_row [] = [CHR 0x0A]"
| "tab_row [c] = c @ [CHR 0x0A]"
| "tab_row (c # cs) = c @ [CHR 0x09] @ tab_row cs"

lemma plain_show_int: "plain_cell (show_int n)"
proof -
  have "plain_cell (nat_digits k)" for k
  proof -
    have "is_digit c" if "c \<in> set (nat_digits k)" for c using that nat_digits_spec [of k] by (auto simp: list_all_iff)
    then show ?thesis unfolding plain_cell_def by (fastforce simp: is_digit_def)
  qed
  then show ?thesis by (auto simp: show_int_def plain_cell_def)
qed

text \<open>Columns as wide as their widest cell and two spaces, the last one as it is.\<close>

definition pad_cell :: "int \<Rightarrow> string \<Rightarrow> string" where
  "pad_cell n s = s @ replicate (nat (n - int (rune_count s))) (CHR '' '')"

definition table_widths :: "string list list \<Rightarrow> nat \<Rightarrow> int list" where
  "table_widths rows k = map (\<lambda>j. foldl (\<lambda>width row. max width (int (rune_count (row ! j)) + 2)) 0 rows) [0..<k]"

definition table_line :: "int list \<Rightarrow> string list \<Rightarrow> string" where
  "table_line widths row = concat (map2 pad_cell widths (butlast row)) @ last row @ [CHR 0x0A]"

lemma writeN_text: "concat (writeN n) = replicate n (CHR '' '')"
proof (induction n rule: writeN.induct)
  case (1 n)
  show ?case
  proof (cases "8 < n")
    case True
    then have "concat (writeN n) = replicate 8 (CHR '' '') @ replicate (n - 8) (CHR '' '')"
      using 1 by (subst writeN.simps) simp
    then show ?thesis using True by (simp flip: replicate_add)
  qed (subst writeN.simps, simp)
qed

lemma tab_Write_plain:
  assumes "plain_cell s" and "\<not> Tab_escape t"
  shows "tab_Write out (s @ s') t w = tab_Write out s' (t\<lparr>Tab_cell := Tab_cell t @ s, Tab_pending := Tab_pending t @ s\<rparr>) w"
  using assms by (induction s arbitrary: t) (simp_all add: plain_cell_def tab_put_def tab_append_def)

definition row_cells :: "string list \<Rightarrow> tab_line" where
  "row_cells row = map (\<lambda>c. (c, int (rune_count c))) row"

abbreviation row_start :: "tab_line list \<Rightarrow> tab_line \<Rightarrow> tab_writer" where
  "row_start ls l \<equiv> \<lparr>Tab_lines = ls @ [l], Tab_cell = '''', Tab_width = 0, Tab_pending = '''', Tab_escape = False\<rparr>"

lemma tab_Write_row:
  assumes "row \<noteq> []" and "list_all plain_cell row" and "2 \<le> length l + length row"
  shows "tab_Write out (tab_row row @ s) (row_start ls l) w = tab_Write out s (row_start (ls @ [l @ row_cells row]) []) w"
  using assms
proof (induction row arbitrary: l rule: tab_row.induct)
  case (2 c)
  then have "l \<noteq> []" by auto
  with 2 show ?case
    by (simp add: tab_Write_plain row_cells_def updateWidth_def terminateCell_def addLine_def Let_def)
next
  case (3 c c' cs)
  have "tab_Write out (tab_row (c # c' # cs) @ s) (row_start ls l) w
      = tab_Write out (tab_row (c' # cs) @ s) (row_start ls (l @ [(c, int (rune_count c))])) w"
    using 3(3) by (simp add: tab_Write_plain updateWidth_def terminateCell_def Let_def)
  also have "\<dots> = tab_Write out s (row_start (ls @ [(l @ [(c, int (rune_count c))]) @ row_cells (c' # cs)]) []) w"
    using 3 by (intro "3.IH") simp_all
  finally show ?case by (simp add: row_cells_def)
qed simp

lemma tab_Write_rows:
  assumes "\<forall>row\<in>set rows. 2 \<le> length row \<and> list_all plain_cell row"
  shows "tab_Write out (concat (map tab_row rows)) (row_start ls []) w = (None, row_start (ls @ map row_cells rows) [], w)"
  using assms
proof (induction rows arbitrary: ls)
  case (Cons row rows)
  then have "row \<noteq> []" "list_all plain_cell row" "2 \<le> length row" by auto
  moreover have "tab_Write out (concat (map tab_row rows)) (row_start (ls @ [row_cells row]) []) w
      = (None, row_start ((ls @ [row_cells row]) @ map row_cells rows) [], w)"
    using Cons.prems by (intro Cons.IH) simp
  ultimately show ?case by (simp add: tab_Write_row [where l = "[]"])
qed simp


lemma tab_format_uniform:
  assumes "\<forall>l\<in>set ls. length (fst l) = Suc k" and "length widths \<le> k" and "ls \<noteq> []"
  shows "tab_format widths ls = writeLines (widths @ map (\<lambda>j. column_width j ls) [length widths..<k]) ls"
  using assms(2)
proof (induction "k - length widths" arbitrary: widths)
  case 0
  then have "\<not> in_column (length widths) l" if "l \<in> set ls" for l using that assms(1) by (simp add: in_column_def)
  then have all: "takeWhile (\<lambda>l. \<not> in_column (length widths) l) ls = ls" "dropWhile (\<lambda>l. \<not> in_column (length widths) l) ls = []"
    by (simp_all add: takeWhile_eq_all_conv)
  have "tab_format widths ls = writeLines widths ls" by (subst tab_format.simps) (simp only: Let_def all, simp)
  with 0 show ?case by simp
next
  case (Suc n)
  then have less: "length widths < k" by simp
  then have "in_column (length widths) l" if "l \<in> set ls" for l using that assms(1) by (simp add: in_column_def)
  then have all: "takeWhile (in_column (length widths)) ls = ls" "dropWhile (in_column (length widths)) ls = []"
    "takeWhile (\<lambda>l. \<not> in_column (length widths) l) ls = []" "dropWhile (\<lambda>l. \<not> in_column (length widths) l) ls = ls"
    using assms(3) by (simp_all, cases ls, simp_all)+
  have none: "tab_format widths [] = []" by (subst tab_format.simps) (simp add: writeLines_def)
  let ?widths = "widths @ [column_width (length widths) ls]"
  have "tab_format widths ls = tab_format ?widths ls"
    using assms(3) none by (subst tab_format.simps) (simp only: Let_def all, simp add: writeLines_def)
  also have "\<dots> = writeLines (?widths @ map (\<lambda>j. column_width j ls) [length ?widths..<k]) ls"
    using Suc less by (intro Suc.hyps(1)) simp_all
  also have "?widths @ map (\<lambda>j. column_width j ls) [length ?widths..<k] = widths @ map (\<lambda>j. column_width j ls) [length widths..<k]"
    using less by (simp add: upt_conv_Cons)
  finally show ?case .
qed

lemma write_cells_row:
  assumes "length row = Suc (length widths - j)" and "j \<le> length widths"
  shows "concat (write_cells widths j (row_cells row)) = concat (map2 pad_cell (drop j widths) (butlast row)) @ last row"
  using assms
proof (induction row arbitrary: j)
  case (Cons c cs)
  show ?case
  proof (cases "j < length widths")
    case True
    then have "cs \<noteq> []" "drop j widths = widths ! j # drop (Suc j) widths"
      using Cons.prems by (auto simp: Cons_nth_drop_Suc)
    with Cons True show ?thesis by (auto simp: row_cells_def pad_cell_def writeN_text)
  next
    case False
    with Cons.prems have "cs = []" by simp
    with False Cons.prems show ?thesis by (simp add: row_cells_def)
  qed
qed simp

lemma column_width_rows:
  assumes "\<forall>row\<in>set rows. j < length row"
  shows "column_width j (map (\<lambda>row. (row_cells row, eol)) rows)
    = foldl (\<lambda>width row. max width (int (rune_count (row ! j)) + 2)) 0 rows"
proof -
  have "foldl (\<lambda>width l. max width (snd (fst l ! j) + 2)) n (map (\<lambda>row. (row_cells row, eol)) rows)
      = foldl (\<lambda>width row. max width (int (rune_count (row ! j)) + 2)) n rows" for n
    using assms by (induction rows arbitrary: n) (simp_all add: row_cells_def)
  then show ?thesis by (simp add: column_width_def)
qed

text \<open>
  A table of rows with \<open>Suc k\<close> plain cells comes out aligned: each cell but the last of its row is
  padded to the widest of its column and two spaces.
\<close>

theorem tabbed_table:
  assumes rows: "\<forall>row\<in>set rows. length row = Suc k \<and> list_all plain_cell row" and "rows \<noteq> []" and "0 < k"
  shows "tabbed (concat (map tab_row rows)) = concat (map (table_line (table_widths rows k)) rows)"
proof -
  let ?nl = "[CHR 0x0A]" and ?ls = "map (\<lambda>row. (row_cells row, [CHR 0x0A])) rows"
  let ?t = "row_start (map row_cells rows) []"
  have len: "\<forall>l\<in>set ?ls. length (fst l) = Suc k" using rows by (simp add: row_cells_def)
  then have col: "in_column 0 l" if "l \<in> set ?ls" for l using that assms(3) by (auto simp: in_column_def)
  have w: "map (\<lambda>j. column_width j ?ls) [0..<k] = table_widths rows k"
    unfolding table_widths_def using rows by (intro map_cong refl column_width_rows) auto
  have "tab_Write buffer_write (concat (map tab_row rows)) tab_new '''' = (None, ?t, '''')"
    using tab_Write_rows [of rows buffer_write "[]" "''''"] rows assms(3) by (simp add: tab_new_def)
  then have "tabbed (concat (map tab_row rows)) = concat (tab_writes ?t)"
    by (simp add: tabbed_def tab_Flush_def write_all_buffer)
  also have "tab_writes ?t = tab_format [] (?ls @ [([], '''')])" by (simp add: tab_writes_def comp_def)
  also have "\<dots> = tab_format [column_width 0 ?ls] ?ls @ ['''']"
  proof -
    have last: "\<not> in_column 0 ([], '''')" by (simp add: in_column_def)
    have all: "takeWhile (in_column 0) (?ls @ [([], '''')]) = ?ls" "dropWhile (in_column 0) (?ls @ [([], '''')]) = [([], '''')]"
      by (subst takeWhile_append2 dropWhile_append2, erule col, simp add: last)+
    obtain l ls where ls: "?ls = l # ls" using assms(2) by (cases ?ls) auto
    have "takeWhile (\<lambda>l. \<not> in_column 0 l) (?ls @ [([], '''')]) = []" "dropWhile (\<lambda>l. \<not> in_column 0 l) (?ls @ [([], '''')]) = ?ls @ [([], '''')]"
      using col [of l] unfolding ls by simp_all
    note before = this
    have "tab_format [] [([], '''')] = ['''']" using last by (subst tab_format.simps) (simp add: writeLines_def)
    then show ?thesis
      using assms(2) by (subst tab_format.simps) (simp only: Let_def before all list.size(3) append_is_Nil_conv, simp add: writeLines_def)
  qed
  also have "tab_format [column_width 0 ?ls] ?ls = writeLines (table_widths rows k) ?ls"
    using tab_format_uniform [OF len, of "[column_width 0 ?ls]"] assms(2,3) w by (simp add: upt_conv_Cons)
  also have "concat (writeLines (table_widths rows k) ?ls @ ['''']) = concat (map (table_line (table_widths rows k)) rows)"
  proof -
    have "concat (write_cells (table_widths rows k) 0 (row_cells row)) = concat (map2 pad_cell (table_widths rows k) (butlast row)) @ last row"
      if "row \<in> set rows" for row
      using write_cells_row [of row "table_widths rows k" 0] that rows by (simp add: table_widths_def)
    then have "concat (writeLines (table_widths rows k) (map (\<lambda>row. (row_cells row, [CHR 0x0A])) rs))
        = concat (map (table_line (table_widths rows k)) rs)" if "set rs \<subseteq> set rows" for rs
      using that by (induction rs) (simp_all add: writeLines_def table_line_def)
    then show ?thesis by simp
  qed
  finally show ?thesis .
qed

end
