(* ===== verification/Datastore_Migrate.thy ===== *)
theory Datastore_Migrate
  imports Config_Loader Go_Tabwriter
begin

text \<open>
  Package datastore's migrations (\<^verbatim>\<open>internal/datastore/migrate.go\<close>, \<^verbatim>\<open>startup.go\<close>) and the
  commands on them (\<^verbatim>\<open>internal/app/cli/migrate.go\<close>). The database driver and goose are a
  parameter, the record \<open>pg\<close> over connections \<open>'db\<close>, providers \<open>'p\<close> and the state \<open>'w\<close> of the
  database.
\<close>

definition ErrPendingMigrations :: err where
  "ErrPendingMigrations = Sentinel ''datastore: pending migrations''"

text \<open>The file systems the code hands on: the embedded set, or \<^verbatim>\<open>os.DirFS\<close>.\<close>

datatype migration_fs = EmbeddedFS | DirFS string

text \<open>A row of goose's status; \<open>None\<close> is the zero time.\<close>

record goose_status =
  Goose_Version :: int
  Goose_Path :: string
  Goose_AppliedAt :: "instant option"

record ('db, 'p, 'w) pg =
  sql_Open :: "string \<Rightarrow> err + 'db"
  db_Ping :: "'db \<Rightarrow> 'w \<Rightarrow> err option \<times> 'w"
  db_Close :: "'db \<Rightarrow> 'w \<Rightarrow> 'w"
  goose_NewProvider :: "'db \<Rightarrow> migration_fs \<Rightarrow> err + 'p"
  provider_Up :: "'p \<Rightarrow> 'w \<Rightarrow> err option \<times> 'w"
  provider_Down :: "'p \<Rightarrow> 'w \<Rightarrow> err option \<times> 'w"
  provider_Status :: "'p \<Rightarrow> 'w \<Rightarrow> (err + goose_status list) \<times> 'w"

record ('db, 'p) Migrator =
  Migrator_db :: 'db
  Migrator_provider :: 'p

definition NewMigrator :: "('db, 'p, 'w) pg \<Rightarrow> 'db \<Rightarrow> migration_fs option \<Rightarrow> err + ('db, 'p) Migrator" where
  "NewMigrator pg db filesys =
     (let filesys = (case filesys of None \<Rightarrow> EmbeddedFS | Some f \<Rightarrow> f)
      in case goose_NewProvider pg db filesys of
           Inl e \<Rightarrow> Inl (Errorf ''datastore: build goose provider: %w'' [ArgErr e])
         | Inr p \<Rightarrow> Inr \<lparr>Migrator_db = db, Migrator_provider = p\<rparr>)"

definition migrate_Up :: "('db, 'p, 'w) pg \<Rightarrow> ('db, 'p) Migrator \<Rightarrow> 'w \<Rightarrow> err option \<times> 'w" where
  "migrate_Up pg m w =
     (case provider_Up pg (Migrator_provider m) w of
        (Some e, w') \<Rightarrow> (Some (Errorf ''datastore: migrate up: %w'' [ArgErr e]), w')
      | (None, w') \<Rightarrow> (None, w'))"

definition migrate_Down :: "('db, 'p, 'w) pg \<Rightarrow> ('db, 'p) Migrator \<Rightarrow> 'w \<Rightarrow> err option \<times> 'w" where
  "migrate_Down pg m w =
     (case provider_Down pg (Migrator_provider m) w of
        (Some e, w') \<Rightarrow> (Some (Errorf ''datastore: migrate down: %w'' [ArgErr e]), w')
      | (None, w') \<Rightarrow> (None, w'))"

record MigrationStatus =
  Status_Version :: int
  Status_Source :: string
  Status_Applied :: bool

text \<open>The loop of \<open>Status\<close>: the rows so far, and whether one was pending.\<close>

fun status_rows :: "MigrationStatus list \<Rightarrow> bool \<Rightarrow> goose_status list \<Rightarrow> MigrationStatus list \<times> bool" where
  "status_rows out pending [] = (out, pending)"
| "status_rows out pending (s # ss) =
     (let applied = (Goose_AppliedAt s \<noteq> None);
          pending = (if \<not> applied then True else pending)
      in status_rows (out @ [\<lparr>Status_Version = Goose_Version s, Status_Source = Goose_Path s, Status_Applied = applied\<rparr>])
           pending ss)"

text \<open>The report and the error are both returned; they are a pair here.\<close>

definition migrate_Status :: "('db, 'p, 'w) pg \<Rightarrow> ('db, 'p) Migrator \<Rightarrow> 'w \<Rightarrow> (MigrationStatus list \<times> err option) \<times> 'w" where
  "migrate_Status pg m w =
     (case provider_Status pg (Migrator_provider m) w of
        (Inl e, w') \<Rightarrow> (([], Some (Errorf ''datastore: migrate status: %w'' [ArgErr e])), w')
      | (Inr statuses, w') \<Rightarrow>
          let (out, pending) = status_rows [] False statuses
          in if pending then ((out, Some ErrPendingMigrations), w') else ((out, None), w'))"

text \<open>The guard of every role; the logger only gets a warning.\<close>

definition CheckPendingMigrations :: "('db, 'p, 'w) pg \<Rightarrow> string \<Rightarrow> 'w \<Rightarrow> err option \<times> 'w" where
  "CheckPendingMigrations pg dsn w =
     (if dsn = '''' then (None, w)
      else case sql_Open pg dsn of
        Inl e \<Rightarrow> (Some (Errorf ''datastore: open postgres for migration check: %w'' [ArgErr e]), w)
      | Inr db \<Rightarrow>
          (case db_Ping pg db w of
             (Some e, w') \<Rightarrow> (Some (Errorf ''datastore: ping postgres for migration check: %w'' [ArgErr e]), db_Close pg db w')
           | (None, w') \<Rightarrow>
               (case NewMigrator pg db None of
                  Inl e \<Rightarrow> (Some e, db_Close pg db w')
                | Inr m \<Rightarrow>
                    (case migrate_Status pg m w' of
                       ((_, err), w'') \<Rightarrow>
                         (case err of
                            None \<Rightarrow> (None, db_Close pg db w'')
                          | Some e \<Rightarrow>
                              (if errors_is e ErrPendingMigrations
                               then (Some (Errorf ''%w (run `spt migrate up` before starting the role)'' [ArgErr e]), db_Close pg db w'')
                               else (Some e, db_Close pg db w'')))))))"

subsection \<open>The commands\<close>

text \<open>
  A command returns its error and the text it writes to standard output. \<open>fn\<close> runs with the
  database open; the deferred close follows.
\<close>

type_synonym command_result = "err option \<times> string"

definition runMigrate :: "('db, 'p, 'w) pg \<Rightarrow> Config \<Rightarrow> string
    \<Rightarrow> (('db, 'p) Migrator \<Rightarrow> 'w \<Rightarrow> command_result \<times> 'w) \<Rightarrow> 'w \<Rightarrow> command_result \<times> 'w" where
  "runMigrate pg cfg migrationsDir fn w =
     (if Postgres_DSN (Cfg_Postgres cfg) = ''''
      then ((Some (Errorf (''cli: postgres.dsn is required for migrate '' @
                     ''(set via --postgres-dsn, env DATABASE_URL, or HCL)'') []), []), w)
      else case sql_Open pg (Postgres_DSN (Cfg_Postgres cfg)) of
        Inl e \<Rightarrow> ((Some (Errorf ''cli: open postgres: %w'' [ArgErr e]), []), w)
      | Inr db \<Rightarrow>
          (case db_Ping pg db w of
             (Some e, w') \<Rightarrow> ((Some (Errorf ''cli: ping postgres: %w'' [ArgErr e]), []), db_Close pg db w')
           | (None, w') \<Rightarrow>
               let filesys = (if migrationsDir \<noteq> '''' then Some (DirFS migrationsDir) else None)
               in case NewMigrator pg db filesys of
                    Inl e \<Rightarrow> ((Some e, []), db_Close pg db w')
                  | Inr mig \<Rightarrow> (case fn mig w' of (r, w'') \<Rightarrow> (r, db_Close pg db w''))))"

text \<open>The table of \<^verbatim>\<open>renderStatus\<close>: each row is one print to the tabwriter. Errors of the output are ignored.\<close>

definition status_table :: "MigrationStatus list \<Rightarrow> string list list" where
  "status_table statuses =
     [''VERSION'', ''STATUS'', ''SOURCE'']
     # map (\<lambda>s. [show_int (Status_Version s), if Status_Applied s then ''applied'' else ''pending'', Status_Source s]) statuses"

definition renderStatus :: "MigrationStatus list \<Rightarrow> string" where
  "renderStatus statuses = tabbed (concat (map tab_row (status_table statuses)))"

definition migrate_up_RunE :: "('db, 'p, 'w) pg \<Rightarrow> Config \<Rightarrow> string \<Rightarrow> 'w \<Rightarrow> command_result \<times> 'w" where
  "migrate_up_RunE pg cfg dir w =
     runMigrate pg cfg dir (\<lambda>m w. case migrate_Up pg m w of (e, w') \<Rightarrow> ((e, []), w')) w"

definition migrate_down_RunE :: "('db, 'p, 'w) pg \<Rightarrow> Config \<Rightarrow> string \<Rightarrow> 'w \<Rightarrow> command_result \<times> 'w" where
  "migrate_down_RunE pg cfg dir w =
     runMigrate pg cfg dir (\<lambda>m w. case migrate_Down pg m w of (e, w') \<Rightarrow> ((e, []), w')) w"

definition migrate_status_RunE :: "('db, 'p, 'w) pg \<Rightarrow> Config \<Rightarrow> string \<Rightarrow> 'w \<Rightarrow> command_result \<times> 'w" where
  "migrate_status_RunE pg cfg dir w =
     runMigrate pg cfg dir
       (\<lambda>m w. case migrate_Status pg m w of ((statuses, err), w') \<Rightarrow>
          (case err of
             Some e \<Rightarrow> if \<not> errors_is e ErrPendingMigrations then ((Some e, renderStatus statuses), w')
                       else ((None, renderStatus statuses), w')
           | None \<Rightarrow> ((None, renderStatus statuses), w'))) w"

subsection \<open>What they promise\<close>

definition status_row :: "goose_status \<Rightarrow> MigrationStatus" where
  "status_row s = \<lparr>Status_Version = Goose_Version s, Status_Source = Goose_Path s, Status_Applied = (Goose_AppliedAt s \<noteq> None)\<rparr>"

lemma status_rows_spec:
  "status_rows out pending ss = (out @ map status_row ss, pending \<or> (\<exists>s\<in>set ss. Goose_AppliedAt s = None))"
  by (induction ss arbitrary: out pending) (auto simp: status_row_def Let_def)

text \<open>
  What goose and the driver document. \<open>applied\<close> is the set of versions recorded in the
  database, \<open>sources\<close> that of a migration set; pinging, closing and reading the status change
  nothing; the status lists the whole set and tells the applied ones; \<open>Up\<close> without an error
  leaves the whole set applied; and no error of theirs is this package's sentinel.
\<close>

definition goose_contract :: "('db, 'p, 'w) pg \<Rightarrow> ('w \<Rightarrow> int set) \<Rightarrow> (migration_fs \<Rightarrow> int set) \<Rightarrow> bool" where
  "goose_contract pg applied sources \<longleftrightarrow>
     (\<forall>db w. applied (snd (db_Ping pg db w)) = applied w \<and> applied (db_Close pg db w) = applied w)
   \<and> (\<forall>db fs p w w'. goose_NewProvider pg db fs = Inr p \<longrightarrow> provider_Up pg p w = (None, w') \<longrightarrow> sources fs \<subseteq> applied w')
   \<and> (\<forall>db fs p w w' r. goose_NewProvider pg db fs = Inr p \<longrightarrow> provider_Status pg p w = (r, w') \<longrightarrow> applied w' = applied w)
   \<and> (\<forall>db fs p w w' rows. goose_NewProvider pg db fs = Inr p \<longrightarrow> provider_Status pg p w = (Inr rows, w') \<longrightarrow>
        Goose_Version ` set rows = sources fs
        \<and> (\<forall>r\<in>set rows. Goose_AppliedAt r \<noteq> None \<longleftrightarrow> Goose_Version r \<in> applied w))
   \<and> (\<forall>dsn e. sql_Open pg dsn = Inl e \<longrightarrow> \<not> errors_is e ErrPendingMigrations)
   \<and> (\<forall>db fs e. goose_NewProvider pg db fs = Inl e \<longrightarrow> \<not> errors_is e ErrPendingMigrations)
   \<and> (\<forall>db w e w'. db_Ping pg db w = (Some e, w') \<longrightarrow> \<not> errors_is e ErrPendingMigrations)
   \<and> (\<forall>p w e w'. provider_Status pg p w = (Inl e, w') \<longrightarrow> \<not> errors_is e ErrPendingMigrations)"

lemma goose_keeps:
  assumes "goose_contract pg applied sources"
  shows "applied (snd (db_Ping pg db w)) = applied w" and "applied (db_Close pg db w) = applied w"
  using assms unfolding goose_contract_def by simp_all

lemma goose_errors:
  assumes "goose_contract pg applied sources"
  shows "sql_Open pg dsn = Inl e \<Longrightarrow> \<not> errors_is e ErrPendingMigrations"
    and "goose_NewProvider pg db fs = Inl e \<Longrightarrow> \<not> errors_is e ErrPendingMigrations"
    and "db_Ping pg db w = (Some e, w') \<Longrightarrow> \<not> errors_is e ErrPendingMigrations"
    and "provider_Status pg p w = (Inl e, w') \<Longrightarrow> \<not> errors_is e ErrPendingMigrations"
  using assms unfolding goose_contract_def by - metis+

lemma goose_status_rows:
  assumes "goose_contract pg applied sources"
    and "goose_NewProvider pg db fs = Inr p" and "provider_Status pg p w = (Inr rows, w')"
  shows "Goose_Version ` set rows = sources fs"
    and "r \<in> set rows \<Longrightarrow> Goose_AppliedAt r \<noteq> None \<longleftrightarrow> Goose_Version r \<in> applied w"
    and "applied w' = applied w"
  using assms unfolding goose_contract_def by - metis+

lemma goose_up:
  assumes "goose_contract pg applied sources"
    and "goose_NewProvider pg db fs = Inr p" and "provider_Up pg p w = (None, w')"
  shows "sources fs \<subseteq> applied w'"
  using assms unfolding goose_contract_def by metis

text \<open>The status of a migrator on \<open>fs\<close> reports pending exactly when a version of \<open>fs\<close> is not applied.\<close>

lemma migrate_Status_pending:
  assumes "goose_contract pg applied sources" and "NewMigrator pg db filesys = Inr m"
    and "migrate_Status pg m w = ((out, err), w')"
  shows "(\<exists>e. err = Some e \<and> errors_is e ErrPendingMigrations) \<longleftrightarrow>
      (\<exists>rows. provider_Status pg (Migrator_provider m) w = (Inr rows, w'))
      \<and> \<not> sources (case filesys of None \<Rightarrow> EmbeddedFS | Some f \<Rightarrow> f) \<subseteq> applied w"
    and "applied w' = applied w"
proof -
  let ?fs = "case filesys of None \<Rightarrow> EmbeddedFS | Some f \<Rightarrow> f"
  from assms(2) have p: "goose_NewProvider pg db ?fs = Inr (Migrator_provider m)"
    by (auto simp: NewMigrator_def Let_def split: sum.splits)
  obtain r where r: "provider_Status pg (Migrator_provider m) w = (r, w')"
    using assms(3) by (auto simp: migrate_Status_def Let_def split: prod.splits sum.splits if_splits)
  show "applied w' = applied w" using assms(1) p r unfolding goose_contract_def by metis
  show "(\<exists>e. err = Some e \<and> errors_is e ErrPendingMigrations) \<longleftrightarrow>
      (\<exists>rows. provider_Status pg (Migrator_provider m) w = (Inr rows, w')) \<and> \<not> sources ?fs \<subseteq> applied w"
  proof (cases r)
    case (Inl e)
    with assms(3) r goose_errors(4) [OF assms(1), of "Migrator_provider m" w e w'] show ?thesis
      by (auto simp: migrate_Status_def)
  next
    case (Inr rows)
    note rows = goose_status_rows [OF assms(1) p r [unfolded Inr]]
    have "(\<exists>s\<in>set rows. Goose_AppliedAt s = None) \<longleftrightarrow> \<not> sources ?fs \<subseteq> applied w"
      unfolding rows(1) [symmetric] using rows(2) by blast
    then show ?thesis
      using assms(3) r Inr by (auto simp: migrate_Status_def status_rows_spec ErrPendingMigrations_def split: if_splits)
  qed
qed


lemma CheckPending_run:
  assumes "dsn \<noteq> ''''" and "sql_Open pg dsn = Inr db" and "db_Ping pg db w = (None, w1)"
    and "NewMigrator pg db None = Inr m" and "migrate_Status pg m w1 = ((out, err), w2)"
  shows "CheckPendingMigrations pg dsn w =
    (case err of
       None \<Rightarrow> None
     | Some e \<Rightarrow> if errors_is e ErrPendingMigrations
                 then Some (Errorf ''%w (run `spt migrate up` before starting the role)'' [ArgErr e]) else Some e,
     db_Close pg db w2)"
  using assms by (cases err) (simp_all add: CheckPendingMigrations_def)

lemma CheckPending_short:
  assumes "goose_contract pg applied sources" and "dsn \<noteq> ''''"
    and "\<not> (\<exists>db w1 m. sql_Open pg dsn = Inr db \<and> db_Ping pg db w = (None, w1) \<and> NewMigrator pg db None = Inr m)"
  shows "\<exists>e. fst (CheckPendingMigrations pg dsn w) = Some e \<and> \<not> errors_is e ErrPendingMigrations"
    and "applied (snd (CheckPendingMigrations pg dsn w)) = applied w"
    and "sql_Open pg dsn = Inr db \<Longrightarrow> \<exists>w0. snd (CheckPendingMigrations pg dsn w) = db_Close pg db w0"
proof -
  note errs = goose_errors [OF assms(1)] and keeps = goose_keeps [OF assms(1)]
  have "(\<exists>e. fst (CheckPendingMigrations pg dsn w) = Some e \<and> \<not> errors_is e ErrPendingMigrations)
      \<and> applied (snd (CheckPendingMigrations pg dsn w)) = applied w
      \<and> (sql_Open pg dsn = Inr db \<longrightarrow> (\<exists>w0. snd (CheckPendingMigrations pg dsn w) = db_Close pg db w0))"
  proof (cases "sql_Open pg dsn")
    case (Inl e)
    then show ?thesis using assms(2) errs(1) [OF Inl] by (simp add: CheckPendingMigrations_def)
  next
    case (Inr d)
    obtain p w1 where p: "db_Ping pg d w = (p, w1)" by fastforce
    have w1: "applied w1 = applied w" using keeps(1) [of d w] p by simp
    show ?thesis
    proof (cases p)
      case (Some e)
      then show ?thesis using assms(2) Inr p errs(3) [of d w e w1] w1 keeps(2)
        by (auto simp: CheckPendingMigrations_def)
    next
      case None
      with assms(3) Inr p obtain e where "NewMigrator pg d None = Inl e" by (cases "NewMigrator pg d None") auto
      then show ?thesis using assms(2) Inr p None errs(2) [of d EmbeddedFS] w1 keeps(2)
        by (auto simp: CheckPendingMigrations_def NewMigrator_def split: sum.splits)
    qed
  qed
  then show "\<exists>e. fst (CheckPendingMigrations pg dsn w) = Some e \<and> \<not> errors_is e ErrPendingMigrations"
    and "applied (snd (CheckPendingMigrations pg dsn w)) = applied w"
    and "sql_Open pg dsn = Inr db \<Longrightarrow> \<exists>w0. snd (CheckPendingMigrations pg dsn w) = db_Close pg db w0" by blast+
qed

text \<open>
  The guard, whatever happens: it leaves the applied set alone, closes what it opened, and
  reports pending migrations exactly when it could read the status and a version of the
  embedded set is missing.
\<close>

lemma CheckPending_cases:
  assumes c: "goose_contract pg applied sources"
  shows "applied (snd (CheckPendingMigrations pg dsn w)) = applied w"
    and "(\<exists>e. fst (CheckPendingMigrations pg dsn w) = Some e \<and> errors_is e ErrPendingMigrations) \<Longrightarrow>
           dsn \<noteq> '''' \<and> \<not> sources EmbeddedFS \<subseteq> applied w"
    and "fst (CheckPendingMigrations pg dsn w) = None \<Longrightarrow> dsn = '''' \<or> sources EmbeddedFS \<subseteq> applied w"
    and "dsn \<noteq> '''' \<Longrightarrow> sql_Open pg dsn = Inr db \<Longrightarrow> \<exists>w0. snd (CheckPendingMigrations pg dsn w) = db_Close pg db w0"
proof -
  have all: "applied (snd (CheckPendingMigrations pg dsn w)) = applied w
    \<and> ((\<exists>e. fst (CheckPendingMigrations pg dsn w) = Some e \<and> errors_is e ErrPendingMigrations) \<longrightarrow>
         dsn \<noteq> '''' \<and> \<not> sources EmbeddedFS \<subseteq> applied w)
    \<and> (fst (CheckPendingMigrations pg dsn w) = None \<longrightarrow> dsn = '''' \<or> sources EmbeddedFS \<subseteq> applied w)
    \<and> (dsn \<noteq> '''' \<longrightarrow> sql_Open pg dsn = Inr db \<longrightarrow> (\<exists>w0. snd (CheckPendingMigrations pg dsn w) = db_Close pg db w0))"
  proof (cases "dsn \<noteq> '''' \<and> (\<exists>d w1 m. sql_Open pg dsn = Inr d \<and> db_Ping pg d w = (None, w1) \<and> NewMigrator pg d None = Inr m)")
    case False
    show ?thesis
    proof (cases "dsn = ''''")
      case True
      then show ?thesis by (simp add: CheckPendingMigrations_def)
    next
      case dsn: False
      with False have short: "\<not> (\<exists>d w1 m. sql_Open pg dsn = Inr d \<and> db_Ping pg d w = (None, w1) \<and> NewMigrator pg d None = Inr m)"
        by blast
      from CheckPending_short(1) [OF c dsn short] obtain e
        where e: "fst (CheckPendingMigrations pg dsn w) = Some e" "\<not> errors_is e ErrPendingMigrations" by blast
      show ?thesis using e CheckPending_short(2) [OF c dsn short] CheckPending_short(3) [OF c dsn short, of db] by auto
    qed
  next
    case True
    then obtain d w1 m where o: "dsn \<noteq> ''''" "sql_Open pg dsn = Inr d" "db_Ping pg d w = (None, w1)" "NewMigrator pg d None = Inr m"
      by blast
    obtain out err w2 where st: "migrate_Status pg m w1 = ((out, err), w2)" by (metis surj_pair)
    note pending = migrate_Status_pending [OF c o(4) st, simplified]
    have w1: "applied w1 = applied w" using goose_keeps(1) [OF c, of d w] o(3) by simp
    have "err = None \<Longrightarrow> sources EmbeddedFS \<subseteq> applied w1"
      using st pending(1) by (auto simp: migrate_Status_def Let_def split: prod.splits sum.splits if_splits)
    then show ?thesis
      using CheckPending_run [OF o st] pending w1 goose_keeps(2) [OF c] o(1,2)
      by (cases err) (auto split: if_splits)
  qed
  then show "applied (snd (CheckPendingMigrations pg dsn w)) = applied w" by (rule conjunct1)
  from all show "(\<exists>e. fst (CheckPendingMigrations pg dsn w) = Some e \<and> errors_is e ErrPendingMigrations) \<Longrightarrow>
           dsn \<noteq> '''' \<and> \<not> sources EmbeddedFS \<subseteq> applied w" by blast
  from all show "fst (CheckPendingMigrations pg dsn w) = None \<Longrightarrow> dsn = '''' \<or> sources EmbeddedFS \<subseteq> applied w" by blast
  from all show "dsn \<noteq> '''' \<Longrightarrow> sql_Open pg dsn = Inr db \<Longrightarrow> \<exists>w0. snd (CheckPendingMigrations pg dsn w) = db_Close pg db w0" by blast
qed


text \<open>
  C31. The start-up guard, against the documented behaviour of goose and the driver: without a
  DSN it passes and does nothing; otherwise it passes only when every embedded migration is
  applied, reports \<open>ErrPendingMigrations\<close> only when one is not, changes nothing in the
  database, and closes the connection it opened on every path.
\<close>
theorem CheckPendingMigrations_guard:
  assumes "goose_contract pg applied sources"
  shows "let (r, w') = CheckPendingMigrations pg dsn w
         in (dsn = '''' \<longrightarrow> r = None \<and> w' = w)
          \<and> (dsn \<noteq> '''' \<longrightarrow> r = None \<longrightarrow> sources EmbeddedFS \<subseteq> applied w)
          \<and> ((\<exists>e. r = Some e \<and> errors_is e ErrPendingMigrations) \<longrightarrow> \<not> sources EmbeddedFS \<subseteq> applied w)
          \<and> (\<forall>db. dsn \<noteq> '''' \<longrightarrow> sql_Open pg dsn = Inr db \<longrightarrow> (\<exists>w0. w' = db_Close pg db w0))
          \<and> applied w' = applied w"
proof -
  have "dsn = '''' \<Longrightarrow> CheckPendingMigrations pg dsn w = (None, w)" by (simp add: CheckPendingMigrations_def)
  then show ?thesis
    using CheckPending_cases [OF assms, where dsn = dsn and w = w] by (auto simp: case_prod_unfold Let_def)
qed

text \<open>
  Migrate, then start: after a successful \<^verbatim>\<open>spt migrate up\<close> of the embedded set, on the same
  database and with nothing in between, the guard of a role never reports pending migrations,
  whatever else may fail in it.
\<close>
theorem migrate_up_then_start:
  assumes "goose_contract pg applied sources"
    and "migrate_up_RunE pg cfg '''' w = ((None, out), w')"
    and "CheckPendingMigrations pg dsn w' = (Some e, w'')"
  shows "\<not> errors_is e ErrPendingMigrations"
proof -
  from assms(2) obtain db w1 m w2 where o: "sql_Open pg (Postgres_DSN (Cfg_Postgres cfg)) = Inr db"
      "db_Ping pg db w = (None, w1)" "NewMigrator pg db None = Inr m" "migrate_Up pg m w1 = (None, w2)"
      "w' = db_Close pg db w2"
    by (auto simp: migrate_up_RunE_def runMigrate_def Let_def split: if_splits sum.splits prod.splits option.splits)
  from o(3) have p: "goose_NewProvider pg db EmbeddedFS = Inr (Migrator_provider m)"
    by (auto simp: NewMigrator_def split: sum.splits)
  have "provider_Up pg (Migrator_provider m) w1 = (None, w2)"
    using o(4) by (auto simp: migrate_Up_def split: prod.splits option.splits)
  from goose_up [OF assms(1) p this] have "sources EmbeddedFS \<subseteq> applied w'"
    using goose_keeps(2) [OF assms(1)] o(5) by simp
  then show ?thesis using CheckPending_cases(2) [OF assms(1), where dsn = dsn and w = w'] assms(3) by auto
qed

text \<open>The table for what goose reports, when the versions in \<open>done_vs\<close> are applied.\<close>

definition report_table :: "int set \<Rightarrow> goose_status list \<Rightarrow> string list list" where
  "report_table done_vs rows = [''VERSION'', ''STATUS'', ''SOURCE'']
     # map (\<lambda>s. [show_int (Goose_Version s), if Goose_Version s \<in> done_vs then ''applied'' else ''pending'', Goose_Path s]) rows"

text \<open>Its columns line up when the paths have no control characters.\<close>

lemma report_table_aligned:
  assumes "\<forall>s\<in>set rows. plain_cell (Goose_Path s)"
  shows "tabbed (concat (map tab_row (report_table vs rows)))
    = concat (map (table_line (table_widths (report_table vs rows) 2)) (report_table vs rows))"
  by (rule tabbed_table) (use assms plain_show_int in \<open>auto simp: report_table_def plain_cell_def\<close>)

text \<open>A status run that gets to the database, with what goose reports on it.\<close>

lemma migrate_status_reached:
  assumes gc: "goose_contract pg applied sources"
    and db: "Postgres_DSN (Cfg_Postgres cfg) \<noteq> ''''" "sql_Open pg (Postgres_DSN (Cfg_Postgres cfg)) = Inr db"
    and ping: "db_Ping pg db w = (None, w1)"
    and m: "NewMigrator pg db (if dir \<noteq> '''' then Some (DirFS dir) else None) = Inr m"
    and st: "provider_Status pg (Migrator_provider m) w1 = (Inr rows, w2)"
  shows "migrate_status_RunE pg cfg dir w = ((None, tabbed (concat (map tab_row (report_table (applied w) rows)))),
      db_Close pg db w2)"
    and "Goose_Version ` set rows = sources (if dir = '''' then EmbeddedFS else DirFS dir)"
    and "applied (db_Close pg db w2) = applied w"
proof -
  have p: "goose_NewProvider pg db (if dir = '''' then EmbeddedFS else DirFS dir) = Inr (Migrator_provider m)"
    using m by (auto simp: NewMigrator_def split: sum.splits if_splits)
  have w1: "applied w1 = applied w" using goose_keeps(1) [OF gc, of db w] ping by simp
  note rows = goose_status_rows [OF gc p st]
  have "migrate_status_RunE pg cfg dir w = ((None, renderStatus (map status_row rows)), db_Close pg db w2)"
    using db ping m st
    by (auto simp: migrate_status_RunE_def runMigrate_def Let_def migrate_Status_def status_rows_spec ErrPendingMigrations_def)
  moreover have "status_table (map status_row rows) = report_table (applied w) rows"
    using rows(2) w1 by (simp add: status_table_def report_table_def status_row_def)
  ultimately show "migrate_status_RunE pg cfg dir w = ((None, tabbed (concat (map tab_row (report_table (applied w) rows)))),
      db_Close pg db w2)" by (simp add: renderStatus_def)
  show "Goose_Version ` set rows = sources (if dir = '''' then EmbeddedFS else DirFS dir)" by (rule rows(1))
  show "applied (db_Close pg db w2) = applied w" using rows(3) w1 goose_keeps(2) [OF gc] by simp
qed

text \<open>
  C32. \<^verbatim>\<open>spt migrate status\<close> prints the header and one line per migration of the set it was
  given, exactly those goose reported on that database and in its order, and never fails because
  migrations are pending: pending migrations do not show in its exit code.
\<close>
theorem migrate_status_report:
  assumes "goose_contract pg applied sources"
  shows "case migrate_status_RunE pg cfg dir w of
      ((Some e, out), w') \<Rightarrow> \<not> errors_is e ErrPendingMigrations
    | ((None, out), w') \<Rightarrow> applied w' = applied w
        \<and> (\<exists>rows :: goose_status list. Goose_Version ` set rows = sources (if dir = '''' then EmbeddedFS else DirFS dir)
            \<and> out = tabbed (concat (map tab_row (report_table (applied w) rows)))
            \<and> (\<exists>db m w1 w2. sql_Open pg (Postgres_DSN (Cfg_Postgres cfg)) = Inr db \<and> db_Ping pg db w = (None, w1)
                 \<and> NewMigrator pg db (if dir \<noteq> '''' then Some (DirFS dir) else None) = Inr m
                 \<and> provider_Status pg (Migrator_provider m) w1 = (Inr rows, w2)))"
proof (cases "Postgres_DSN (Cfg_Postgres cfg) = '''' \<or> (\<exists>e. sql_Open pg (Postgres_DSN (Cfg_Postgres cfg)) = Inl e)")
  case True
  then show ?thesis using goose_errors(1) [OF assms] by (auto simp: migrate_status_RunE_def runMigrate_def)
next
  case False
  then obtain db where db: "Postgres_DSN (Cfg_Postgres cfg) \<noteq> ''''" "sql_Open pg (Postgres_DSN (Cfg_Postgres cfg)) = Inr db"
    by (cases "sql_Open pg (Postgres_DSN (Cfg_Postgres cfg))") auto
  let ?fs = "if dir \<noteq> '''' then Some (DirFS dir) else None"
  note errs = goose_errors [OF assms]
  obtain r w1 where r: "db_Ping pg db w = (r, w1)" by fastforce
  show ?thesis
  proof (cases "r = None \<and> (\<exists>m. NewMigrator pg db ?fs = Inr m)")
    case False
    then show ?thesis
      using db r errs(3) [of db w _ w1] errs(2)
      by (cases r) (auto simp: migrate_status_RunE_def runMigrate_def Let_def NewMigrator_def split: sum.splits)
  next
    case True
    then obtain m where m: "r = None" "NewMigrator pg db ?fs = Inr m" by blast
    obtain st w2 where st: "provider_Status pg (Migrator_provider m) w1 = (st, w2)" by fastforce
    show ?thesis
    proof (cases st)
      case (Inl e)
      then show ?thesis using db r m st errs(4) [of "Migrator_provider m" w1 e w2]
        by (simp add: migrate_status_RunE_def runMigrate_def Let_def migrate_Status_def)
    next
      case (Inr rows)
      note reached = migrate_status_reached [OF assms db r [unfolded m(1)] m(2) st [unfolded Inr]]
      show ?thesis unfolding reached(1) prod.case option.case
        using reached(2,3) db(2) r [unfolded m(1)] m(2) st [unfolded Inr] by blast
    qed
  qed
qed

text \<open>A small database: the state is the set of applied versions, the embedded set is 1 and 2.\<close>

definition demo_sources :: "migration_fs \<Rightarrow> int set" where
  "demo_sources fs = (if fs = EmbeddedFS then {1, 2} else {1})"

definition demo_goose :: "int set \<Rightarrow> int \<Rightarrow> goose_status" where
  "demo_goose w v = \<lparr>Goose_Version = v, Goose_Path = ''m'', Goose_AppliedAt = (if v \<in> w then Some 1 else None)\<rparr>"

definition demo_pg :: "(unit, migration_fs, int set) pg" where
  "demo_pg =
     \<lparr>sql_Open = (\<lambda>dsn. if dsn = ''bad'' then Inl (External ''no route'') else Inr ()), db_Ping = (\<lambda>db w. (None, w)), db_Close = (\<lambda>db w. w),
      goose_NewProvider = (\<lambda>db fs. Inr fs), provider_Up = (\<lambda>fs w. (None, w \<union> demo_sources fs)),
      provider_Down = (\<lambda>fs w. (None, w - {2})),
      provider_Status = (\<lambda>fs w. (Inr (if fs = EmbeddedFS then [demo_goose w 1, demo_goose w 2] else [demo_goose w 1]), w))\<rparr>"

lemma demo_goose_contract: "goose_contract demo_pg id demo_sources"
  by (auto simp: goose_contract_def demo_pg_def demo_goose_def demo_sources_def)

lemma CheckPendingMigrations_guard_witness:
  "let (r, w') = CheckPendingMigrations demo_pg ''dsn'' {1}
   in r \<noteq> None \<and> ((\<exists>e. r = Some e \<and> errors_is e ErrPendingMigrations) \<longrightarrow> \<not> {1, 2} \<subseteq> ({1} :: int set)) \<and> w' = {1}"
proof -
  have "fst (CheckPendingMigrations demo_pg ''dsn'' {1}) \<noteq> None"
    by (simp add: CheckPendingMigrations_def demo_pg_def NewMigrator_def migrate_Status_def demo_goose_def ErrPendingMigrations_def)
  then show ?thesis
    using CheckPendingMigrations_guard [OF demo_goose_contract, of "''dsn''" "{1}"]
    by (auto simp: demo_sources_def case_prod_unfold Let_def)
qed

definition demo_dsn_config :: Config where
  "demo_dsn_config = (Defaults::Config)\<lparr>Cfg_Postgres := (Cfg_Postgres Defaults)\<lparr>Postgres_DSN := ''dsn''\<rparr>\<rparr>"

lemma migrate_up_then_start_witness:
  "\<not> errors_is (Errorf ''datastore: open postgres for migration check: %w'' [ArgErr (External ''no route'')]) ErrPendingMigrations"
proof -
  have "migrate_up_RunE demo_pg demo_dsn_config '''' {} = ((None, []), {1, 2})"
    by (simp add: migrate_up_RunE_def runMigrate_def demo_dsn_config_def demo_pg_def NewMigrator_def migrate_Up_def demo_sources_def)
  moreover have "CheckPendingMigrations demo_pg ''bad'' {1, 2} =
      (Some (Errorf ''datastore: open postgres for migration check: %w'' [ArgErr (External ''no route'')]), {1, 2})"
    by (simp add: CheckPendingMigrations_def demo_pg_def)
  ultimately show ?thesis by (rule migrate_up_then_start [OF demo_goose_contract])
qed

lemma migrate_status_report_witness:
  "\<exists>rows :: goose_status list. snd (fst (migrate_status_RunE demo_pg demo_dsn_config '''' {1}))
      = tabbed (concat (map tab_row (report_table {1} rows))) \<and> Goose_Version ` set rows = {1, 2}"
proof -
  have "fst (fst (migrate_status_RunE demo_pg demo_dsn_config '''' {1})) = None"
    by (simp add: migrate_status_RunE_def runMigrate_def demo_dsn_config_def demo_pg_def NewMigrator_def
        migrate_Status_def demo_goose_def ErrPendingMigrations_def)
  then show ?thesis
    using migrate_status_report [OF demo_goose_contract, where cfg = demo_dsn_config and dir = "''''" and w = "{1}"]
    by (auto simp: demo_sources_def case_prod_unfold split: option.splits)
qed

end
