(* ===== verification/Role_Run.thy ===== *)
theory Role_Run
  imports Obs_Stack Health_Server Datastore_Migrate
begin

text \<open>
  The roles \<^verbatim>\<open>api\<close>, \<^verbatim>\<open>scheduler\<close> and \<^verbatim>\<open>worker\<close> (\<^verbatim>\<open>internal/app/*/run.go\<close>, the same code up to the
  role's name) and the exit code of \<^verbatim>\<open>cmd/spt\<close>. A role sets up its observability, refuses to start
  on pending migrations, and then runs beside the admin server: that phase is a step relation
  that contains the one of \<open>Serve\<close>.
\<close>

subsection \<open>The phase beside the admin server\<close>

datatype role_pc = RoleSelect | RoleDrain | RoleReturned "err option"

text \<open>\<open>Role_Sent\<close>: the goroutine has put the result of \<open>Serve\<close> on the channel \<open>adminErr\<close>.\<close>

record role_state =
  Role_Serve :: serve_state
  Role_Sent :: bool
  Role_AdminErr :: "err option list"
  Role_Pc :: role_pc
  Role_Log :: "(Level \<times> string) list"

definition role_start :: "string \<Rightarrow> role_state" where
  "role_start name =
     \<lparr>Role_Serve = serve_start, Role_Sent = False, Role_AdminErr = [], Role_Pc = RoleSelect,
      Role_Log = [(LevelInfo, name @ '' role starting'')]\<rparr>"

inductive role_step :: "string \<Rightarrow> string \<Rightarrow> label \<Rightarrow> role_state \<Rightarrow> role_state \<Rightarrow> bool" for name addr where
  role_admin: "serve_step addr l (Role_Serve s) t \<Longrightarrow> role_step name addr l s (s\<lparr>Role_Serve := t\<rparr>)"
| role_send: "Srv_Pc (Role_Serve s) = ServeReturned v \<Longrightarrow> \<not> Role_Sent s \<Longrightarrow>
    role_step name addr Own s (s\<lparr>Role_Sent := True, Role_AdminErr := Role_AdminErr s @ [v]\<rparr>)"
| role_ctx_done: "Role_Pc s = RoleSelect \<Longrightarrow> Srv_Cancelled (Role_Serve s) \<Longrightarrow>
    role_step name addr Own s (s\<lparr>Role_Pc := RoleDrain\<rparr>)"
| role_drained: "Role_Pc s = RoleDrain \<Longrightarrow> Role_AdminErr s = v # vs \<Longrightarrow>
    role_step name addr Own s (s\<lparr>Role_AdminErr := vs, Role_Pc := RoleReturned (Some context_Canceled),
      Role_Log := Role_Log s
        @ (case v of Some e \<Rightarrow> if \<not> errors_is e ErrServerClosed then [(LevelError, ''admin server shutdown error'')] else []
           | None \<Rightarrow> [])
        @ [(LevelInfo, name @ '' role stopped'')]\<rparr>)"
| role_failed: "Role_Pc s = RoleSelect \<Longrightarrow> Role_AdminErr s = v # vs \<Longrightarrow>
    role_step name addr Own s (s\<lparr>Role_AdminErr := vs, Role_Pc := RoleReturned v,
      Role_Log := Role_Log s @ [(LevelError, ''admin server failed'')]\<rparr>)"

definition role_result :: "string \<Rightarrow> bool \<Rightarrow> err option \<Rightarrow> bool" where
  "role_result addr cancelled r \<longleftrightarrow> cancelled \<and> r = Some context_Canceled \<or> serve_result addr cancelled r"

fun serve_value :: "serve_pc \<Rightarrow> err option" where
  "serve_value (ServeReturned v) = v"
| "serve_value _ = None"

definition role_ok :: "string \<Rightarrow> role_state \<Rightarrow> bool" where
  "role_ok addr s \<longleftrightarrow>
     serve_ok addr (Role_Serve s)
   \<and> (Role_Sent s \<longrightarrow> serve_returned (Role_Serve s))
   \<and> (Role_AdminErr s \<noteq> [] \<longrightarrow> Role_Sent s \<and> Role_AdminErr s = [serve_value (Srv_Pc (Role_Serve s))])
   \<and> (Role_Sent s \<and> Role_AdminErr s = [] \<longrightarrow> (\<exists>r. Role_Pc s = RoleReturned r))
   \<and> (Role_Pc s = RoleDrain \<longrightarrow> Srv_Cancelled (Role_Serve s))
   \<and> (\<forall>r. Role_Pc s = RoleReturned r \<longrightarrow> role_result addr (Srv_Cancelled (Role_Serve s)) r)"

lemma role_ok_start: "role_ok addr (role_start name)"
  by (simp add: role_ok_def role_start_def serve_ok_start)

lemma serve_returned_step: "serve_step addr l s t \<Longrightarrow> Srv_Pc s = ServeReturned v \<Longrightarrow> Srv_Pc t = ServeReturned v"
  by (induction rule: serve_step.induct) auto

lemma role_result_mono: "role_result addr c r \<Longrightarrow> c \<longrightarrow> c' \<Longrightarrow> role_result addr c' r"
  by (cases c; cases c') (auto simp: role_result_def dest: serve_result_cancel)

lemma role_ok_admin:
  assumes step: "serve_step addr l (Role_Serve s) t" and ok: "role_ok addr s"
  shows "role_ok addr (s\<lparr>Role_Serve := t\<rparr>)"
proof -
  have c: "Srv_Cancelled (Role_Serve s) \<longrightarrow> Srv_Cancelled t" using serve_cancelled_step [OF step] by blast
  have ret: "serve_returned (Role_Serve s) \<longrightarrow> serve_returned t \<and> Srv_Pc t = Srv_Pc (Role_Serve s)"
    using serve_returned_step [OF step] by (auto simp: serve_returned_def)
  have sv: "serve_ok addr t" by (rule serve_ok_step [OF step]) (use ok role_ok_def in blast)
  have "role_result addr (Srv_Cancelled t) r" if "Role_Pc s = RoleReturned r" for r
    by (rule role_result_mono [OF _ c]) (use ok that role_ok_def in blast)
  with ok sv ret c show ?thesis by (simp add: role_ok_def)
qed

lemma role_ok_received:
  assumes "role_ok addr s" and "Role_AdminErr s = v # vs"
  shows "vs = []" and "Role_Sent s" and "serve_result addr (Srv_Cancelled (Role_Serve s)) v"
proof -
  from assms have v: "vs = []" "Role_Sent s" "v = serve_value (Srv_Pc (Role_Serve s))" "serve_returned (Role_Serve s)"
    by (simp_all add: role_ok_def)
  then show "vs = []" "Role_Sent s" by simp_all
  from v(3,4) have "Srv_Pc (Role_Serve s) = ServeReturned v" by (auto simp: serve_returned_def)
  with assms(1) show "serve_result addr (Srv_Cancelled (Role_Serve s)) v" by (simp add: role_ok_def serve_ok_def)
qed

lemma role_ok_step: "role_step name addr l s t \<Longrightarrow> role_ok addr s \<Longrightarrow> role_ok addr t"
proof (induction rule: role_step.induct)
  case (role_admin l s t)
  then show ?case by (rule role_ok_admin)
next
  case (role_send s v)
  then show ?case by (simp add: role_ok_def serve_returned_def)
next
  case (role_ctx_done s)
  then show ?case by (simp add: role_ok_def)
next
  case (role_drained s v vs)
  then show ?case using role_ok_received [OF role_drained.prems role_drained.hyps(2)]
    by (simp add: role_ok_def role_result_def)
next
  case (role_failed s v vs)
  then show ?case using role_ok_received [OF role_failed.prems role_failed.hyps(2)]
    by (simp add: role_ok_def role_result_def)
qed

definition role_budget :: "role_state \<Rightarrow> nat" where
  "role_budget s = serve_budget (Role_Serve s) + (if Role_Sent s then 0 else 1)
     + (case Role_Pc s of RoleSelect \<Rightarrow> 2 | RoleDrain \<Rightarrow> 1 | RoleReturned r \<Rightarrow> 0)"

definition role_returned :: "role_state \<Rightarrow> bool" where
  "role_returned s = (\<exists>r. Role_Pc s = RoleReturned r)"

lemma role_budget_step: "role_step name addr l s t \<Longrightarrow> role_ok addr s \<Longrightarrow> role_budget t < role_budget s"
proof (induction rule: role_step.induct)
  case (role_admin l s t)
  then have "serve_budget t < serve_budget (Role_Serve s)" by (auto intro: serve_budget_step simp: role_ok_def)
  then show ?case by (simp add: role_budget_def)
qed (auto simp: role_budget_def)

lemma role_cancelled_step:
  "role_step name addr l s t \<Longrightarrow> Srv_Cancelled (Role_Serve s) \<Longrightarrow> Srv_Cancelled (Role_Serve t)"
  by (induction rule: role_step.induct) (auto dest: serve_cancelled_step)

lemma role_progress:
  assumes "role_ok addr s" and "Srv_Cancelled (Role_Serve s)" and "\<not> role_returned s"
  shows "\<exists>t. role_step name addr Own s t"
proof (cases "Role_Pc s")
  case RoleSelect
  with assms(2) show ?thesis by (blast intro: role_ctx_done)
next
  case RoleDrain
  show ?thesis
  proof (cases "Role_AdminErr s")
    case (Cons v vs)
    with RoleDrain show ?thesis by (blast intro: role_drained)
  next
    case Nil
    with assms(1) RoleDrain have sent: "\<not> Role_Sent s" by (simp add: role_ok_def)
    show ?thesis
    proof (cases "serve_returned (Role_Serve s)")
      case True
      then obtain v where "Srv_Pc (Role_Serve s) = ServeReturned v" by (auto simp: serve_returned_def)
      then show ?thesis using sent by (blast intro: role_send)
    next
      case False
      from serve_progress [OF assms(2) False] obtain t where "serve_step addr Own (Role_Serve s) t" by blast
      then show ?thesis by (blast intro: role_admin)
    qed
  qed
qed (use assms(3) in \<open>simp add: role_returned_def\<close>)

interpretation role: bounded_process "role_step name addr" "role_start name" "role_ok addr" role_budget
    "\<lambda>s. Srv_Cancelled (Role_Serve s)" role_returned
  for name addr
  by unfold_locales
    (auto intro: role_ok_start role_ok_step role_budget_step role_cancelled_step role_progress)


subsection \<open>A role from start to exit\<close>

text \<open>
  Up to the admin server: the set-up and the guard. An error of the guard is returned through
  the deferred shutdown of the observability stack; one of \<open>Setup\<close> comes before the defer.
\<close>

definition role_begin :: "string \<Rightarrow> (nat \<Rightarrow> bool) \<Rightarrow> ('res, 'exp, 'tp, 'w) otel \<Rightarrow> ('db, 'p, 'w) pg \<Rightarrow> Config
    \<Rightarrow> 'tp obs_globals \<Rightarrow> 'w \<Rightarrow> (err + 'tp Obs \<times> ('w \<Rightarrow> err option \<times> 'w)) \<times> 'tp obs_globals \<times> 'w" where
  "role_begin name is_tty sdk pg cfg g w =
     (case Setup is_tty sdk cfg (''spt-'' @ name) g of
        (Inl e, g') \<Rightarrow> (Inl e, g', w)
      | (Inr (o', shutdown), g') \<Rightarrow>
          (case CheckPendingMigrations pg (Postgres_DSN (Cfg_Postgres cfg)) w of
             (Some e, w') \<Rightarrow> (Inl (Errorf (name @ '': %w'') [ArgErr e]), g', snd (shutdown w'))
           | (None, w') \<Rightarrow> (Inr (o', shutdown), g', w')))"

text \<open>The deferred call: an error of it is only logged.\<close>

definition deferred_shutdown :: "('w \<Rightarrow> err option \<times> 'w) \<Rightarrow> (Level \<times> string) list \<Rightarrow> 'w \<Rightarrow> (Level \<times> string) list \<times> 'w" where
  "deferred_shutdown shutdown logged w =
     (case shutdown w of
        (Some e, w') \<Rightarrow> (logged @ [(LevelWarn, ''obs shutdown returned error'')], w')
      | (None, w') \<Rightarrow> (logged, w'))"

text \<open>
  The possible ends of \<open>Run\<close>: the error it returns, the state of the phase beside the admin
  server in which it ended (\<open>None\<close> if it never got there), what it logged, the state it leaves.
  The second component is not a value of the code: it makes the execution that ended visible, so
  that what is said of the end can be said of that execution.
\<close>

inductive role_Run :: "string \<Rightarrow> (nat \<Rightarrow> bool) \<Rightarrow> ('res, 'exp, 'tp, 'w) otel \<Rightarrow> ('db, 'p, 'w) pg \<Rightarrow> Config
    \<Rightarrow> 'tp obs_globals \<Rightarrow> 'w \<Rightarrow> err option \<times> role_state option \<times> (Level \<times> string) list \<times> 'w \<Rightarrow> bool"
  for name is_tty sdk pg cfg g w where
  role_refused: "role_begin name is_tty sdk pg cfg g w = (Inl e, g', w') \<Longrightarrow>
    role_Run name is_tty sdk pg cfg g w (Some e, None, [], w')"
| role_served: "role_begin name is_tty sdk pg cfg g w = (Inr (o', shutdown), g', w') \<Longrightarrow>
    run (role_step name (Admin_Addr (Cfg_Admin cfg))) (role_start name) ls s \<Longrightarrow> Role_Pc s = RoleReturned r \<Longrightarrow>
    role_Run name is_tty sdk pg cfg g w (r, Some s, deferred_shutdown shutdown (Role_Log s) w')"

definition api_Run where "api_Run = role_Run ''api''"
definition scheduler_Run where "scheduler_Run = role_Run ''scheduler''"
definition worker_Run where "worker_Run = role_Run ''worker''"

text \<open>\<open>run\<close> of \<^verbatim>\<open>cmd/spt\<close>: the exit code, and whether the error is printed.\<close>

definition spt_exit :: "err option \<Rightarrow> int \<times> err option" where
  "spt_exit r =
     (case r of
        Some e \<Rightarrow> if errors_is e context_Canceled then (0, None) else (1, Some e)
      | None \<Rightarrow> (0, None))"

subsection \<open>What a role promises\<close>

text \<open>
  C33. A role shuts down: no run of it beside the admin server is longer than eight steps, and
  once its context is cancelled (SIGINT or SIGTERM), whatever it and the admin server are doing,
  it can go on by its own steps until it returns, and it is never stuck before that.
\<close>
theorem role_shuts_down:
  assumes "run (role_step name addr) (role_start name) ls s" and "Srv_Cancelled (Role_Serve s)"
  shows "(\<exists>n t. length ls + n \<le> 8 \<and> run (role_step name addr) s (replicate n Own) t \<and> role_returned t)
    \<and> (role_returned s \<or> (\<exists>t. role_step name addr Own s t))"
proof -
  have "role_budget (role_start name) = 8"
    by (simp add: role_budget_def role_start_def serve_budget_def serve_start_def)
  then have "length ls + role_budget s \<le> 8" using role.run_budget [OF assms(1)] by simp
  moreover obtain n t where "n \<le> role_budget s" "run (role_step name addr) s (replicate n Own) t" "role_returned t"
    using role.can_finish [OF assms] by blast
  moreover have "role_returned s \<or> (\<exists>t. role_step name addr Own s t)"
    using role.stuck_finished [OF assms] by blast
  ultimately show ?thesis by (meson add_left_mono le_trans)
qed

lemma cancelled_start: "run (role_step name addr) (role_start name) [Env]
    ((role_start name)\<lparr>Role_Serve := serve_start\<lparr>Srv_Cancelled := True\<rparr>\<rparr>)"
proof -
  have "role_step name addr Env (role_start name) ((role_start name)\<lparr>Role_Serve := serve_start\<lparr>Srv_Cancelled := True\<rparr>\<rparr>)"
    by (rule role_admin) (simp add: role_start_def serve_start_def cancel [of serve_start addr, unfolded serve_start_def, simplified])
  then show ?thesis by (rule run_Cons [OF run.run_start])
qed

lemma role_shuts_down_witness:
  "\<exists>n t. n \<le> 7 \<and> role_returned t
    \<and> run (role_step ''api'' '':9090'') ((role_start ''api'')\<lparr>Role_Serve := serve_start\<lparr>Srv_Cancelled := True\<rparr>\<rparr>) (replicate n Own) t"
proof -
  from role_shuts_down [OF cancelled_start, of "''api''" "'':9090''"] obtain n t
    where "length [Env] + n \<le> 8" "role_returned t"
      "run (role_step ''api'' '':9090'') ((role_start ''api'')\<lparr>Role_Serve := serve_start\<lparr>Srv_Cancelled := True\<rparr>\<rparr>) (replicate n Own) t"
    by auto
  then show ?thesis by (intro exI [of _ n] exI [of _ t]) simp
qed

text \<open>
  C34. The exit code tells how a role ended: it always returns an error; the program exits with
  0 only after a cancel, so a failing listener is never mistaken for a shutdown; and without a
  cancel the error is not the admin server's "closed".
\<close>
theorem role_exit:
  assumes "run (role_step name addr) (role_start name) ls s" and "Role_Pc s = RoleReturned r"
  shows "\<exists>e. r = Some e
    \<and> (fst (spt_exit r) = 0 \<longrightarrow> Srv_Cancelled (Role_Serve s))
    \<and> (fst (spt_exit r) \<noteq> 0 \<longrightarrow> spt_exit r = (1, Some e))
    \<and> (\<not> Srv_Cancelled (Role_Serve s) \<longrightarrow> \<not> errors_is e ErrServerClosed)"
proof -
  have "role_result addr (Srv_Cancelled (Role_Serve s)) r"
    using role.run_inv [OF assms(1)] assms(2) by (simp add: role_ok_def)
  then show ?thesis
    by (auto simp: role_result_def serve_result_def spt_exit_def foreign_def ErrServerClosed_def context_Canceled_def)
qed


text \<open>A role that has just been cancelled, followed by hand: the steps of the code in one order.\<close>

definition serving :: "string \<Rightarrow> bool \<Rightarrow> serve_pc \<Rightarrow> role_state" where
  "serving name cancelled pc = (role_start name)\<lparr>Role_Serve :=
     \<lparr>Srv_Cancelled = cancelled, Srv_Pc = pc, Srv_Http = HttpServing, Srv_ErrCh = [], Srv_Addr = ''127.0.0.1:9090''\<rparr>\<rparr>"

lemma serving_steps:
  "role_step name addr Own (role_start name) (serving name False ServeSelect)"
  "role_step name addr Env (serving name False ServeSelect) (serving name True ServeSelect)"
  "role_step name addr Own (serving name True ServeSelect) (serving name True ServeShutdown)"
  "role_step name addr Own (serving name True ServeShutdown) (serving name True (ServeReturned (Some ErrServerClosed)))"
proof -
  note d = serving_def role_start_def serve_start_def
  show "role_step name addr Own (role_start name) (serving name False ServeSelect)"
    using role_admin [OF listen [of "Role_Serve (role_start name)" addr "''127.0.0.1:9090''"], of name] by (simp add: d)
  show "role_step name addr Env (serving name False ServeSelect) (serving name True ServeSelect)"
    using role_admin [OF cancel [of "Role_Serve (serving name False ServeSelect)" addr], of name] by (simp add: d)
  show "role_step name addr Own (serving name True ServeSelect) (serving name True ServeShutdown)"
    using role_admin [OF ctx_done [of "Role_Serve (serving name True ServeSelect)" addr], of name] by (simp add: d)
  show "role_step name addr Own (serving name True ServeShutdown) (serving name True (ServeReturned (Some ErrServerClosed)))"
    using role_admin [OF shutdown [of "Role_Serve (serving name True ServeShutdown)" addr], of name] by (simp add: d)
qed

lemma role_run_Cons:
  "role_step name addr l s t \<Longrightarrow> run (role_step name addr) t ls u \<Longrightarrow> run (role_step name addr) s (l # ls) u"
  by (rule run_Cons)

lemma cancelled_run:
  "run (role_step name addr) (serving name True (ServeReturned (Some ErrServerClosed))) ls u \<Longrightarrow>
     run (role_step name addr) (role_start name) (Own # Env # Own # Own # ls) u"
  by (intro role_run_Cons [OF serving_steps(1)] role_run_Cons [OF serving_steps(2)]
      role_run_Cons [OF serving_steps(3)] role_run_Cons [OF serving_steps(4)])

text \<open>
  A clean shutdown can still exit with 1: when the select of \<open>Run\<close> finds both the cancelled
  context and the admin server's result, it may take the result. There is a run whose only
  outside event is the signal, in which nothing fails, and which ends with the admin server's
  \<open>ErrServerClosed\<close> printed and the exit code 1.
\<close>
lemma clean_shutdown_can_fail:
  "\<exists>ls s. run (role_step name addr) (role_start name) ls s \<and> filter (\<lambda>l. l = Env) ls = [Env]
     \<and> Srv_Cancelled (Role_Serve s) \<and> Role_Pc s = RoleReturned (Some ErrServerClosed)
     \<and> spt_exit (Some ErrServerClosed) = (1, Some ErrServerClosed)"
proof -
  let ?s = "serving name True (ServeReturned (Some ErrServerClosed))"
  let ?t = "?s\<lparr>Role_Sent := True, Role_AdminErr := [Some ErrServerClosed]\<rparr>"
  let ?u = "?t\<lparr>Role_AdminErr := [], Role_Pc := RoleReturned (Some ErrServerClosed),
    Role_Log := Role_Log ?t @ [(LevelError, ''admin server failed'')]\<rparr>"
  have "role_step name addr Own ?s ?t"
    using role_send [of ?s "Some ErrServerClosed" name addr] by (simp add: serving_def role_start_def)
  moreover have "role_step name addr Own ?t ?u"
    by (rule role_failed) (simp_all add: serving_def role_start_def)
  ultimately have "run (role_step name addr) (role_start name) [Own, Env, Own, Own, Own, Own] ?u"
    using run.run_start by (intro cancelled_run role_run_Cons)
  then show ?thesis
    by (intro exI [of _ "[Own, Env, Own, Own, Own, Own]"] exI [of _ ?u])
      (simp add: serving_def spt_exit_def ErrServerClosed_def context_Canceled_def)
qed

text \<open>The run of a clean shutdown that ends as it should: the role waits for the admin server.\<close>

definition drained :: "string \<Rightarrow> role_state" where
  "drained name = (serving name True (ServeReturned (Some ErrServerClosed)))
     \<lparr>Role_Sent := True, Role_Pc := RoleReturned (Some context_Canceled),
      Role_Log := [(LevelInfo, name @ '' role starting''), (LevelInfo, name @ '' role stopped'')]\<rparr>"

lemma drained_run: "run (role_step name addr) (role_start name) [Own, Env, Own, Own, Own, Own, Own] (drained name)"
proof -
  let ?s = "serving name True (ServeReturned (Some ErrServerClosed))"
  let ?t = "?s\<lparr>Role_Sent := True, Role_AdminErr := [Some ErrServerClosed]\<rparr>"
  let ?u = "?t\<lparr>Role_Pc := RoleDrain\<rparr>"
  have "role_step name addr Own ?s ?t"
    using role_send [of ?s "Some ErrServerClosed" name addr] by (simp add: serving_def role_start_def)
  moreover have "role_step name addr Own ?t ?u"
    by (rule role_ctx_done) (simp_all add: serving_def role_start_def)
  moreover have "role_step name addr Own ?u (drained name)"
    using role_drained [of ?u "Some ErrServerClosed" "[]" name addr]
    by (simp add: drained_def serving_def role_start_def ErrServerClosed_def)
  ultimately show ?thesis using run.run_start by (intro cancelled_run role_run_Cons)
qed

lemma drained_pc: "Role_Pc (drained name) = RoleReturned (Some context_Canceled)"
  by (simp add: drained_def)

lemma role_exit_witness:
  "\<exists>ls s. Role_Pc s = RoleReturned (Some context_Canceled) \<and> run (role_step ''api'' '':9090'') (role_start ''api'') ls s
     \<and> Srv_Cancelled (Role_Serve s)"
proof -
  have "Srv_Cancelled (Role_Serve (drained ''api''))"
    using role_exit [OF drained_run drained_pc, of "''api''"] by (simp add: spt_exit_def context_Canceled_def)
  then show ?thesis using drained_run drained_pc by blast
qed

text \<open>
  C35. No role serves on an outdated database: it gets past its start only without a DSN or with
  every embedded migration applied; and when it stops at the guard, the observability stack is
  shut down once and the error names the role.
\<close>
theorem role_needs_migrations:
  assumes "goose_contract pg applied sources"
    and "role_begin name is_tty sdk pg cfg g w = (r, g', w')"
  shows "case r of
      Inr (o', shutdown) \<Rightarrow> (Postgres_DSN (Cfg_Postgres cfg) = '''' \<or> sources EmbeddedFS \<subseteq> applied w) \<and> applied w' = applied w
    | Inl e \<Rightarrow> Setup is_tty sdk cfg (''spt-'' @ name) g = (Inl e, g') \<and> w' = w
        \<or> (\<exists>o' shutdown e' w1. Setup is_tty sdk cfg (''spt-'' @ name) g = (Inr (o', shutdown), g')
             \<and> CheckPendingMigrations pg (Postgres_DSN (Cfg_Postgres cfg)) w = (Some e', w1)
             \<and> e = Errorf (name @ '': %w'') [ArgErr e'] \<and> w' = snd (shutdown w1))"
proof -
  obtain s g1 where s: "Setup is_tty sdk cfg (''spt-'' @ name) g = (s, g1)" by fastforce
  obtain e w1 where c: "CheckPendingMigrations pg (Postgres_DSN (Cfg_Postgres cfg)) w = (e, w1)" by fastforce
  show ?thesis
    using CheckPending_cases(1,3) [OF assms(1), of "Postgres_DSN (Cfg_Postgres cfg)" w] assms(2) s c
    by (cases s; cases e) (auto simp: role_begin_def)
qed

definition demo_role_sdk :: "(string, string, string, int set) otel" where
  "demo_role_sdk =
     \<lparr>resource_Merge = Inr, otlptrace_New = Inr, exporter_Shutdown = (\<lambda>x w. (None, w)),
      NewBatchSpanProcessor = (\<lambda>x. \<lparr>Proc_OnStart = (\<lambda>_ w. w), Proc_OnEnd = (\<lambda>s w. w),
         Proc_Shutdown = (\<lambda>w. (None, w)), Proc_ForceFlush = (\<lambda>w. (None, w))\<rparr>),
      sdk_NewTracerProvider = (\<lambda>opts. ''provider''), provider_Shutdown = (\<lambda>tp w. (None, w))\<rparr>"

lemma role_needs_migrations_witness:
  "\<forall>o' shutdown g' w'. role_begin ''api'' (\<lambda>_. False) demo_role_sdk demo_pg demo_dsn_config
      \<lparr>Slog_Default = None, Otel_Provider = None\<rparr> {1} \<noteq> (Inr (o', shutdown), g', w')"
proof (intro allI notI)
  fix o' shutdown g' w'
  assume "role_begin ''api'' (\<lambda>_. False) demo_role_sdk demo_pg demo_dsn_config
      \<lparr>Slog_Default = None, Otel_Provider = None\<rparr> {1} = (Inr (o', shutdown), g', w')"
  from role_needs_migrations [OF demo_goose_contract this] show False
    by (simp add: demo_dsn_config_def demo_sources_def)
qed

end
