(* ===== verification/Go_Decimal.thy ===== *)
theory Go_Decimal
  imports Go_Float Go_Strings
begin

text \<open>
  Decimal texts of floats: \<^verbatim>\<open>strconv.FormatFloat\<close> with the shortest digits that read back (the
  form encoding/json writes) and with two decimals (\<^verbatim>\<open>%.2f\<close>), and the reading of a decimal.
\<close>

definition ten_pow :: "int \<Rightarrow> rat" where
  "ten_pow e = (if 0 \<le> e then 10 ^ nat e else 1 / 10 ^ nat (- e))"

text \<open>The least \<open>k\<close> with \<open>x < 10\<^sup>k\<close>, for positive \<open>x\<close>.\<close>

definition decimal_exp :: "rat \<Rightarrow> int" where
  "decimal_exp x =
     (if 1 \<le> x then int (length (nat_digits (nat \<lfloor>x\<rfloor>)))
      else 1 - int (length (nat_digits (nat (\<lceil>1 / x\<rceil> - 1)))))"

text \<open>
  The digits as an integer \<open>m\<close> and an exponent \<open>e\<close>, for \<open>m * 10\<^sup>e\<close>: with one digit more in each
  step, the digits of \<open>x\<close> cut off, or those one up, as soon as they read back as \<open>x\<close>; the nearer
  of the two where both do. At the end of the steps the digits are all the digits there are.
\<close>

fun shortest_from :: "nat \<Rightarrow> rat \<Rightarrow> int \<Rightarrow> nat \<times> int" where
  "shortest_from 0 x e = (nat \<lfloor>x * ten_pow (- e)\<rfloor>, e)"
| "shortest_from (Suc k) x e =
     (let y = x * ten_pow (- e); d = \<lfloor>y\<rfloor>;
          okdown = (f64_round (of_int d * ten_pow e) = Fin x);
          okup = (f64_round (of_int (d + 1) * ten_pow e) = Fin x)
      in if okdown \<and> okup then (nat (round_even y), e)
         else if okdown then (nat d, e)
         else if okup then (nat (d + 1), e)
         else shortest_from k x (e - 1))"

definition shortest :: "rat \<Rightarrow> nat \<times> int" where
  "shortest x =
     (let k = decimal_exp x
      in shortest_from (nat (k - 1 + bit_len (snd (quotient_of x)))) x (k - 1))"

definition trim_zeros :: "string \<Rightarrow> string" where
  "trim_zeros ds = rev (dropWhile (\<lambda>c. c = CHR ''0'') (rev ds))"

definition zeros :: "int \<Rightarrow> string" where
  "zeros n = replicate (nat n) (CHR ''0'')"

text \<open>The digits \<open>0.ds * 10\<^sup>d\<^sup>p\<close> without and with an exponent.\<close>

definition positional :: "string \<Rightarrow> int \<Rightarrow> string" where
  "positional ds dp =
     (if dp \<le> 0 then ''0.'' @ zeros (- dp) @ ds
      else if int (length ds) \<le> dp then ds @ zeros (dp - int (length ds))
      else take (nat dp) ds @ ''.'' @ drop (nat dp) ds)"

definition scientific :: "string \<Rightarrow> int \<Rightarrow> string" where
  "scientific ds dp =
     hd ds # (if tl ds = [] then [] else CHR ''.'' # tl ds)
       @ ''e'' @ (if dp - 1 < 0 then ''-'' else ''+'') @ nat_digits (nat \<bar>dp - 1\<bar>)"

text \<open>
  encoding/json's text of a float: positional between \<open>10\<^sup>-\<^sup>6\<close> and \<open>10\<^sup>2\<^sup>1\<close>. (Where it writes an
  exponent, that is above 20 or below -6, and Go's two digits lose their leading zero.)
\<close>

definition float_text :: "rat \<Rightarrow> string" where
  "float_text q =
     (if q = 0 then ''0''
      else let (m, e) = shortest \<bar>q\<bar>; dp = int (length (nat_digits m)) + e; ds = trim_zeros (nat_digits m)
           in (if q < 0 then ''-'' else '''')
              @ (if f64_lt (Fin \<bar>q\<bar>) (f64_round (1 / 10 ^ 6)) \<or> 10 ^ 21 \<le> \<bar>q\<bar> then scientific ds dp else positional ds dp))"

text \<open>The verbs \<^verbatim>\<open>%.1f\<close> and \<^verbatim>\<open>%.2f\<close>: the exact value rounded to so many decimals, ties to even.\<close>

fun format_fixed :: "nat \<Rightarrow> f64 \<Rightarrow> string" where
  "format_fixed prec (Fin q) =
     (let n = nat (round_even (\<bar>q\<bar> * 10 ^ prec)); ds = nat_digits (n mod 10 ^ prec)
      in (if q < 0 then ''-'' else []) @ nat_digits (n div 10 ^ prec) @ ''.'' @ replicate (prec - length ds) (CHR ''0'') @ ds)"
| "format_fixed prec NaN = ''NaN''"
| "format_fixed prec PosInf = ''+Inf''"
| "format_fixed prec NegInf = ''-Inf''"

subsection \<open>Reading a number\<close>

text \<open>
  The scanner's states in a number: sign, integer part without leading zero, fraction, exponent,
  and the rest of the text.
\<close>

definition scan_int :: "string \<Rightarrow> (string \<times> string) option" where
  "scan_int s =
     (case s of
        [] \<Rightarrow> None
      | c # s' \<Rightarrow>
          if c = CHR ''0'' then Some ([c], s')
          else if is_digit c then Some (takeWhile is_digit s, dropWhile is_digit s)
          else None)"

definition scan_digits :: "string \<Rightarrow> (string \<times> string) option" where
  "scan_digits s = (if takeWhile is_digit s = [] then None else Some (takeWhile is_digit s, dropWhile is_digit s))"

definition scan_fraction :: "string \<Rightarrow> (string option \<times> string) option" where
  "scan_fraction s =
     (case s of
        c # s' \<Rightarrow> if c = CHR ''.'' then map_option (map_prod Some id) (scan_digits s') else Some (None, s)
      | [] \<Rightarrow> Some (None, s))"

definition scan_exponent :: "string \<Rightarrow> (int option \<times> string) option" where
  "scan_exponent s =
     (case s of
        c # s' \<Rightarrow>
          if c = CHR ''e'' \<or> c = CHR ''E''
          then let neg = (take 1 s' = ''-''); t = (if take 1 s' = ''-'' \<or> take 1 s' = ''+'' then drop 1 s' else s')
               in map_option (map_prod (\<lambda>ds. Some (if neg then - int (digits_val ds) else int (digits_val ds))) id) (scan_digits t)
          else Some (None, s)
      | [] \<Rightarrow> Some (None, s))"

type_synonym decimal = "bool \<times> string \<times> string option \<times> int option"

definition scan_number :: "string \<Rightarrow> (decimal \<times> string) option" where
  "scan_number s =
     (let neg = (take 1 s = ''-'')
      in Option.bind (scan_int (if neg then drop 1 s else s)) (\<lambda>(ip, s1).
         Option.bind (scan_fraction s1) (\<lambda>(fr, s2).
         map_option (\<lambda>(ex, s3). ((neg, ip, fr, ex), s3)) (scan_exponent s2))))"

fun decimal_value :: "decimal \<Rightarrow> rat" where
  "decimal_value (neg, ip, fr, ex) =
     (let ds = (case fr of None \<Rightarrow> [] | Some ds \<Rightarrow> ds); e = (case ex of None \<Rightarrow> 0 | Some e \<Rightarrow> e)
      in (if neg then - 1 else 1) * of_nat (digits_val (ip @ ds)) * ten_pow (e - int (length ds)))"

definition is_integer_literal :: "decimal \<Rightarrow> bool" where
  "is_integer_literal d = (fst (snd (snd d)) = None \<and> snd (snd (snd d)) = None)"


subsection \<open>What is written reads back\<close>

lemma ten_pow_pos [simp]: "0 < ten_pow e"
  by (simp add: ten_pow_def)

lemma ten_pow_0 [simp]: "ten_pow 0 = 1"
  by (simp add: ten_pow_def)

lemma ten_pow_add: "ten_pow (a + b) = ten_pow a * ten_pow b"
proof -
  have "ten_pow e = 10 powi e" for e
    by (simp add: ten_pow_def power_int_def field_simps)
  then show ?thesis by (simp add: power_int_add)
qed

lemma ten_pow_nat: "ten_pow (int n) = 10 ^ n"
  by (simp add: ten_pow_def)

lemma ten_pow_cancel [simp]: "ten_pow (- e) * ten_pow e = 1"
  using ten_pow_add [of "- e" e] by simp

text \<open>A finite float has finitely many decimals: its denominator is a power of two.\<close>

lemma dvd_power_two: "d dvd 2 ^ k \<Longrightarrow> \<exists>i. d = (2 :: nat) ^ i"
proof (induction k arbitrary: d)
  case (Suc k)
  show ?case
  proof (cases "even d")
    case True
    then obtain c where c: "d = 2 * c" by blast
    with Suc.prems have "c dvd 2 ^ k" by simp
    with Suc.IH c show ?thesis by (metis power_Suc)
  next
    case False
    with Suc.prems have "d dvd 2 ^ k"
      by (metis coprime_dvd_mult_right_iff coprime_right_2_iff_odd power_Suc)
    with Suc.IH show ?thesis by blast
  qed
qed (auto intro: exI [of _ 0])

lemma bit_len_power: "bit_len (2 ^ i) = int i + 1"
proof (induction i)
  case 0
  show ?case by (simp add: bit_len.simps)
next
  case (Suc i)
  have "\<not> (2 :: int) ^ Suc i \<le> 0" by (simp add: not_le)
  then have "bit_len (2 ^ Suc i) = 1 + bit_len (2 ^ Suc i div 2)" by (subst bit_len.simps) simp
  with Suc show ?case by simp
qed

lemma f64_round_dyadic:
  assumes "f64_round x = Fin x"
  shows "\<exists>n k. x = of_int n / 2 ^ k"
proof -
  have two: "\<exists>n k. of_int a * two_pow e = of_int n / 2 ^ k" for a e
  proof (cases "0 \<le> e")
    case True
    then have "of_int a * two_pow e = of_int (a * 2 ^ nat e) / 2 ^ 0" by (simp add: two_pow_def)
    then show ?thesis by blast
  next
    case False
    then have "of_int a * two_pow e = of_int a / 2 ^ nat (- e)" by (simp add: two_pow_def)
    then show ?thesis by blast
  qed
  show ?thesis
  proof (cases "x = 0")
    case True
    then have "x = of_int 0 / 2 ^ 0" by simp
    then show ?thesis by blast
  next
    case False
    with assms have "x = (if 0 < x then round_pos \<bar>x\<bar> else - round_pos \<bar>x\<bar>)"
      by (simp add: f64_round_def Let_def split: if_splits)
    then have "\<exists>a e. x = of_int a * two_pow e"
      unfolding round_pos_def by (metis minus_mult_left of_int_minus)
    then show ?thesis using two by metis
  qed
qed

lemma dyadic_decimals:
  assumes "x = of_int n / 2 ^ k" and "bit_len (snd (quotient_of x)) \<le> int j"
  shows "x * 10 ^ j \<in> \<int>"
proof -
  obtain a b where q: "quotient_of x = (a, b)" by fastforce
  have b: "0 < b" and x: "x = of_int a / of_int b" and c: "coprime a b"
    using q quotient_of_denom_pos quotient_of_div quotient_of_coprime by blast+
  have "(of_int (a * 2 ^ k) :: rat) = of_int (n * b)" using assms(1) x b by (simp add: field_simps)
  then have "a * 2 ^ k = n * b" by (simp only: of_int_eq_iff)
  then have "b dvd a * 2 ^ k" by simp
  with c have "b dvd 2 ^ k" by (simp add: coprime_commute coprime_dvd_mult_right_iff)
  then have "nat b dvd 2 ^ k" using b by (metis int_nat_eq of_nat_dvd_iff of_nat_numeral of_nat_power order_less_imp_le)
  then obtain i where "nat b = 2 ^ i" using dvd_power_two by blast
  then have i: "b = 2 ^ i" using b by (metis int_nat_eq of_nat_numeral of_nat_power order_less_imp_le)
  with assms(2) q have "i \<le> j" by (simp add: bit_len_power)
  then have "(2 :: rat) ^ j = 2 ^ i * 2 ^ (j - i)" by (simp flip: power_add)
  moreover have "(10 :: rat) ^ j = 2 ^ j * 5 ^ j" by (simp flip: power_mult_distrib)
  ultimately have ten: "(10 :: rat) ^ j = 2 ^ i * (2 ^ (j - i) * 5 ^ j)" by simp
  have "x * 10 ^ j = of_int (a * 2 ^ (j - i) * 5 ^ j)" unfolding ten using x i by simp
  then show ?thesis by (metis Ints_of_int)
qed

lemma round_even_cases: "round_even y = \<lfloor>y\<rfloor> \<or> round_even y = \<lfloor>y\<rfloor> + 1"
  by (simp add: round_even_def Let_def)

text \<open>The digits found read back, if the last step has them all.\<close>

lemma shortest_from_reads_back:
  assumes "f64_round x = Fin x" and "0 < x" and "x * ten_pow (int k - e) \<in> \<int>" and "shortest_from k x e = (m, e')"
  shows "f64_round (of_nat m * ten_pow e') = Fin x"
  using assms(3, 4)
proof (induction k arbitrary: e)
  case 0
  then obtain z where z: "x * ten_pow (- e) = of_int z" by (auto elim: Ints_cases)
  have "0 < x * ten_pow (- e)" using assms(2) by simp
  with z have "0 < z" by simp
  with 0 z have m: "of_nat m = x * ten_pow (- e)" "e' = e" by (auto simp: z)
  have "of_nat m * ten_pow e' = x" unfolding m by simp
  then show ?case using assms(1) by simp
next
  case (Suc k)
  let ?y = "x * ten_pow (- e)"
  have "0 < ?y" using assms(2) by simp
  then have d: "0 \<le> \<lfloor>?y\<rfloor>" by simp
  have "0 \<le> round_even ?y" using round_even_cases [of ?y] d by linarith
  moreover have "x * ten_pow (int k - (e - 1)) \<in> \<int>" using Suc.prems(1) by (simp add: algebra_simps)
  ultimately show ?case
    using Suc.prems(2) d round_even_cases [of ?y]
    by (auto simp: Let_def split: if_splits intro!: Suc.IH [of "e - 1"])
qed

lemma shortest_reads_back:
  assumes "f64_round x = Fin x" and "0 < x" and "shortest x = (m, e)"
  shows "f64_round (of_nat m * ten_pow e) = Fin x" and "0 < m"
proof -
  let ?k = "nat (decimal_exp x - 1 + bit_len (snd (quotient_of x)))"
  let ?j = "nat (int ?k - (decimal_exp x - 1))"
  obtain n p where "x = of_int n / 2 ^ p" using f64_round_dyadic [OF assms(1)] by blast
  moreover have "bit_len (snd (quotient_of x)) \<le> int ?j" using bit_len_nonneg [of "snd (quotient_of x)"] by linarith
  ultimately have "x * 10 ^ ?j \<in> \<int>" by (rule dyadic_decimals)
  moreover have "int ?k - (decimal_exp x - 1) = int ?j" using bit_len_nonneg [of "snd (quotient_of x)"] by linarith
  ultimately have "x * ten_pow (int ?k - (decimal_exp x - 1)) \<in> \<int>" by (metis ten_pow_nat)
  then show r: "f64_round (of_nat m * ten_pow e) = Fin x"
    using assms(3) by (intro shortest_from_reads_back [OF assms(1, 2)]) (auto simp: shortest_def Let_def)
  show "0 < m"
  proof (rule ccontr)
    assume "\<not> 0 < m"
    with r have "x = 0" by (simp add: f64_round_def)
    with assms(2) show False by simp
  qed
qed

text \<open>Strings of digits.\<close>

lemma digits_val_append: "digits_val (xs @ ys) = digits_val xs * 10 ^ length ys + digits_val ys"
proof (induction ys rule: rev_induct)
  case (snoc y ys)
  then show ?case by (simp add: digits_val_def)
qed (simp add: digits_val_def)

lemma digits_val_zeros [simp]: "digits_val (replicate n (CHR ''0'')) = 0"
proof (induction n)
  case (Suc n)
  have "digits_val (CHR ''0'' # replicate n (CHR ''0'')) = digits_val [CHR ''0''] * 10 ^ n + digits_val (replicate n (CHR ''0''))"
    using digits_val_append [of "[CHR ''0'']" "replicate n (CHR ''0'')"] by simp
  with Suc show ?case by (simp add: digits_val_def digit_val_def)
qed (simp add: digits_val_def)

definition digit_string :: "string \<Rightarrow> bool" where
  "digit_string ds = (ds \<noteq> [] \<and> list_all is_digit ds)"

lemma nat_digits_head: "0 < n \<Longrightarrow> hd (nat_digits n) \<noteq> CHR ''0''"
proof (induction n rule: nat_digits.induct)
  case (1 n)
  show ?case
  proof (cases "n < 10")
    case True
    have "(of_char (char_of (48 + n) :: char) :: nat) \<noteq> of_char (CHR ''0'')" using True 1 by (simp add: of_char_of)
    then have "char_of (48 + n) \<noteq> CHR ''0''" by metis
    with True show ?thesis by (simp add: nat_digits.simps [of n])
  next
    case False
    moreover have "nat_digits (n div 10) \<noteq> []" using nat_digits_spec by blast
    ultimately show ?thesis using 1 by (simp add: nat_digits.simps [of n])
  qed
qed

lemma trim_zeros_split:
  obtains j where "ds = trim_zeros ds @ replicate j (CHR ''0'')"
proof -
  let ?r = "takeWhile (\<lambda>c. c = CHR ''0'') (rev ds)"
  have "?r = replicate (length ?r) (CHR ''0'')" by (rule replicate_length_same [symmetric]) (auto dest: set_takeWhileD)
  moreover have "ds = trim_zeros ds @ rev ?r"
    unfolding trim_zeros_def rev_append [symmetric] takeWhile_dropWhile_id by simp
  ultimately have "ds = trim_zeros ds @ replicate (length ?r) (CHR ''0'')" by (metis rev_replicate)
  then show thesis by (rule that)
qed

text \<open>The digits of a positive number without their final zeros.\<close>

lemma trimmed_digits:
  assumes "0 < m"
  defines "ds \<equiv> trim_zeros (nat_digits m)"
  shows "digit_string ds" and "hd ds \<noteq> CHR ''0''"
    and "(of_nat m :: rat) * ten_pow e = of_nat (digits_val ds) * ten_pow (int (length (nat_digits m)) + e - int (length ds))"
proof -
  obtain j where j: "nat_digits m = ds @ replicate j (CHR ''0'')" unfolding ds_def by (rule trim_zeros_split)
  have spec: "nat_digits m \<noteq> []" "list_all is_digit (nat_digits m)" "digits_val (nat_digits m) = m"
    using nat_digits_spec by blast+
  have "digits_val (nat_digits m) = digits_val ds * 10 ^ j" unfolding j by (simp add: digits_val_append)
  then have m: "m = digits_val ds * 10 ^ j" using spec(3) by simp
  with assms(1) have ne: "ds \<noteq> []" by (auto simp: digits_val_def)
  with spec j show "digit_string ds" by (simp add: digit_string_def)
  from nat_digits_head [OF assms(1)] ne show "hd ds \<noteq> CHR ''0''" unfolding j by simp
  have "(of_nat m :: rat) * ten_pow e = of_nat (digits_val ds) * (ten_pow (int j) * ten_pow e)"
    by (subst m) (simp add: ten_pow_nat)
  then show "(of_nat m :: rat) * ten_pow e = of_nat (digits_val ds) * ten_pow (int (length (nat_digits m)) + e - int (length ds))"
    unfolding ten_pow_add [symmetric] j by simp
qed

text \<open>What may follow a number so that it ends there.\<close>

definition ends_number :: "string \<Rightarrow> bool" where
  "ends_number r = (case r of [] \<Rightarrow> True | c # _ \<Rightarrow> \<not> is_digit c \<and> c \<notin> {CHR ''.'', CHR ''e'', CHR ''E''})"

definition ends_digits :: "string \<Rightarrow> bool" where
  "ends_digits r = (case r of [] \<Rightarrow> True | c # _ \<Rightarrow> \<not> is_digit c)"

lemma ends_digits_simps [simp]:
  "ends_digits []" "ends_digits (c # r) \<longleftrightarrow> \<not> is_digit c" "ends_number r \<Longrightarrow> ends_digits r"
  by (auto simp: ends_digits_def ends_number_def split: list.splits)

lemma takeWhile_digits:
  assumes "list_all is_digit ds" and "ends_digits r"
  shows "takeWhile is_digit (ds @ r) = ds" and "dropWhile is_digit (ds @ r) = r"
  using assms by (induction ds) (auto simp: ends_digits_def split: list.splits)

lemma scan_digits_ok: "digit_string ds \<Longrightarrow> ends_digits r \<Longrightarrow> scan_digits (ds @ r) = Some (ds, r)"
  by (simp add: scan_digits_def digit_string_def takeWhile_digits)

lemma scan_int_ok:
  assumes "digit_string ds" and "hd ds \<noteq> CHR ''0'' \<or> ds = ''0''" and "ends_digits r"
  shows "scan_int (ds @ r) = Some (ds, r)"
proof (cases "ds = ''0''")
  case False
  with assms obtain c cs where c: "ds = c # cs" "c \<noteq> CHR ''0''" "is_digit c" by (cases ds) (auto simp: digit_string_def)
  with assms takeWhile_digits [of ds r] show ?thesis by (simp add: scan_int_def digit_string_def)
qed (simp add: scan_int_def)

lemma scan_ends [simp]:
  "ends_number r \<Longrightarrow> scan_fraction r = Some (None, r)" "ends_number r \<Longrightarrow> scan_exponent r = Some (None, r)"
  by (auto simp: ends_number_def scan_fraction_def scan_exponent_def split: list.splits)

lemma scan_fraction_dot [simp]: "scan_fraction (CHR ''.'' # s) = map_option (map_prod Some id) (scan_digits s)"
  by (simp add: scan_fraction_def)

definition sign_text :: "bool \<Rightarrow> string" where
  "sign_text neg = (if neg then ''-'' else '''')"

lemma scan_number_sign:
  assumes "take 1 s \<noteq> ''-''"
  shows "scan_number (sign_text neg @ s)
    = Option.bind (scan_int s) (\<lambda>(ip, s1). Option.bind (scan_fraction s1) (\<lambda>(fr, s2).
        map_option (\<lambda>(ex, s3). ((neg, ip, fr, ex), s3)) (scan_exponent s2)))"
  using assms by (simp add: scan_number_def sign_text_def)

lemma digit_no_sign: "digit_string ds \<Longrightarrow> take 1 (ds @ s) \<noteq> ''-''"
  by (cases ds) (auto simp: digit_string_def is_digit_def)

lemma zero_digits: "digit_string ''0''" "digits_val (CHR ''0'' # ds) = digits_val ds" "list_all is_digit (replicate n (CHR ''0''))"
  by (simp_all add: digit_string_def is_digit_def digits_val_def digit_val_def list_all_iff)

text \<open>The three texts of a number read back as the number.\<close>

lemma scan_integer:
  assumes "digit_string ds" and "hd ds \<noteq> CHR ''0'' \<or> ds = ''0''" and "ends_number r"
  shows "scan_number (sign_text neg @ ds @ r) = Some ((neg, ds, None, None), r)"
  using assms by (simp add: scan_number_sign [OF digit_no_sign] scan_int_ok)

lemma scan_with_fraction:
  assumes "digit_string ip" and "hd ip \<noteq> CHR ''0'' \<or> ip = ''0''" and "digit_string fr" and "ends_number r"
  shows "scan_number (sign_text neg @ ip @ CHR ''.'' # fr @ r) = Some ((neg, ip, Some fr, None), r)"
  using assms by (simp add: scan_number_sign [OF digit_no_sign] scan_int_ok scan_digits_ok is_digit_def)

definition reads_as :: "string \<Rightarrow> rat \<Rightarrow> bool" where
  "reads_as t q = (\<forall>r. ends_number r \<longrightarrow> (\<exists>d. scan_number (t @ r) = Some (d, r) \<and> decimal_value d = q))"

abbreviation signed :: "bool \<Rightarrow> rat \<Rightarrow> rat" where
  "signed neg q \<equiv> (if neg then - 1 else 1) * q"

lemma positional_reads:
  assumes "digit_string ds" and "hd ds \<noteq> CHR ''0''"
  shows "reads_as (sign_text neg @ positional ds dp) (signed neg (of_nat (digits_val ds) * ten_pow (dp - int (length ds))))"
  unfolding reads_as_def
proof (intro allI impI)
  fix r assume r: "ends_number r"
  show "\<exists>d. scan_number ((sign_text neg @ positional ds dp) @ r) = Some (d, r)
    \<and> decimal_value d = signed neg (of_nat (digits_val ds) * ten_pow (dp - int (length ds)))"
  proof (cases "dp \<le> 0")
    case True
    have "digit_string (zeros (- dp) @ ds)" using assms(1) by (simp add: digit_string_def zeros_def zero_digits)
    from scan_with_fraction [of "''0''", OF zero_digits(1) _ this r] True show ?thesis
      by (auto simp: positional_def zeros_def digits_val_append zero_digits)
  next
    case F: False
    show ?thesis
    proof (cases "int (length ds) \<le> dp")
      case True
      let ?ip = "ds @ zeros (dp - int (length ds))"
      have "digit_string ?ip" "hd ?ip \<noteq> CHR ''0''" using assms by (auto simp: digit_string_def zeros_def zero_digits)
      moreover have "ten_pow (dp - int (length ds)) = 10 ^ nat (dp - int (length ds))" using True by (simp add: ten_pow_def)
      ultimately show ?thesis using scan_integer [of ?ip r neg] r F True
        by (auto simp: positional_def zeros_def digits_val_append digits_val_def [of "[]"])
    next
      case False
      let ?ip = "take (nat dp) ds" and ?fr = "drop (nat dp) ds"
      have "digit_string ?ip" "digit_string ?fr" "hd ?ip \<noteq> CHR ''0''" using assms F False
        by (auto simp: digit_string_def list_all_iff dest: in_set_takeD in_set_dropD)
      with scan_with_fraction [of ?ip ?fr r neg] r F False show ?thesis
        by (auto simp: positional_def)
    qed
  qed
qed

lemma scientific_reads:
  assumes "digit_string ds"
  shows "reads_as (sign_text neg @ scientific ds dp) (signed neg (of_nat (digits_val ds) * ten_pow (dp - int (length ds))))"
  unfolding reads_as_def
proof (intro allI impI)
  fix r assume r: "ends_number r"
  obtain c cs where ds: "ds = c # cs" and c: "is_digit c" and cs: "list_all is_digit cs"
    using assms by (cases ds) (auto simp: digit_string_def)
  let ?n = "nat_digits (nat \<bar>dp - 1\<bar>)"
  let ?x = "''e'' @ (if dp - 1 < 0 then ''-'' else ''+'') @ ?n @ r"
  have n: "digit_string ?n" "digits_val ?n = nat \<bar>dp - 1\<bar>" using nat_digits_spec by (auto simp: digit_string_def)
  have x: "scan_exponent ?x = Some (Some (dp - 1), r)"
    using r n by (auto simp: scan_exponent_def Let_def scan_digits_ok)
  have ip: "scan_int (c # s) = Some ([c], s)" if "ends_digits s" for s
    using scan_int_ok [of "[c]" s] that c by (simp add: digit_string_def scan_int_def)
  have e: "ends_digits (CHR ''e'' # s)" for s by (simp add: is_digit_def)
  have sg: "take 1 (c # s) \<noteq> ''-''" for s using c by (auto simp: is_digit_def)
  have v: "digits_val ds = digits_val (c # cs)" by (simp add: ds)
  show "\<exists>d. scan_number ((sign_text neg @ scientific ds dp) @ r) = Some (d, r)
    \<and> decimal_value d = signed neg (of_nat (digits_val ds) * ten_pow (dp - int (length ds)))"
  proof (cases "cs = []")
    case True
    have "scan_fraction ?x = Some (None, ?x)" by (simp add: scan_fraction_def)
    then have "scan_number ((sign_text neg @ scientific ds dp) @ r) = Some ((neg, [c], None, Some (dp - 1)), r)"
      using scan_number_sign [OF sg, of neg ?x] ip [of ?x] x True e by (simp add: ds scientific_def)
    with True show ?thesis by (simp add: ds)
  next
    case False
    have "scan_fraction (CHR ''.'' # cs @ ?x) = Some (Some cs, ?x)"
      using scan_digits_ok [of cs ?x] cs False e by (simp add: digit_string_def)
    then have "scan_number ((sign_text neg @ scientific ds dp) @ r) = Some ((neg, [c], Some cs, Some (dp - 1)), r)"
      using scan_number_sign [OF sg, of neg "CHR ''.'' # cs @ ?x"] ip [of "CHR ''.'' # cs @ ?x"] x False
      by (simp add: ds scientific_def is_digit_def)
    then show ?thesis by (simp add: ds algebra_simps)
  qed
qed

text \<open>A float that is one of binary64 is the float its text rounds to.\<close>

lemma f64_round_minus: "f64_round (- q) = f64_neg (f64_round q)"
  by (simp add: f64_round_def Let_def)

theorem float_text_reads:
  assumes "f64_round q = Fin q"
  shows "\<exists>q'. reads_as (float_text q) q' \<and> f64_round q' = Fin q"
proof (cases "q = 0")
  case True
  have "reads_as ''0'' 0" unfolding reads_as_def
  proof (intro allI impI)
    fix r assume "ends_number r"
    from scan_integer [OF zero_digits(1) _ this, of False]
    show "\<exists>d. scan_number (''0'' @ r) = Some (d, r) \<and> decimal_value d = 0"
      by (auto simp: sign_text_def digits_val_def digit_val_def)
  qed
  with True show ?thesis by (auto simp: float_text_def f64_round_def)
next
  case False
  have abs: "f64_round \<bar>q\<bar> = Fin \<bar>q\<bar>" using assms by (auto simp: abs_if f64_round_minus)
  obtain m e where s: "shortest \<bar>q\<bar> = (m, e)" by fastforce
  let ?ds = "trim_zeros (nat_digits m)" and ?dp = "int (length (nat_digits m)) + e"
  have m: "f64_round (of_nat m * ten_pow e) = Fin \<bar>q\<bar>" "0 < m"
    using shortest_reads_back [OF abs _ s] False by auto
  note d = trimmed_digits [OF m(2)]
  let ?q = "of_nat (digits_val ?ds) * ten_pow (?dp - int (length ?ds))"
  have "f64_round (signed (q < 0) ?q) = Fin q"
    using m(1) unfolding d(3) by (auto simp: f64_round_minus abs_if split: if_splits)
  moreover have ft: "float_text q = sign_text (q < 0)
      @ (if f64_lt (Fin \<bar>q\<bar>) (f64_round (1 / 10 ^ 6)) \<or> 10 ^ 21 \<le> \<bar>q\<bar> then scientific ?ds ?dp else positional ?ds ?dp)"
    using False by (simp only: float_text_def s sign_text_def Let_def prod.case if_False)
  have "reads_as (sign_text (q < 0) @ (if b then scientific ?ds ?dp else positional ?ds ?dp)) (signed (q < 0) ?q)" for b
    using scientific_reads [OF d(1), of "q < 0" ?dp] positional_reads [OF d(1,2), of "q < 0" ?dp]
    by (cases b) (simp_all only: if_True if_False)
  then have "reads_as (float_text q) (signed (q < 0) ?q)" unfolding ft .
  ultimately show ?thesis by blast
qed

end
