(* ===== verification/Go_Json.thy ===== *)
theory Go_Json
  imports Go_Http Go_Utf8 Go_Decimal
begin

text \<open>
  The concrete syntax of package encoding/json: the bytes of a document, compact or indented, and
  the parser. Both go through the tokens of the text, so that white space is one thing and the
  grammar another. The parser is Go's scanner: a mode and a stack of the arrays and objects that
  are open, at most 10,000 of them.
\<close>

subsection \<open>Strings\<close>

definition html_special :: "char \<Rightarrow> bool" where
  "html_special c = (c = CHR ''<'' \<or> c = CHR ''>'' \<or> c = CHR ''&'')"

definition unicode_escape :: "nat \<Rightarrow> string" where
  "unicode_escape r =
     [CHR 0x5C, CHR ''u'', hex_digit (r div 4096), hex_digit (r div 256 mod 16), hex_digit (r div 16 mod 16), hex_digit (r mod 16)]"

definition escape_ascii :: "char \<Rightarrow> string" where
  "escape_ascii c =
     (let n = byte_val c in
      if n = 34 \<or> n = 92 then [CHR 0x5C, c]
      else if n = 8 then [CHR 0x5C, CHR ''b'']
      else if n = 12 then [CHR 0x5C, CHR ''f'']
      else if n = 10 then [CHR 0x5C, CHR ''n'']
      else if n = 13 then [CHR 0x5C, CHR ''r'']
      else if n = 9 then [CHR 0x5C, CHR ''t'']
      else if n < 32 \<or> html_special c then unicode_escape n
      else [c])"

text \<open>\<^verbatim>\<open>appendString\<close> with HTML escaping: U+2028 and U+2029 are escaped, a byte that is no rune is U+FFFD.\<close>

definition is_line_sep :: "char \<Rightarrow> string \<Rightarrow> bool" where
  "is_line_sep c s = (c = CHR 0xE2 \<and> (\<exists>x\<in>{CHR 0xA8, CHR 0xA9}. take 2 s = [CHR 0x80, x]))"

function escape_string :: "string \<Rightarrow> string" where
  "escape_string [] = []"
| "escape_string (c # s) =
     (let n = rune_len (c # s)
      in if byte_val c < (128 :: nat) then escape_ascii c @ escape_string s
         else if n = 0 then unicode_escape 65533 @ escape_string s
         else if is_line_sep c s then unicode_escape (8192 + byte_val (s ! 1) - 128) @ escape_string (drop 2 s)
         else c # take (n - 1) s @ escape_string (drop (n - 1) s))"
  by pat_completeness auto
termination by (relation "measure length") auto

definition json_quote :: "string \<Rightarrow> string" where
  "json_quote s = CHR 0x22 # escape_string s @ [CHR 0x22]"

definition hex_value :: "char \<Rightarrow> nat option" where
  "hex_value c =
     (let n = byte_val c in
      if 48 \<le> n \<and> n \<le> 57 then Some (n - 48)
      else if 97 \<le> n \<and> n \<le> 102 then Some (n - 87)
      else if 65 \<le> n \<and> n \<le> 70 then Some (n - 55)
      else None)"

text \<open>\<^verbatim>\<open>getu4\<close> after the two bytes of the escape: four hexadecimal digits at the head.\<close>

fun getu4 :: "string \<Rightarrow> nat option" where
  "getu4 (a # b # c # d # s) =
     (case (hex_value a, hex_value b, hex_value c, hex_value d) of
        (Some i, Some j, Some k, Some l) \<Rightarrow> Some (((i * 16 + j) * 16 + k) * 16 + l)
      | _ \<Rightarrow> None)"
| "getu4 _ = None"

text \<open>The body of a string literal up to its closing quote, and what follows: the scanner's states in a string.\<close>

fun string_body :: "string \<Rightarrow> (string \<times> string) option" where
  "string_body [] = None"
| "string_body (c # s) =
     (if c = CHR 0x22 then Some ([], s)
      else if c = CHR 0x5C then
        (case s of
           [] \<Rightarrow> None
         | d # s' \<Rightarrow>
             if d = CHR ''u'' \<and> getu4 s' = None \<or> d \<notin> set [CHR ''b'', CHR ''f'', CHR ''n'', CHR ''r'', CHR ''t'', CHR 0x5C, CHR ''/'', CHR 0x22, CHR ''u'']
             then None
             else map_option (map_prod (\<lambda>b. c # d # b) id) (string_body s'))
      else if byte_val c < (32 :: nat) then None
      else map_option (map_prod (Cons c) id) (string_body s))"

definition unescape_ascii :: "char \<Rightarrow> char" where
  "unescape_ascii d =
     (if d = CHR ''b'' then CHR 0x08 else if d = CHR ''f'' then CHR 0x0C else if d = CHR ''n'' then CHR 0x0A
      else if d = CHR ''r'' then CHR 0x0D else if d = CHR ''t'' then CHR 0x09 else d)"

text \<open>
  \<^verbatim>\<open>unquoteBytes\<close> on such a body: escapes, with a pair of surrogates as one rune and a lone one
  as U+FFFD, and again U+FFFD for a byte that is no rune.
\<close>

function unquote :: "string \<Rightarrow> string" where
  "unquote [] = []"
| "unquote (c # s) =
     (if c = CHR 0x5C then
        (case s of
           [] \<Rightarrow> []
         | d # s' \<Rightarrow>
             if d \<noteq> CHR ''u'' then unescape_ascii d # unquote s'
             else case getu4 s' of
               None \<Rightarrow> []
             | Some r \<Rightarrow>
                 if 55296 \<le> r \<and> r < 57344 then
                   (case (if take 2 (drop 4 s') = [CHR 0x5C, CHR ''u''] then getu4 (drop 6 s') else None) of
                      Some r' \<Rightarrow>
                        if r < 56320 \<and> 56320 \<le> r' \<and> r' < 57344
                        then encode_rune ((r - 55296) * 1024 + (r' - 56320) + 65536) @ unquote (drop 10 s')
                        else rune_error @ unquote (drop 4 s')
                    | None \<Rightarrow> rune_error @ unquote (drop 4 s'))
                 else encode_rune r @ unquote (drop 4 s'))
      else
        let n = rune_len (c # s)
        in if n = 0 then rune_error @ unquote s
           else c # take (n - 1) s @ unquote (drop (n - 1) s))"
  by pat_completeness auto
termination by (relation "measure length") auto

declare unquote.simps(2) [simp del] escape_string.simps(2) [simp del]

subsection \<open>Tokens\<close>

text \<open>Punctuation, the body of a string literal, the text of a number, a word.\<close>

datatype token = Punct char | StrTok string | NumTok string | WordTok string

definition json_space :: "char \<Rightarrow> bool" where
  "json_space c = (c = CHR 0x20 \<or> c = CHR 0x09 \<or> c = CHR 0x0A \<or> c = CHR 0x0D)"

definition scan_word :: "string \<Rightarrow> string \<Rightarrow> (token \<times> string) option" where
  "scan_word w s = (if take (length w) s = w then Some (WordTok w, drop (length w) s) else None)"

fun scan_token :: "string \<Rightarrow> (token \<times> string) option" where
  "scan_token [] = None"
| "scan_token (c # s) =
     (if c \<in> set ''[]{}:,'' then Some (Punct c, s)
      else if c = CHR 0x22 then map_option (map_prod StrTok id) (string_body s)
      else if c = CHR ''t'' then scan_word ''true'' (c # s)
      else if c = CHR ''f'' then scan_word ''false'' (c # s)
      else if c = CHR ''n'' then scan_word ''null'' (c # s)
      else map_option (\<lambda>(d, r). (NumTok (take (length (c # s) - length r) (c # s)), r)) (scan_number (c # s)))"

lemma string_body_shorter: "string_body s = Some (b, r) \<Longrightarrow> length r < length s"
  by (induction s arbitrary: b r rule: string_body.induct) (fastforce split: if_splits list.splits)+

lemma scan_digits_shorter: "scan_digits s = Some (ds, r) \<Longrightarrow> length r \<le> length s"
  by (auto simp: scan_digits_def length_dropWhile_le split: if_splits)

lemma scan_int_shorter: "scan_int s = Some (ds, r) \<Longrightarrow> length r < length s"
  by (auto simp: scan_int_def length_dropWhile_le less_Suc_eq_le split: list.splits if_splits)

lemma scan_fraction_shorter: "scan_fraction s = Some (f, r) \<Longrightarrow> length r \<le> length s"
  by (auto simp: scan_fraction_def split: list.splits if_splits dest: scan_digits_shorter)

lemma scan_exponent_shorter:
  assumes "scan_exponent s = Some (e, r)"
  shows "length r \<le> length s"
proof (cases s)
  case (Cons c s')
  let ?t = "if take 1 s' = ''-'' \<or> take 1 s' = ''+'' then drop 1 s' else s'"
  have "length ?t \<le> length s'" by simp
  with assms Cons show ?thesis
    by (auto simp: scan_exponent_def Let_def simp del: One_nat_def split: if_splits dest!: scan_digits_shorter)
qed (use assms in \<open>auto simp: scan_exponent_def\<close>)

lemma scan_number_shorter: "scan_number s = Some (d, r) \<Longrightarrow> length r < length s"
  by (auto simp: scan_number_def Let_def bind_eq_Some_conv split: if_splits
      dest!: scan_int_shorter scan_fraction_shorter scan_exponent_shorter)

lemma scan_token_shorter: "scan_token s = Some (t, r) \<Longrightarrow> length r < length s"
  by (cases s) (auto simp: scan_word_def split: if_splits dest: string_body_shorter scan_number_shorter)

text \<open>The tokens of a text, \<open>None\<close> where there is a byte of none.\<close>

function tokens :: "string \<Rightarrow> token list option" where
  "tokens s =
     (case dropWhile json_space s of
        [] \<Rightarrow> Some []
      | c # s' \<Rightarrow>
          (case scan_token (c # s') of
             None \<Rightarrow> None
           | Some (t, r) \<Rightarrow> map_option (Cons t) (tokens r)))"
  by pat_completeness auto
termination
proof (relation "measure length")
  fix s c s' p t r
  assume "dropWhile json_space s = c # s'" and "scan_token (c # s') = Some p" and "(t, r) = p"
  then have "length r < length (dropWhile json_space s)" by (metis scan_token_shorter)
  also have "\<dots> \<le> length s" by (rule length_dropWhile_le)
  finally show "(r, s) \<in> measure length" by simp
qed simp

declare tokens.simps [simp del]

subsection \<open>The parser\<close>

text \<open>
  What is open around the place of the scanner: arrays with the elements read, objects with the
  members read and the key whose value is due. And what may come next: a value (or the end of an
  empty array), a key (or the end of an empty object), a colon, or, after a value, the rest of
  what is open.
\<close>

datatype frame = InArray "json list" | InObject "(string \<times> json) list" string

datatype scan_mode =
    BeginValue bool "frame list"
  | BeginKey bool "(string \<times> json) list" "frame list"
  | AfterKey "(string \<times> json) list" string "frame list"
  | AfterValue json "frame list"

definition maxNestingDepth :: nat where
  "maxNestingDepth = 10000"

text \<open>The value of a literal. A number without fraction and exponent is an integer, any other a float.\<close>

definition number_value :: "string \<Rightarrow> json" where
  "number_value t =
     (case scan_number t of
        Some (d, _) \<Rightarrow>
          if is_integer_literal d then JInt \<lfloor>decimal_value d\<rfloor> else JFloat (f64_round (decimal_value d))
      | None \<Rightarrow> JNull)"

fun literal_value :: "token \<Rightarrow> json option" where
  "literal_value (StrTok b) = Some (JStr (unquote b))"
| "literal_value (NumTok t) = Some (number_value t)"
| "literal_value (WordTok w) =
     Some (if w = ''true'' then JBool True else if w = ''false'' then JBool False else JNull)"
| "literal_value (Punct c) = None"

fun scan_step :: "token \<Rightarrow> scan_mode \<Rightarrow> scan_mode option" where
  "scan_step t (BeginValue may_end outer) =
     (case literal_value t of
        Some v \<Rightarrow> Some (AfterValue v outer)
      | None \<Rightarrow>
          if t = Punct (CHR ''['') \<and> length outer < maxNestingDepth then Some (BeginValue True (InArray [] # outer))
          else if t = Punct (CHR ''{'') \<and> length outer < maxNestingDepth then Some (BeginKey True [] outer)
          else if t = Punct (CHR '']'') \<and> may_end then Some (AfterValue (JArr []) (tl outer))
          else None)"
| "scan_step t (BeginKey may_end kvs outer) =
     (case t of
        StrTok b \<Rightarrow> Some (AfterKey kvs (unquote b) outer)
      | Punct c \<Rightarrow> if c = CHR ''}'' \<and> may_end then Some (AfterValue (JObj kvs) outer) else None
      | _ \<Rightarrow> None)"
| "scan_step t (AfterKey kvs k outer) =
     (if t = Punct (CHR '':'') then Some (BeginValue False (InObject kvs k # outer)) else None)"
| "scan_step t (AfterValue v []) = None"
| "scan_step t (AfterValue v (InArray vs # outer)) =
     (if t = Punct (CHR '','') then Some (BeginValue False (InArray (vs @ [v]) # outer))
      else if t = Punct (CHR '']'') then Some (AfterValue (JArr (vs @ [v])) outer)
      else None)"
| "scan_step t (AfterValue v (InObject kvs k # outer)) =
     (if t = Punct (CHR '','') then Some (BeginKey False (kvs @ [(k, v)]) outer)
      else if t = Punct (CHR ''}'') then Some (AfterValue (JObj (kvs @ [(k, v)])) outer)
      else None)"

fun scan_tokens :: "token list \<Rightarrow> scan_mode \<Rightarrow> scan_mode option" where
  "scan_tokens [] m = Some m"
| "scan_tokens (t # ts) m = Option.bind (scan_step t m) (scan_tokens ts)"

definition parse_tokens :: "token list \<Rightarrow> json option" where
  "parse_tokens ts = (case scan_tokens ts (BeginValue False []) of Some (AfterValue v []) \<Rightarrow> Some v | _ \<Rightarrow> None)"

definition json_parse :: "string \<Rightarrow> json option" where
  "json_parse s = Option.bind (tokens s) parse_tokens"

text \<open>\<^verbatim>\<open>Decoder.Decode\<close>, once: the first value of a stream, whatever follows it.\<close>

function scan_value :: "string \<Rightarrow> scan_mode \<Rightarrow> json option" where
  "scan_value s m =
     (case dropWhile json_space s of
        [] \<Rightarrow> None
      | c # s' \<Rightarrow>
          (case scan_token (c # s') of
             None \<Rightarrow> None
           | Some (t, r) \<Rightarrow>
               (case scan_step t m of
                  None \<Rightarrow> None
                | Some m' \<Rightarrow> (case m' of AfterValue v [] \<Rightarrow> Some v | _ \<Rightarrow> scan_value r m'))))"
  by pat_completeness auto
termination
proof -
  have "length r < length s" if "dropWhile json_space s = c # s'" "scan_token (c # s') = Some (t, r)" for s c s' t r
    using scan_token_shorter [OF that(2)] length_dropWhile_le [of json_space s] that(1) by simp
  then show ?thesis by (relation "measure (length \<circ> fst)") auto
qed
declare scan_value.simps [simp del]

definition json_Decode :: "string \<Rightarrow> json option" where
  "json_Decode s = scan_value s (BeginValue False [])"

lemma scan_value_tokens:
  assumes "tokens s = Some ts" and "scan_tokens ts m = Some (AfterValue v [])" and "m \<noteq> AfterValue v []"
  shows "scan_value s m = Some v"
  using assms
proof (induction s arbitrary: ts m rule: tokens.induct)
  case (1 s)
  show ?case
  proof (cases "dropWhile json_space s")
    case Nil
    with 1 show ?thesis by (simp add: tokens.simps [of s])
  next
    case (Cons c s')
    with 1(2) obtain t r ts' where t: "scan_token (c # s') = Some (t, r)" "tokens r = Some ts'" "ts = t # ts'"
      by (auto simp: tokens.simps [of s] split: option.splits)
    with 1(3) obtain m' where m': "scan_step t m = Some m'" "scan_tokens ts' m' = Some (AfterValue v [])"
      by (auto simp: bind_eq_Some_conv)
    show ?thesis
    proof (cases "\<exists>u. m' = AfterValue u []")
      case True
      then obtain u where u: "m' = AfterValue u []" by blast
      with m'(2) have "u = v" by (cases ts') auto
      with Cons t m' u show ?thesis by (simp add: scan_value.simps [of s])
    next
      case False
      then have "scan_value r m' = Some v" using 1(1) [OF Cons t(1) refl t(2) m'(2)] by blast
      with Cons t m' False show ?thesis
        by (auto simp: scan_value.simps [of s] split: scan_mode.split list.split)
    qed
  qed
qed

text \<open>A document that fills the whole text is that first value.\<close>

lemma json_Decode_parse:
  assumes "json_parse s = Some j"
  shows "json_Decode s = Some j"
proof -
  from assms obtain ts where ts: "tokens s = Some ts" "parse_tokens ts = Some j" by (auto simp: json_parse_def bind_eq_Some_conv)
  then have "scan_tokens ts (BeginValue False []) = Some (AfterValue j [])"
    by (auto simp: parse_tokens_def split: option.splits scan_mode.splits list.splits)
  then show ?thesis unfolding json_Decode_def by (intro scan_value_tokens [OF ts(1)]) simp_all
qed
subsection \<open>The writer\<close>

fun first_some :: "'a option list \<Rightarrow> 'a option" where
  "first_some [] = None"
| "first_some (None # xs) = first_some xs"
| "first_some (Some x # xs) = Some x"

text \<open>What has no JSON: a float that is no number, raw bytes that are no document.\<close>

fun json_error :: "json \<Rightarrow> err option" where
  "json_error (JFloat x) = (case x of Fin q \<Rightarrow> None | _ \<Rightarrow> Some (External ''json: unsupported value''))"
| "json_error (JRaw s) =
     (if json_parse s = None then Some (External ''json: error calling MarshalJSON for type json.RawMessage'') else None)"
| "json_error (JArr xs) = first_some (map json_error xs)"
| "json_error (JObj kvs) = first_some (map (\<lambda>(k, v). json_error v) kvs)"
| "json_error _ = None"

fun with_commas :: "token list list \<Rightarrow> token list" where
  "with_commas [] = []"
| "with_commas [x] = x"
| "with_commas (x # y # ys) = x @ Punct (CHR '','') # with_commas (y # ys)"

text \<open>Raw bytes are compacted, with the HTML characters in their strings escaped (\<^verbatim>\<open>appendCompact\<close>).\<close>

function html_escape :: "string \<Rightarrow> string" where
  "html_escape [] = []"
| "html_escape (c # s) =
     (if html_special c then unicode_escape (byte_val c) @ html_escape s
      else if is_line_sep c s then unicode_escape (8192 + byte_val (s ! 1) - 128) @ html_escape (drop 2 s)
      else c # html_escape s)"
  by pat_completeness auto
termination by (relation "measure length") auto

fun html_token :: "token \<Rightarrow> token" where
  "html_token (StrTok b) = StrTok (html_escape b)"
| "html_token t = t"

fun json_tokens :: "json \<Rightarrow> token list" where
  "json_tokens JNull = [WordTok ''null'']"
| "json_tokens (JBool b) = [WordTok (if b then ''true'' else ''false'')]"
| "json_tokens (JInt n) = [NumTok (show_int n)]"
| "json_tokens (JFloat x) = (case x of Fin q \<Rightarrow> [NumTok (float_text q)] | _ \<Rightarrow> [])"
| "json_tokens (JStr s) = [StrTok (escape_string s)]"
| "json_tokens (JArr xs) = Punct (CHR ''['') # with_commas (map json_tokens xs) @ [Punct (CHR '']'')]"
| "json_tokens (JObj kvs) =
     Punct (CHR ''{'')
       # with_commas (map (\<lambda>(k, v). StrTok (escape_string k) # Punct (CHR '':'') # json_tokens v) kvs)
       @ [Punct (CHR ''}'')]"
| "json_tokens (JRaw s) = (case tokens s of None \<Rightarrow> [] | Some ts \<Rightarrow> map html_token ts)"

fun token_text :: "token \<Rightarrow> string" where
  "token_text (Punct c) = [c]"
| "token_text (StrTok b) = CHR 0x22 # b @ [CHR 0x22]"
| "token_text (NumTok t) = t"
| "token_text (WordTok w) = w"

text \<open>
  \<^verbatim>\<open>appendIndent\<close>: the white space before every token. \<open>pend\<close> is what the last one left behind,
  \<open>need\<close> says that an array or object was opened and the line break delayed in case it is empty.
\<close>

definition line_break :: "string \<Rightarrow> nat \<Rightarrow> string" where
  "line_break ind depth = CHR 0x0A # concat (replicate depth ind)"

fun layout :: "string \<Rightarrow> string \<Rightarrow> nat \<Rightarrow> bool \<Rightarrow> token list \<Rightarrow> (string \<times> token) list" where
  "layout ind pend depth need [] = []"
| "layout ind pend depth need (t # ts) =
     (if t = Punct (CHR ''}'') \<or> t = Punct (CHR '']'') then
        (if need then (pend, t) # layout ind [] depth False ts
         else (pend @ line_break ind (depth - 1), t) # layout ind [] (depth - 1) False ts)
      else
        let depth' = (if need then depth + 1 else depth);
            pre = (if need then pend @ line_break ind depth' else pend)
        in if t = Punct (CHR ''{'') \<or> t = Punct (CHR ''['') then (pre, t) # layout ind [] depth' True ts
           else if t = Punct (CHR '','') then (pre, t) # layout ind (line_break ind depth') depth' False ts
           else if t = Punct (CHR '':'') then (pre, t) # layout ind ('' '') depth' False ts
           else (pre, t) # layout ind [] depth' False ts)"

definition layout_text :: "(string \<times> token) list \<Rightarrow> string" where
  "layout_text l = concat (map (\<lambda>(w, t). w @ token_text t) l)"

definition compact_text :: "token list \<Rightarrow> string" where
  "compact_text ts = concat (map token_text ts)"

definition json_Marshal :: "json \<Rightarrow> err + string" where
  "json_Marshal j = (case json_error j of Some e \<Rightarrow> Inl e | None \<Rightarrow> Inr (compact_text (json_tokens j)))"

text \<open>\<^verbatim>\<open>MarshalIndent(v, "", "  ")\<close>, and an encoder with \<^verbatim>\<open>SetIndent("", "  ")\<close>, which ends the document with a newline.\<close>

definition json_MarshalIndent :: "json \<Rightarrow> err + string" where
  "json_MarshalIndent j =
     (case json_error j of Some e \<Rightarrow> Inl e | None \<Rightarrow> Inr (layout_text (layout ''  '' [] 0 False (json_tokens j))))"

definition json_EncodeIndent :: "json \<Rightarrow> err + string" where
  "json_EncodeIndent j = map_sum id (\<lambda>t. t @ [CHR 0x0A]) (json_MarshalIndent j)"

definition json_Unmarshal :: "string \<Rightarrow> err + json" where
  "json_Unmarshal s = (case json_parse s of None \<Rightarrow> Inl (External ''json: syntax error'') | Some j \<Rightarrow> Inr j)"

text \<open>The bytes of a piece of a response body: a document goes through \<^verbatim>\<open>Encoder.Encode\<close>.\<close>

definition chunk_text :: "chunk \<Rightarrow> string" where
  "chunk_text c = (case c of Bytes s \<Rightarrow> s | Doc j \<Rightarrow> (case json_Marshal j of Inl e \<Rightarrow> '''' | Inr t \<Rightarrow> t @ [CHR 0x0A]))"

subsection \<open>What is written reads back\<close>

text \<open>Hexadecimal digits and the escape of a rune.\<close>

lemma hex_value_digit: "k < 16 \<Longrightarrow> hex_value (hex_digit k) = Some k"
  by (auto simp: hex_value_def hex_digit_def of_char_of Let_def)

lemma getu4_escape: "r < 65536 \<Longrightarrow> getu4 (drop 2 (unicode_escape r) @ t) = Some r"
proof -
  assume r: "r < 65536"
  then have "r div 4096 < 16" by (simp add: less_mult_imp_div_less)
  moreover have "((r div 4096 * 16 + r div 256 mod 16) * 16 + r div 16 mod 16) * 16 + r mod 16 = r"
  proof -
    have "r div 256 = r div 16 div 16" "r div 4096 = r div 16 div 16 div 16" by (simp_all flip: div_mult2_eq)
    then show ?thesis by (simp only: div_mult_mod_eq)
  qed
  ultimately show ?thesis by (simp add: unicode_escape_def hex_value_digit)
qed

lemma hex_digit_plain: "k < 16 \<Longrightarrow> hex_digit k \<noteq> CHR 0x22 \<and> hex_digit k \<noteq> CHR 0x5C \<and> \<not> (of_char (hex_digit k) :: nat) < 32"
proof -
  assume k: "k < 16"
  have "(of_char (hex_digit k) :: nat) = (if k < 10 then 48 + k else 87 + k)"
    using k by (simp add: hex_digit_def of_char_of)
  then show ?thesis using k by (auto split: if_splits)
qed

lemma unquote_escape:
  assumes "r < 65536" and "\<not> (55296 \<le> r \<and> r < 57344)"
  shows "unquote (unicode_escape r @ t) = encode_rune r @ unquote t"
proof -
  obtain a b c d where u: "unicode_escape r = [CHR 0x5C, CHR ''u'', a, b, c, d]" by (simp add: unicode_escape_def)
  with getu4_escape [OF assms(1), of t] have "getu4 (a # b # c # d # t) = Some r" by simp
  then have "unquote (CHR 0x5C # CHR ''u'' # a # b # c # d # t) = encode_rune r @ unquote (drop 4 (a # b # c # d # t))"
    using assms(2) by (cases "55296 \<le> r") (simp_all add: unquote.simps(2) del: getu4.simps)
  then show ?thesis by (simp add: u eval_nat_numeral)
qed

lemma unquote_plain:
  assumes "c \<noteq> CHR 0x5C" and "rune_len (c # s) = Suc n" and "length (take n s) = n"
  shows "unquote (c # take n s @ t) = c # take n s @ unquote t"
  using assms rune_len_append [OF assms(2), of t] by (simp add: unquote.simps(2) del: rune_len.simps)

lemma unquote_escape_ascii:
  assumes "byte_val c < (128 :: nat)"
  shows "unquote (escape_ascii c @ t) = c # unquote t"
proof -
  consider "byte_val c \<in> {34, 92, 8, 12, 10, 13, 9 :: nat}" | "escape_ascii c = unicode_escape (byte_val c)"
    | "escape_ascii c = [c]" "c \<noteq> CHR 0x5C"
  proof -
    assume t1: "byte_val c \<in> {34, 92, 8, 12, 10, 13, 9 :: nat} \<Longrightarrow> thesis"
      and t2: "escape_ascii c = unicode_escape (byte_val c) \<Longrightarrow> thesis"
      and t3: "escape_ascii c = [c] \<Longrightarrow> c \<noteq> CHR 0x5C \<Longrightarrow> thesis"
    show thesis
    proof (cases "byte_val c \<in> {34, 92, 8, 12, 10, 13, 9 :: nat}")
      case True
      then show ?thesis by (rule t1)
    next
      case False
      then have "escape_ascii c = (if byte_val c < (32 :: nat) \<or> html_special c then unicode_escape (byte_val c) else [c])"
        by (simp add: escape_ascii_def)
      moreover have "c \<noteq> CHR 0x5C" using False by auto
      ultimately show ?thesis using t2 t3 by metis
    qed
  qed
  then show ?thesis
  proof cases
    case 1
    then have "c \<in> {CHR 0x22, CHR 0x5C, CHR 0x08, CHR 0x0C, CHR 0x0A, CHR 0x0D, CHR 0x09}"
      by (auto simp flip: of_char_eq_iff [where 'a = nat])
    then show ?thesis by (auto simp: escape_ascii_def unquote.simps(2) unescape_ascii_def)
  next
    case 2
    with assms show ?thesis by (simp add: unquote_escape encode_rune_def)
  next
    case 3
    with unquote_plain [of c "[]" 0 t] assms show ?thesis by simp
  qed
qed

lemma line_sep_runes:
  assumes "is_line_sep c s"
  obtains x where "c # s = [CHR 0xE2, CHR 0x80, x] @ drop 2 s" and "rune_len (c # s) = 3"
    and "unicode_escape (8192 + byte_val (s ! 1) - 128) = unicode_escape (8192 + byte_val x - 128)"
    and "encode_rune (8192 + byte_val x - 128) = [CHR 0xE2, CHR 0x80, x]" and "8192 + byte_val x - 128 < (55296 :: nat)"
proof -
  obtain x t where x: "c = CHR 0xE2" "s = CHR 0x80 # x # t" "x = CHR 0xA8 \<or> x = CHR 0xA9"
    using assms by (cases s; cases "tl s") (auto simp: is_line_sep_def)
  then have "encode_rune (8192 + byte_val x - 128) = [CHR 0xE2, CHR 0x80, x]"
    by (auto simp: encode_rune_def char_of_def bit_0)
  with x show thesis by (intro that [of x]) (auto simp: utf8_cont_def)
qed

theorem unquote_escape_string: "unquote (escape_string s) = to_valid s"
proof (induction s rule: escape_string.induct)
  case (2 c s)
  note IH = 2
  show ?case
  proof (cases "byte_val c < (128 :: nat)")
    case True
    with IH show ?thesis by (simp add: escape_string.simps(2) unquote_escape_ascii)
  next
    case F: False
    show ?thesis
    proof (cases "rune_len (c # s)")
      case 0
      have "encode_rune 65533 = rune_error" by (simp add: encode_rune_def rune_error_def char_of_def bit_0)
      with 0 F IH(2) [OF refl] show ?thesis by (simp add: escape_string.simps(2) unquote_escape del: rune_len.simps)
    next
      case (Suc n)
      then have n: "length (take n s) = n" using rune_len_le [of "c # s"] by simp
      show ?thesis
      proof (cases "is_line_sep c s")
        case True
        from line_sep_runes [OF True] obtain x where x: "c # s = [CHR 0xE2, CHR 0x80, x] @ drop 2 s" "rune_len (c # s) = 3"
          "unicode_escape (8192 + byte_val (s ! 1) - 128) = unicode_escape (8192 + byte_val x - 128)"
          "encode_rune (8192 + byte_val x - 128) = [CHR 0xE2, CHR 0x80, x]" "8192 + byte_val x - 128 < (55296 :: nat)" by blast
        have "take 2 s = [CHR 0x80, x]" "c = CHR 0xE2" using x(1) by (cases s; cases "tl s"; auto)+
        with x F True IH(3) [OF refl F _ True] show ?thesis
          by (simp add: escape_string.simps(2) unquote_escape del: rune_len.simps)
      next
        case False
        have "c \<noteq> CHR 0x5C" using F by auto
        with unquote_plain [OF this Suc n] Suc F False IH(4) [OF refl F _ False] show ?thesis
          by (simp add: escape_string.simps(2) del: rune_len.simps)
      qed
    qed
  qed
qed simp

text \<open>An escaped string is a body of the scanner: no quote, no bare control byte, every escape known.\<close>

definition body_extends :: "string \<Rightarrow> bool" where
  "body_extends b = (\<forall>t. string_body (b @ t) = map_option (map_prod ((@) b) id) (string_body t))"

lemma body_extendsD: "body_extends b \<Longrightarrow> string_body (b @ t) = map_option (map_prod ((@) b) id) (string_body t)"
  by (simp add: body_extends_def)

lemma body_extends_append: "body_extends a \<Longrightarrow> body_extends b \<Longrightarrow> body_extends (a @ b)"
proof -
  assume "body_extends a" and "body_extends b"
  then have "string_body ((a @ b) @ t) = map_option (map_prod ((@) (a @ b)) id) (string_body t)" for t
    by (cases "string_body t") (auto simp: body_extendsD)
  then show ?thesis by (simp add: body_extends_def)
qed

lemma body_extends_Nil [simp]: "body_extends []"
  by (auto simp: body_extends_def map_prod_def option.map_id)

lemma body_extends_Cons: "body_extends [c] \<Longrightarrow> body_extends s \<Longrightarrow> body_extends (c # s)"
  using body_extends_append [of "[c]" s] by simp

lemma body_extends_plain:
  assumes "c \<noteq> CHR 0x22" and "c \<noteq> CHR 0x5C" and "\<not> (byte_val c :: nat) < 32"
  shows "body_extends [c]"
  using assms by (simp add: body_extends_def map_prod_def)

lemma body_extends_high: "\<forall>x\<in>set s. 128 \<le> (byte_val x :: nat) \<Longrightarrow> body_extends s"
proof (induction s)
  case (Cons c s)
  then have "body_extends [c]" by (intro body_extends_plain) auto
  with Cons show ?case by (auto intro: body_extends_Cons)
qed simp

lemma body_extends_unicode:
  assumes "r < 65536"
  shows "body_extends (unicode_escape r)"
proof -
  define ds where "ds = [hex_digit (r div 4096), hex_digit (r div 256 mod 16), hex_digit (r div 16 mod 16), hex_digit (r mod 16)]"
  have u: "unicode_escape r = CHR 0x5C # CHR ''u'' # ds" by (simp add: unicode_escape_def ds_def)
  have "\<forall>d\<in>set ds. body_extends [d]"
    using assms hex_digit_plain by (auto simp: ds_def less_mult_imp_div_less intro!: body_extends_plain)
  then have "body_extends ds" by (simp add: ds_def body_extends_Cons)
  moreover have "getu4 (ds @ t) = Some r" for t using getu4_escape [OF assms, of t] by (simp add: u)
  ultimately have "string_body (unicode_escape r @ t) = map_option (map_prod ((@) (unicode_escape r)) id) (string_body t)" for t
    unfolding u by (cases "string_body t") (auto simp: body_extendsD)
  then show ?thesis by (simp add: body_extends_def)
qed

lemma body_extends_escape:
  assumes "c \<noteq> CHR ''u''" and "c \<in> set [CHR ''b'', CHR ''f'', CHR ''n'', CHR ''r'', CHR ''t'', CHR 0x5C, CHR ''/'', CHR 0x22]"
  shows "body_extends [CHR 0x5C, c]"
  using assms by (auto simp: body_extends_def map_prod_def)

lemma body_extends_escape_ascii: "byte_val c < (128 :: nat) \<Longrightarrow> body_extends (escape_ascii c)"
proof -
  assume c: "byte_val c < (128 :: nat)"
  have q: "byte_val c = (34 :: nat) \<Longrightarrow> c = CHR 0x22" "byte_val c = (92 :: nat) \<Longrightarrow> c = CHR 0x5C"
    by (auto simp flip: of_char_eq_iff [where 'a = nat])
  show ?thesis
    unfolding escape_ascii_def Let_def
    using c q by (auto intro!: body_extends_escape body_extends_unicode body_extends_plain split: if_splits)
qed

lemma body_extends_escape_string: "body_extends (escape_string s)"
proof (induction s rule: escape_string.induct)
  case (2 c s)
  show ?case
  proof (cases "byte_val c < (128 :: nat)")
    case True
    with 2 show ?thesis by (simp add: escape_string.simps(2) body_extends_append body_extends_escape_ascii)
  next
    case F: False
    show ?thesis
    proof (cases "rune_len (c # s)")
      case 0
      with F 2(2) [OF refl F] show ?thesis
        by (simp add: escape_string.simps(2) body_extends_append body_extends_unicode del: rune_len.simps)
    next
      case (Suc n)
      show ?thesis
      proof (cases "is_line_sep c s")
        case True
        from line_sep_runes [OF True] obtain x where x:
          "unicode_escape (8192 + byte_val (s ! 1) - 128) = unicode_escape (8192 + byte_val x - 128)"
          "8192 + byte_val x - 128 < (55296 :: nat)" by blast
        with F Suc True 2(3) [OF refl F _ True] show ?thesis
          by (simp add: escape_string.simps(2) body_extends_append body_extends_unicode del: rune_len.simps)
      next
        case False
        have "body_extends (c # take n s)" using rune_bytes [OF Suc] F by (intro body_extends_high) auto
        from body_extends_append [OF this, of "escape_string (drop n s)"] F Suc False 2(4) [OF refl F _ False] show ?thesis
          by (simp add: escape_string.simps(2) del: rune_len.simps)
      qed
    qed
  qed
qed simp

lemma string_body_escaped [simp]: "string_body (escape_string s @ CHR 0x22 # t) = Some (escape_string s, t)"
  by (simp add: body_extendsD [OF body_extends_escape_string])

text \<open>The tokens a writer may emit, and that each is scanned back from its text.\<close>

fun token_ok :: "token \<Rightarrow> bool" where
  "token_ok (Punct c) = (c \<in> set ''[]{}:,'')"
| "token_ok (StrTok b) = (\<forall>t. string_body (b @ CHR 0x22 # t) = Some (b, t))"
| "token_ok (NumTok s) = (\<exists>q. reads_as s q)"
| "token_ok (WordTok w) = (w \<in> {''true'', ''false'', ''null''})"

definition is_punct :: "token \<Rightarrow> bool" where
  "is_punct t = (\<exists>c. t = Punct c)"

lemma is_punct_simps [simp]: "is_punct (Punct c)"
  by (simp add: is_punct_def)

lemma scan_number_head:
  assumes "scan_number (c # s) \<noteq> None"
  shows "is_digit c \<or> c = CHR ''-''"
  using assms by (auto simp: scan_number_def scan_int_def is_digit_def Let_def split: if_splits)

lemma number_token:
  assumes "reads_as s q" and "ends_number r"
  obtains c s' d where "s = c # s'" and "is_digit c \<or> c = CHR ''-''" and "scan_number (s @ r) = Some (d, r)"
proof -
  obtain d where d: "scan_number (s @ r) = Some (d, r)" using assms by (auto simp: reads_as_def)
  have "ends_number []" by (simp add: ends_number_def)
  with assms(1) obtain d' where d': "scan_number s = Some (d', [])" by (auto simp: reads_as_def dest: spec [of _ "[]"])
  have "s \<noteq> []" using d' by (auto simp: scan_number_def scan_int_def)
  then obtain c s' where s: "s = c # s'" by (cases s) auto
  have "scan_number (c # s') \<noteq> None" using s d' by simp
  then have "is_digit c \<or> c = CHR ''-''" by (rule scan_number_head)
  then show thesis by (rule that [OF s _ d])
qed

lemma number_head_other:
  assumes "is_digit c \<or> c = CHR ''-''"
  shows "c \<notin> set ''[]{}:,''" and "c \<noteq> CHR 0x22" and "c \<noteq> CHR ''t''" and "c \<noteq> CHR ''f''" and "c \<noteq> CHR ''n''" and "\<not> json_space c"
  using assms by (auto simp: is_digit_def json_space_def)

lemma scan_token_text:
  assumes "token_ok t" and "is_punct t \<or> ends_number r"
  shows "scan_token (token_text t @ r) = Some (t, r)"
proof (cases t)
  case (NumTok s)
  with assms have r: "ends_number r" by (auto simp: is_punct_def)
  from assms(1) NumTok obtain q where "reads_as s q" by auto
  then obtain c s' d where s: "s = c # s'" "is_digit c \<or> c = CHR ''-''" "scan_number (s @ r) = Some (d, r)"
    using r by (rule number_token)
  with number_head_other [OF s(2)] NumTok show ?thesis by (simp del: list.set)
qed (use assms(1) in \<open>auto simp: scan_word_def\<close>)

lemma token_text_head:
  assumes "token_ok t"
  obtains c s where "token_text t = c # s" and "\<not> json_space c"
proof (cases t)
  case (NumTok n)
  with assms obtain q where "reads_as n q" by auto
  moreover have "ends_number []" by (simp add: ends_number_def)
  ultimately obtain c s' where "n = c # s'" "is_digit c \<or> c = CHR ''-''" by (rule number_token)
  with number_head_other(6) NumTok show ?thesis using that by simp
qed (use assms that in \<open>auto simp: json_space_def\<close>)

lemma tokens_space: "list_all json_space w \<Longrightarrow> tokens (w @ s) = tokens s"
proof -
  assume "list_all json_space w"
  then have "dropWhile json_space (w @ s) = dropWhile json_space s" by (induction w) auto
  then show ?thesis by (simp add: tokens.simps [of "w @ s"] tokens.simps [of s])
qed

lemma ends_number_layout:
  assumes "list_all (\<lambda>(w, t). list_all json_space w \<and> token_ok t) l" and "list_all json_space e"
    and "l \<noteq> [] \<Longrightarrow> is_punct (snd (hd l))"
  shows "ends_number (layout_text l @ e)"
proof -
  have sp: "ends_number (c # s)" if "json_space c" for c s using that by (auto simp: ends_number_def json_space_def is_digit_def)
  show ?thesis
  proof (cases l)
    case Nil
    with assms(2) sp show ?thesis by (cases e) (auto simp: layout_text_def ends_number_def)
  next
    case (Cons p l')
    then obtain w t where p: "p = (w, t)" "list_all json_space w" "token_ok t" "is_punct t" using assms by (cases p) auto
    show ?thesis
    proof (cases w)
      case Nil
      from p(3,4) obtain c where "t = Punct c" "c \<in> set ''[]{}:,''" by (auto simp: is_punct_def)
      then show ?thesis by (auto simp: Cons p(1) Nil layout_text_def ends_number_def is_digit_def)
    qed (use p sp in \<open>auto simp: Cons layout_text_def\<close>)
  qed
qed

lemma tokens_layout:
  assumes "list_all (\<lambda>(w, t). list_all json_space w \<and> token_ok t) l" and "list_all json_space e"
    and "successively (\<lambda>t u. is_punct t \<or> is_punct u) (map snd l)"
  shows "tokens (layout_text l @ e) = Some (map snd l)"
  using assms
proof (induction l)
  case Nil
  then have "dropWhile json_space e = []" by (auto simp: list_all_iff dropWhile_eq_Nil_conv)
  then have "tokens e = Some []" by (subst tokens.simps) (simp only: list.case)
  then show ?case by (simp add: layout_text_def)
next
  case (Cons p l)
  obtain w t where p: "p = (w, t)" by fastforce
  let ?r = "layout_text l @ e"
  have t: "token_ok t" and w: "list_all json_space w" using Cons.prems(1) p by auto
  have "is_punct t \<or> ends_number ?r"
  proof (cases "is_punct t")
    case False
    with Cons.prems(3) p have "l \<noteq> [] \<Longrightarrow> is_punct (snd (hd l))" by (cases l) auto
    with Cons.prems show ?thesis by (intro disjI2 ends_number_layout) auto
  qed simp
  then have st: "scan_token (token_text t @ ?r) = Some (t, ?r)" by (rule scan_token_text [OF t])
  obtain c s where c: "token_text t = c # s" "\<not> json_space c" by (rule token_text_head [OF t])
  have "tokens (c # s @ ?r) = map_option (Cons t) (tokens ?r)"
    using st c(2) by (subst tokens.simps) (simp add: c(1) del: scan_token.simps)
  then have "tokens (token_text t @ ?r) = map_option (Cons t) (tokens ?r)" by (simp add: c(1))
  moreover have "tokens ?r = Some (map snd l)"
    using Cons.prems by (intro Cons.IH) (auto simp: successively_Cons)
  moreover have "layout_text (p # l) @ e = w @ token_text t @ ?r" by (simp add: p layout_text_def)
  ultimately show ?case using tokens_space [OF w] by (simp add: p)
qed

text \<open>Both layouts put white space before the tokens, and change none.\<close>

lemma layout_tokens: "map snd (layout ind pend depth need ts) = ts"
  by (induction ts arbitrary: pend depth need) (simp_all add: Let_def)

lemma json_space_break: "list_all json_space ind \<Longrightarrow> list_all json_space (line_break ind depth)"
  by (induction depth) (simp_all add: line_break_def json_space_def)

lemma layout_spaces:
  "list_all json_space ind \<Longrightarrow> list_all json_space pend \<Longrightarrow> list_all (\<lambda>p. list_all json_space (fst p)) (layout ind pend depth need ts)"
proof (induction ts arbitrary: pend depth need)
  case (Cons t ts)
  note sp = json_space_break [OF Cons.prems(1)]
  have "list_all json_space '' ''" by (simp add: json_space_def)
  with Cons sp show ?case by (simp add: Let_def)
qed simp

lemma compact_layout: "compact_text ts = layout_text (map (Pair []) ts)"
  by (simp add: compact_text_def layout_text_def comp_def)

definition tokens_ok :: "token list \<Rightarrow> bool" where
  "tokens_ok ts = (list_all token_ok ts \<and> successively (\<lambda>t u. is_punct t \<or> is_punct u) ts)"

lemma tokens_compact:
  assumes "tokens_ok ts"
  shows "tokens (compact_text ts) = Some ts"
proof -
  have m: "map snd (map (Pair []) ts) = ts" by (simp add: comp_def)
  have "list_all (\<lambda>(w, t). list_all json_space w \<and> token_ok t) (map (Pair []) ts)"
    using assms by (auto simp: tokens_ok_def list_all_iff)
  from tokens_layout [OF this, of "[]", unfolded m] assms show ?thesis
    by (simp add: compact_layout tokens_ok_def)
qed

lemma tokens_indent:
  assumes "tokens_ok ts" and "list_all json_space ind" and "list_all json_space e"
  shows "tokens (layout_text (layout ind [] depth need ts) @ e) = Some ts"
proof -
  let ?l = "layout ind [] depth need ts"
  have "list_all token_ok (map snd ?l)" unfolding layout_tokens using assms(1) by (simp add: tokens_ok_def)
  with layout_spaces [OF assms(2), of "[]" depth need ts]
  have "list_all (\<lambda>(w, t). list_all json_space w \<and> token_ok t) ?l" by (auto simp: list_all_iff)
  from tokens_layout [OF this assms(3)] assms(1) show ?thesis unfolding layout_tokens by (simp add: tokens_ok_def)
qed

text \<open>The documents that have a text: floats are binary64 values, and there are no raw bytes.\<close>

fun json_plain :: "json \<Rightarrow> bool" where
  "json_plain (JFloat x) = (case x of Fin q \<Rightarrow> f64_round q = Fin q | _ \<Rightarrow> False)"
| "json_plain (JArr xs) = list_all json_plain xs"
| "json_plain (JObj kvs) = list_all (\<lambda>(k, v). json_plain v) kvs"
| "json_plain (JRaw s) = False"
| "json_plain _ = True"

lemma first_some_None: "first_some xs = None \<longleftrightarrow> (\<forall>x\<in>set xs. x = None)"
  by (induction xs rule: first_some.induct) auto

lemma json_plain_no_error: "json_plain j \<Longrightarrow> json_error j = None"
  by (induction j rule: json_plain.induct) (auto simp: first_some_None list_all_iff split: f64.splits)

lemma successively_comma:
  "successively P (x @ c # y) \<longleftrightarrow> successively P x \<and> successively P (c # y) \<and> (x \<noteq> [] \<longrightarrow> P (last x) c)"
  by (auto simp: successively_append_iff)

lemma tokens_ok_punct:
  assumes "tokens_ok x" and "tokens_ok y" and "c \<in> set ''[]{}:,''"
  shows "tokens_ok (x @ Punct c # y)"
  using assms unfolding tokens_ok_def successively_comma by (auto simp: successively_Cons)

lemma tokens_ok_Nil [simp]: "tokens_ok []"
  by (simp add: tokens_ok_def)

lemma tokens_ok_single [simp]: "tokens_ok [t] = token_ok t"
  by (simp add: tokens_ok_def)

lemma tokens_ok_commas: "\<forall>x\<in>set xs. tokens_ok x \<Longrightarrow> tokens_ok (with_commas xs)"
  by (induction xs rule: with_commas.induct) (auto intro!: tokens_ok_punct)

lemma token_ok_string [simp]: "token_ok (StrTok (escape_string s))"
  by simp

lemma show_int_sign: "show_int n = sign_text (n < 0) @ nat_digits (nat \<bar>n\<bar>)"
  by (simp add: show_int_def sign_text_def)

lemma scan_show_int:
  assumes "ends_number r"
  shows "scan_number (show_int n @ r) = Some ((n < 0, nat_digits (nat \<bar>n\<bar>), None, None), r)"
proof -
  have "digit_string (nat_digits (nat \<bar>n\<bar>))" using nat_digits_spec by (simp add: digit_string_def)
  moreover have "hd (nat_digits (nat \<bar>n\<bar>)) \<noteq> CHR ''0'' \<or> nat_digits (nat \<bar>n\<bar>) = ''0''"
    using nat_digits_head [of "nat \<bar>n\<bar>"] by (cases "n = 0") (auto simp: nat_digits.simps [of 0])
  ultimately show ?thesis using scan_integer assms by (simp add: show_int_sign)
qed

lemma reads_show_int: "reads_as (show_int n) (of_int n)"
  using nat_digits_spec by (auto simp: reads_as_def scan_show_int)

lemma tokens_ok_json: "json_plain j \<Longrightarrow> tokens_ok (json_tokens j)"
proof (induction j rule: json_tokens.induct)
  case (3 n)
  then show ?case using reads_show_int by auto
next
  case (4 x)
  then show ?case using float_text_reads by (fastforce split: f64.splits)
next
  case (6 xs)
  then have "tokens_ok (with_commas (map json_tokens xs))" by (intro tokens_ok_commas) (auto simp: list_all_iff)
  then have "tokens_ok (with_commas (map json_tokens xs) @ [Punct (CHR '']'')])" by (intro tokens_ok_punct) auto
  then show ?case using tokens_ok_punct [of "[]" _ "CHR ''[''"] by simp
next
  case (7 kvs)
  have "tokens_ok (StrTok (escape_string k) # Punct (CHR '':'') # json_tokens v)" if "(k, v) \<in> set kvs" for k v
  proof -
    have "json_plain v" using "7.prems" that by (auto simp: list_all_iff)
    then have "tokens_ok (json_tokens v)" using "7.IH" that by blast
    then show ?thesis using tokens_ok_punct [of "[StrTok (escape_string k)]" "json_tokens v" "CHR '':''"] by simp
  qed
  then have "tokens_ok (with_commas (map (\<lambda>(k, v). StrTok (escape_string k) # Punct (CHR '':'') # json_tokens v) kvs))"
    by (intro tokens_ok_commas) auto
  then have "tokens_ok (with_commas (map (\<lambda>(k, v). StrTok (escape_string k) # Punct (CHR '':'') # json_tokens v) kvs) @ [Punct (CHR ''}'')])"
    by (intro tokens_ok_punct) auto
  then show ?case using tokens_ok_punct [of "[]" _ "CHR ''{''"] by simp
qed simp_all

text \<open>
  What a document comes back as: strings with U+FFFD for the bytes that are no rune, and a float
  whose text has neither fraction nor exponent as an integer, which decodes to the same float.
\<close>

fun json_norm :: "json \<Rightarrow> json" where
  "json_norm (JFloat x) = (case x of Fin q \<Rightarrow> number_value (float_text q) | _ \<Rightarrow> JFloat x)"
| "json_norm (JStr s) = JStr (to_valid s)"
| "json_norm (JArr xs) = JArr (map json_norm xs)"
| "json_norm (JObj kvs) = JObj (map (\<lambda>(k, v). (to_valid k, json_norm v)) kvs)"
| "json_norm j = j"

fun json_depth :: "json \<Rightarrow> nat" where
  "json_depth (JArr xs) = Suc (foldr max (map json_depth xs) 0)"
| "json_depth (JObj kvs) = Suc (foldr max (map (\<lambda>(k, v). json_depth v) kvs) 0)"
| "json_depth _ = 0"

lemma foldr_max_ge: "n \<in> set ns \<Longrightarrow> n \<le> foldr max ns (0 :: nat)"
  by (induction ns) auto

lemma number_value_int: "number_value (show_int n) = JInt n"
proof -
  have "scan_number (show_int n @ []) = Some ((n < 0, nat_digits (nat \<bar>n\<bar>), None, None), [])"
    by (rule scan_show_int) (simp add: ends_number_def)
  moreover have "\<lfloor>decimal_value (n < 0, nat_digits (nat \<bar>n\<bar>), None, None)\<rfloor> = n"
    using nat_digits_spec by simp
  ultimately show ?thesis by (simp add: number_value_def is_integer_literal_def del: decimal_value.simps)
qed

lemma dec_float_number:
  assumes "f64_round q = Fin q"
  shows "dec_float (number_value (float_text q)) = Some (Fin q)"
proof -
  obtain q' where q': "reads_as (float_text q) q'" "f64_round q' = Fin q" using float_text_reads [OF assms] by blast
  have "ends_number []" by (simp add: ends_number_def)
  with q'(1) obtain d where d: "scan_number (float_text q) = Some (d, [])" "decimal_value d = q'"
    by (auto simp: reads_as_def dest: spec [of _ "[]"])
  show ?thesis
  proof (cases "is_integer_literal d")
    case True
    then have "\<exists>k. decimal_value d = of_int k"
      by (cases d) (auto simp: is_integer_literal_def intro: exI [of _ "- int _"] exI [of _ "int _"] split: if_splits)
    then obtain k where "q' = of_int k" using d(2) by blast
    with True d q'(2) show ?thesis by (simp add: number_value_def f64_of_int_def)
  next
    case False
    with d q'(2) show ?thesis by (simp add: number_value_def)
  qed
qed

text \<open>A value, its elements and its members take the scanner from before them to after them.\<close>

definition parses_in :: "json \<Rightarrow> nat \<Rightarrow> bool" where
  "parses_in v n = (\<forall>b outer ts. length outer \<le> n \<longrightarrow>
     scan_tokens (json_tokens v @ ts) (BeginValue b outer) = scan_tokens ts (AfterValue (json_norm v) outer))"

lemma parses_inD:
  "parses_in v n \<Longrightarrow> length outer \<le> n \<Longrightarrow>
     scan_tokens (json_tokens v @ ts) (BeginValue b outer) = scan_tokens ts (AfterValue (json_norm v) outer)"
  by (simp add: parses_in_def)

lemma parses_in_mono: "parses_in v n \<Longrightarrow> m \<le> n \<Longrightarrow> parses_in v m"
  by (simp add: parses_in_def)

lemma scan_elements:
  assumes "\<forall>v\<in>set (x # xs). parses_in v (Suc (length outer))"
  shows "scan_tokens (with_commas (map json_tokens (x # xs)) @ Punct (CHR '']'') # ts) (BeginValue b (InArray vs # outer))
    = scan_tokens ts (AfterValue (JArr (vs @ map json_norm (x # xs))) outer)"
  using assms
proof (induction xs arbitrary: x b vs)
  case Nil
  then show ?case using parses_inD [of x "Suc (length outer)" "InArray vs # outer"] by simp
next
  case (Cons y ys)
  have "parses_in x (Suc (length outer))" using Cons.prems by simp
  from parses_inD [OF this, of "InArray vs # outer"] Cons.prems Cons.IH [of y False "vs @ [json_norm x]"]
  show ?case by simp
qed

lemma scan_members:
  assumes "\<forall>(k, v)\<in>set ((k, x) # kvs). parses_in v (Suc (length outer))"
  shows "scan_tokens (with_commas (map (\<lambda>(k, v). StrTok (escape_string k) # Punct (CHR '':'') # json_tokens v) ((k, x) # kvs))
      @ Punct (CHR ''}'') # ts) (BeginKey b ms outer)
    = scan_tokens ts (AfterValue (JObj (ms @ map (\<lambda>(k, v). (to_valid k, json_norm v)) ((k, x) # kvs))) outer)"
  using assms
proof (induction kvs arbitrary: k x b ms)
  case Nil
  then show ?case
    using parses_inD [of x "Suc (length outer)" "InObject ms (to_valid k) # outer"] by (simp add: unquote_escape_string)
next
  case (Cons p kvs)
  obtain k' x' where p: "p = (k', x')" by fastforce
  have "parses_in x (Suc (length outer))" using Cons.prems by simp
  from parses_inD [OF this, of "InObject ms (to_valid k) # outer"] Cons.prems Cons.IH [of k' x' False "ms @ [(to_valid k, json_norm x)]"]
  show ?case by (simp add: p unquote_escape_string)
qed

lemma json_parses:
  assumes "json_plain j" and "n + json_depth j \<le> maxNestingDepth"
  shows "parses_in j n"
  using assms
proof (induction j arbitrary: n rule: json_tokens.induct)
  case (3 i)
  show ?case by (simp add: parses_in_def number_value_int)
next
  case (4 x)
  then show ?case by (auto simp: parses_in_def split: f64.splits)
next
  case (5 s)
  show ?case by (simp add: parses_in_def unquote_escape_string)
next
  case (6 xs)
  have "parses_in v (Suc n)" if v: "v \<in> set xs" for v
  proof -
    have "json_depth v \<le> foldr max (map json_depth xs) 0"
      using v by (intro foldr_max_ge) simp
    with "6.IH" [OF v, of "Suc n"] "6.prems" v show ?thesis by (auto simp: list_all_iff)
  qed
  then have el: "\<forall>v\<in>set xs. parses_in v (Suc (length outer))" if "length outer \<le> n" for outer
    using that by (auto simp: parses_in_def)
  have deep: "length outer < maxNestingDepth" if "length outer \<le> n" for outer :: "frame list" using "6.prems"(2) that by simp
  show ?case
    unfolding parses_in_def
  proof (intro allI impI)
    fix b ts and outer :: "frame list"
    assume le: "length outer \<le> n"
    show "scan_tokens (json_tokens (JArr xs) @ ts) (BeginValue b outer) = scan_tokens ts (AfterValue (json_norm (JArr xs)) outer)"
    proof (cases xs)
      case (Cons v vs)
      then show ?thesis using scan_elements [of v vs outer ts True "[]"] el [OF le] deep [OF le] by simp
    qed (use deep [OF le] in simp)
  qed
next
  case (7 kvs)
  have p: "parses_in v (Suc n)" if kv: "(k, v) \<in> set kvs" for k v
  proof -
    have "json_depth v \<in> set (map (\<lambda>(k, v). json_depth v) kvs)" using kv by force
    then have "json_depth v \<le> foldr max (map (\<lambda>(k, v). json_depth v) kvs) 0"
      by (rule foldr_max_ge)
    moreover have "json_plain v" using "7.prems"(1) kv by (auto simp: list_all_iff)
    ultimately show ?thesis using "7.IH" [OF kv refl, of "Suc n"] "7.prems"(2) by simp
  qed
  have el: "\<forall>(k, v)\<in>set kvs. parses_in v (Suc (length outer))" if "length outer \<le> n" for outer
    using that by (auto intro: parses_in_mono [OF p])
  have deep: "length outer < maxNestingDepth" if "length outer \<le> n" for outer :: "frame list" using "7.prems"(2) that by simp
  show ?case
    unfolding parses_in_def
  proof (intro allI impI)
    fix b ts and outer :: "frame list"
    assume le: "length outer \<le> n"
    show "scan_tokens (json_tokens (JObj kvs) @ ts) (BeginValue b outer) = scan_tokens ts (AfterValue (json_norm (JObj kvs)) outer)"
    proof (cases kvs)
      case (Cons p kvs')
      then show ?thesis using scan_members [of "fst p" "snd p" kvs' outer ts True "[]"] el [OF le] deep [OF le] by (cases p) simp
    qed (use deep [OF le] in simp)
  qed
qed (auto simp: parses_in_def)

lemma parse_tokens_json:
  assumes "json_plain j" and "json_depth j \<le> maxNestingDepth"
  shows "parse_tokens (json_tokens j) = Some (json_norm j)"
  using parses_inD [OF json_parses [of j 0], of "[]" "[]" False] assms by (simp add: parse_tokens_def)

theorem json_roundtrip:
  assumes "json_plain j" and "json_depth j \<le> maxNestingDepth"
  shows "\<exists>t. json_Marshal j = Inr t \<and> json_Unmarshal t = Inr (json_norm j)"
    and "\<exists>t. json_MarshalIndent j = Inr t \<and> json_Unmarshal t = Inr (json_norm j)"
    and "\<exists>t. json_EncodeIndent j = Inr t \<and> json_Unmarshal t = Inr (json_norm j)"
proof -
  note ok = tokens_ok_json [OF assms(1)] and ne = json_plain_no_error [OF assms(1)] and p = parse_tokens_json [OF assms]
  have sp: "list_all json_space ''  ''" "list_all json_space [CHR 0x0A]" by (simp_all add: json_space_def)
  show "\<exists>t. json_Marshal j = Inr t \<and> json_Unmarshal t = Inr (json_norm j)"
    using tokens_compact [OF ok] ne p by (simp add: json_Marshal_def json_Unmarshal_def json_parse_def)
  show "\<exists>t. json_MarshalIndent j = Inr t \<and> json_Unmarshal t = Inr (json_norm j)"
    using tokens_indent [OF ok sp(1), of "[]" 0 False] ne p by (simp add: json_MarshalIndent_def json_Unmarshal_def json_parse_def)
  show "\<exists>t. json_EncodeIndent j = Inr t \<and> json_Unmarshal t = Inr (json_norm j)"
    using tokens_indent [OF ok sp, of 0 False] ne p
    by (simp add: json_EncodeIndent_def json_MarshalIndent_def json_Unmarshal_def json_parse_def)
qed

subsection \<open>What is read is well formed\<close>

text \<open>A document of the parser has binary64 floats and strings in UTF-8, so writing it and reading it again loses nothing.\<close>

definition is_binary64 :: "f64 \<Rightarrow> bool" where
  "is_binary64 x = (case x of Fin q \<Rightarrow> f64_round q = Fin q | _ \<Rightarrow> True)"

lemma is_binary64_round [simp]: "is_binary64 (f64_round x)"
  by (auto simp: is_binary64_def f64_round_idem split: f64.split)

fun json_wf :: "json \<Rightarrow> bool" where
  "json_wf (JFloat x) = is_binary64 x"
| "json_wf (JStr s) = valid_utf8 s"
| "json_wf (JArr xs) = list_all json_wf xs"
| "json_wf (JObj kvs) = list_all (\<lambda>(k, v). valid_utf8 k \<and> json_wf v) kvs"
| "json_wf (JRaw s) = False"
| "json_wf _ = True"

lemma getu4_less: "getu4 s = Some r \<Longrightarrow> r < 65536"
proof (induction s rule: getu4.induct)
  case (1 a b c d s)
  have h: "hex_value x = Some n \<Longrightarrow> n < 16" for x n by (auto simp: hex_value_def Let_def split: if_splits)
  from 1 obtain i j k l where v: "hex_value a = Some i" "hex_value b = Some j" "hex_value c = Some k" "hex_value d = Some l"
    and r: "r = ((i * 16 + j) * 16 + k) * 16 + l" by (auto split: option.splits)
  have "i * 16 + j < 256" using h [OF v(1)] h [OF v(2)] by simp
  then have "(i * 16 + j) * 16 + k < 4096" using h [OF v(3)] by simp
  then show ?case unfolding r using h [OF v(4)] by simp
qed simp_all

lemma unescape_ascii_less: "byte_val d < (128 :: nat) \<Longrightarrow> byte_val (unescape_ascii d) < (128 :: nat)"
  by (simp add: unescape_ascii_def)

text \<open>Bodies that the scanner has passed have no escape but the known ones, all ASCII.\<close>

definition body_ok :: "string \<Rightarrow> bool" where
  "body_ok b = (\<exists>s r. string_body s = Some (b, r))"

lemma body_ok_escape:
  assumes "body_ok (CHR 0x5C # d # b)"
  shows "byte_val d < (128 :: nat)" and "body_ok b"
proof -
  obtain s r where "string_body s = Some (CHR 0x5C # d # b, r)" using assms by (auto simp: body_ok_def)
  then have "byte_val d < (128 :: nat) \<and> (\<exists>t. string_body t = Some (b, r))"
    by (cases s) (auto split: if_splits list.splits)
  then show "byte_val d < (128 :: nat)" "body_ok b" by (auto simp: body_ok_def)
qed

lemma body_ok_tail: "body_ok (c # b) \<Longrightarrow> c \<noteq> CHR 0x5C \<Longrightarrow> body_ok b"
  unfolding body_ok_def
proof (elim exE)
  fix s r
  assume "string_body s = Some (c # b, r)" and "c \<noteq> CHR 0x5C"
  then show "\<exists>s r. string_body s = Some (b, r)" by (cases s) (auto split: if_splits list.splits)
qed


lemma getu4_digits:
  assumes "getu4 s = Some r"
  obtains a b c d t where "s = a # b # c # d # t" and "CHR 0x5C \<notin> {a, b, c, d}"
proof -
  have n: "hex_value (CHR 0x5C) = None" by (simp add: hex_value_def)
  from assms obtain a b c d t where s: "s = a # b # c # d # t" by (cases s rule: getu4.cases) auto
  with assms have "hex_value a \<noteq> None" "hex_value b \<noteq> None" "hex_value c \<noteq> None" "hex_value d \<noteq> None"
    by (auto split: option.splits)
  with n have "CHR 0x5C \<notin> {a, b, c, d}" by auto
  with s show thesis by (rule that)
qed

lemma body_ok_digits:
  assumes "body_ok s" and "getu4 s = Some r"
  shows "body_ok (drop 4 s)"
proof -
  from getu4_digits [OF assms(2)] obtain a b c d t where s: "s = a # b # c # d # t" "CHR 0x5C \<notin> {a, b, c, d}" .
  then have "body_ok t" using assms(1) by (auto dest!: body_ok_tail)
  then show ?thesis by (simp add: s)
qed

lemma body_ok_append: "body_ok (p @ t) \<Longrightarrow> \<forall>x\<in>set p. x \<noteq> CHR 0x5C \<Longrightarrow> body_ok t"
  by (induction p) (auto dest: body_ok_tail)

text \<open>The cases of an escape \<^verbatim>\<open>\u\<close>: a rune, a pair of surrogates, or one alone.\<close>

lemma unquote_u_cases:
  assumes "body_ok (CHR 0x5C # CHR ''u'' # s)" and "getu4 s = Some r"
  obtains x t where "unquote (CHR 0x5C # CHR ''u'' # s) = x @ unquote t" and "body_ok t" and "length t \<le> length s"
    and "x = rune_error \<or> (\<exists>n. x = encode_rune n \<and> n < 1114112 \<and> \<not> (55296 \<le> n \<and> n < 57344))"
proof -
  have ok: "body_ok s" using body_ok_escape(2) [OF assms(1)] .
  have ok4: "body_ok (drop 4 s)" by (rule body_ok_digits [OF ok assms(2)])
  have r: "r < 65536" by (rule getu4_less [OF assms(2)])
  let ?r' = "if take 2 (drop 4 s) = [CHR 0x5C, CHR ''u''] then getu4 (drop 6 s) else None"
  show thesis
  proof (cases "55296 \<le> r \<and> r < 57344")
    case False
    then have "unquote (CHR 0x5C # CHR ''u'' # s) = encode_rune r @ unquote (drop 4 s)"
      using assms(2) by (cases "55296 \<le> r") (simp_all add: unquote.simps(2))
    moreover have "\<exists>n. encode_rune r = encode_rune n \<and> n < 1114112 \<and> \<not> (55296 \<le> n \<and> n < 57344)"
      using r False by (intro exI [of _ r]) auto
    ultimately show thesis using that [OF _ ok4] by simp
  next
    case sur: True
    show thesis
    proof (cases ?r')
      case None
      then have "unquote (CHR 0x5C # CHR ''u'' # s) = rune_error @ unquote (drop 4 s)"
        using sur assms(2) by (simp add: unquote.simps(2))
      then show thesis using that [OF _ ok4] by auto
    next
      case (Some r')
      then have t: "take 2 (drop 4 s) = [CHR 0x5C, CHR ''u'']" "getu4 (drop 6 s) = Some r'" by (auto split: if_splits)
      have "drop 4 s = take 2 (drop 4 s) @ drop 2 (drop 4 s)" by (rule append_take_drop_id [symmetric])
      then have "drop 4 s = CHR 0x5C # CHR ''u'' # drop 6 s" using t(1) by simp
      then have "body_ok (drop 6 s)" using ok4 body_ok_escape(2) by metis
      then have ok10: "body_ok (drop 10 s)" using body_ok_digits [OF _ t(2)] by simp
      let ?n = "(r - 55296) * 1024 + (r' - 56320) + 65536"
      have "unquote (CHR 0x5C # CHR ''u'' # s)
          = (if r < 56320 \<and> 56320 \<le> r' \<and> r' < 57344 then encode_rune ?n @ unquote (drop 10 s) else rune_error @ unquote (drop 4 s))"
        using sur assms(2) Some by (simp add: unquote.simps(2))
      moreover have "\<exists>n. encode_rune ?n = encode_rune n \<and> n < 1114112 \<and> \<not> (55296 \<le> n \<and> n < 57344)"
        if "r < 56320" "r' < 57344" using sur that by (intro exI [of _ ?n]) simp
      ultimately show thesis
        using that [OF _ ok4, of rune_error] that [OF _ ok10, of "encode_rune ?n"]
        by (cases "r < 56320 \<and> 56320 \<le> r' \<and> r' < 57344") simp_all
    qed
  qed
qed

theorem unquote_valid: "body_ok b \<Longrightarrow> to_valid (unquote b) = unquote b"
proof (induction b rule: length_induct)
  case (1 b)
  have IH: "to_valid (unquote t) = unquote t" if "length t < length b" "body_ok t" for t using 1 that by blast
  show ?case
  proof (cases b)
    case b: (Cons c s)
    show ?thesis
    proof (cases "c = CHR 0x5C")
      case esc: True
      show ?thesis
      proof (cases s)
        case s: (Cons d s')
        have okb: "body_ok (CHR 0x5C # d # s')" using 1(2) by (simp add: b esc s)
        note ok = body_ok_escape [OF okb]
        show ?thesis
        proof (cases "d = CHR ''u''")
          case False
          then show ?thesis using IH [of s'] ok(2) unescape_ascii_less [OF ok(1)]
            by (simp add: b esc s unquote.simps(2))
        next
          case u: True
          show ?thesis
          proof (cases "getu4 s'")
            case (Some r)
            obtain x t where x: "unquote b = x @ unquote t" "body_ok t" "length t \<le> length s'"
              "x = rune_error \<or> (\<exists>n. x = encode_rune n \<and> n < 1114112 \<and> \<not> (55296 \<le> n \<and> n < 57344))"
              using unquote_u_cases [OF okb [unfolded u] Some] by (metis b esc s u)
            with IH [of t] show ?thesis by (auto simp: b s to_valid_encode_rune to_valid_rune_error)
          qed (simp add: b esc s u unquote.simps(2))
        qed
      qed (simp add: b esc unquote.simps(2))
    next
      case False
      have oks: "body_ok s" using 1(2) False by (auto simp: b dest: body_ok_tail)
      show ?thesis
      proof (cases "rune_len (c # s)")
        case 0
        with IH [of s] oks False show ?thesis by (simp add: b unquote.simps(2) to_valid_rune_error del: rune_len.simps)
      next
        case (Suc n)
        have n: "length (take n s) = n" using Suc rune_len_le [of "c # s"] by simp
        have "\<forall>x\<in>set (take n s). x \<noteq> CHR 0x5C"
        proof (cases "byte_val c < (128 :: nat)")
          case True
          with Suc show ?thesis by simp
        next
          case False
          with rune_bytes [OF Suc] show ?thesis by auto
        qed
        then have "body_ok (drop n s)" using body_ok_append [of "take n s" "drop n s"] oks by simp
        then have "to_valid (unquote (drop n s)) = unquote (drop n s)" using b by (intro IH) auto
        then show ?thesis using False Suc n rune_len_append [OF Suc, of "unquote (drop n s)"]
          by (simp add: b unquote.simps(2) del: rune_len.simps)
      qed
    qed
  qed simp
qed


definition token_wf :: "token \<Rightarrow> bool" where
  "token_wf t = (\<forall>b. t = StrTok b \<longrightarrow> body_ok b)"

lemma scan_token_wf: "scan_token s = Some (t, r) \<Longrightarrow> token_wf t"
  by (cases s) (auto simp: token_wf_def body_ok_def scan_word_def split: if_splits)

lemma tokens_wf: "tokens s = Some ts \<Longrightarrow> list_all token_wf ts"
proof (induction s arbitrary: ts rule: tokens.induct)
  case (1 s)
  show ?case
  proof (cases "dropWhile json_space s")
    case Nil
    with "1.prems" show ?thesis by (simp add: tokens.simps [of s])
  next
    case (Cons c s')
    with "1.prems" obtain t r us where t: "scan_token (c # s') = Some (t, r)" "tokens r = Some us" "ts = t # us"
      by (auto simp: tokens.simps [of s] simp del: scan_token.simps split: option.splits)
    with "1.IH" [OF Cons t(1) refl] scan_token_wf [OF t(1)] show ?thesis by simp
  qed
qed

fun frame_wf :: "frame \<Rightarrow> bool" where
  "frame_wf (InArray vs) = list_all json_wf vs"
| "frame_wf (InObject kvs k) = (valid_utf8 k \<and> json_wf (JObj kvs))"

fun mode_wf :: "scan_mode \<Rightarrow> bool" where
  "mode_wf (BeginValue b fs) = list_all frame_wf fs"
| "mode_wf (BeginKey b kvs fs) = (json_wf (JObj kvs) \<and> list_all frame_wf fs)"
| "mode_wf (AfterKey kvs k fs) = (valid_utf8 k \<and> json_wf (JObj kvs) \<and> list_all frame_wf fs)"
| "mode_wf (AfterValue v fs) = (json_wf v \<and> list_all frame_wf fs)"

lemma literal_value_wf: "token_wf t \<Longrightarrow> literal_value t = Some v \<Longrightarrow> json_wf v"
  by (cases t) (auto simp: token_wf_def valid_utf8_def unquote_valid number_value_def split: option.splits)

lemma scan_step_wf: "scan_step t m = Some m' \<Longrightarrow> token_wf t \<Longrightarrow> mode_wf m \<Longrightarrow> mode_wf m'"
proof (induction t m rule: scan_step.induct)
  case (1 t b fs)
  show ?case
  proof (cases "literal_value t")
    case (Some v)
    with 1 literal_value_wf [OF "1.prems"(2) Some] show ?thesis by auto
  next
    case None
    with 1 show ?thesis by (cases fs) (auto split: if_splits)
  qed
next
  case (2 t b kvs fs)
  then show ?case by (cases t) (auto simp: token_wf_def valid_utf8_def unquote_valid split: if_splits)
qed (auto split: if_splits)

lemma scan_tokens_wf: "scan_tokens ts m = Some m' \<Longrightarrow> list_all token_wf ts \<Longrightarrow> mode_wf m \<Longrightarrow> mode_wf m'"
  by (induction ts arbitrary: m) (auto simp: bind_eq_Some_conv dest: scan_step_wf)

theorem json_parse_wf: "json_parse s = Some j \<Longrightarrow> json_wf j"
proof -
  assume "json_parse s = Some j"
  then obtain ts where "tokens s = Some ts" "parse_tokens ts = Some j"
    by (auto simp: json_parse_def bind_eq_Some_conv)
  moreover from this(2) have "scan_tokens ts (BeginValue False []) = Some (AfterValue j [])"
    by (simp add: parse_tokens_def split: option.splits scan_mode.splits list.splits)
  ultimately have ts: "tokens s = Some ts" "scan_tokens ts (BeginValue False []) = Some (AfterValue j [])" by blast+
  from scan_tokens_wf [OF ts(2) tokens_wf [OF ts(1)]] show ?thesis by simp
qed

end
