(* ===== verification/Cli_Commands.thy ===== *)
theory Cli_Commands
  imports Role_Run Go_Json
begin

text \<open>
  The command line of \<^verbatim>\<open>spt\<close> (\<^verbatim>\<open>internal/app/cli\<close>): the root command with its persistent flags and
  its pre-run, the command tree, \<^verbatim>\<open>spt version\<close> and the hidden \<^verbatim>\<open>spt gen-docs\<close>. Parsing the
  command line is cobra's: a definition gets the flag values and \<open>changed\<close>, which tells the
  flags the user typed.
\<close>

record BuildInfo =
  Build_Version :: string
  Build_Commit :: string
  Build_Date :: string

record rootFlags =
  RFlag_logFormat :: string
  RFlag_logLevel :: string
  RFlag_adminAddr :: string
  RFlag_ebayAppID :: string
  RFlag_ebayCertID :: string
  RFlag_postgresDSN :: string
  RFlag_valkeyAddr :: string
  RFlag_meiliURL :: string

text \<open>The flag values before parsing, and the two flags that go straight to the configuration.\<close>

definition bindRootFlags :: "rootFlags \<times> string list \<times> string" where
  "bindRootFlags =
     (\<lparr>RFlag_logFormat = ''auto'', RFlag_logLevel = ''info'', RFlag_adminAddr = '':9090'', RFlag_ebayAppID = '''',
       RFlag_ebayCertID = '''', RFlag_postgresDSN = '''', RFlag_valkeyAddr = '''', RFlag_meiliURL = ''''\<rparr>, [], '''')"

definition no_overrides :: FlagOverrides where
  "no_overrides =
     \<lparr>Flag_LogFormat = '''', Flag_LogLevel = '''', Flag_AdminAddr = '''', Flag_EbayAppID = '''',
      Flag_EbayCertID = '''', Flag_PostgresDSN = '''', Flag_ValkeyAddr = '''', Flag_MeiliURL = ''''\<rparr>"

definition overridesFrom :: "(string \<Rightarrow> bool) \<Rightarrow> rootFlags \<Rightarrow> FlagOverrides" where
  "overridesFrom changed flags =
     (let o' = no_overrides;
          o' = (if changed ''log-format'' then o'\<lparr>Flag_LogFormat := RFlag_logFormat flags\<rparr> else o');
          o' = (if changed ''log-level'' then o'\<lparr>Flag_LogLevel := RFlag_logLevel flags\<rparr> else o');
          o' = (if changed ''admin-addr'' then o'\<lparr>Flag_AdminAddr := RFlag_adminAddr flags\<rparr> else o');
          o' = (if changed ''ebay-app-id'' then o'\<lparr>Flag_EbayAppID := RFlag_ebayAppID flags\<rparr> else o');
          o' = (if changed ''ebay-cert-id'' then o'\<lparr>Flag_EbayCertID := RFlag_ebayCertID flags\<rparr> else o');
          o' = (if changed ''postgres-dsn'' then o'\<lparr>Flag_PostgresDSN := RFlag_postgresDSN flags\<rparr> else o');
          o' = (if changed ''valkey-addr'' then o'\<lparr>Flag_ValkeyAddr := RFlag_valkeyAddr flags\<rparr> else o')
      in if changed ''meili-url'' then o'\<lparr>Flag_MeiliURL := RFlag_meiliURL flags\<rparr> else o')"

definition installSlog :: "(nat \<Rightarrow> bool) \<Rightarrow> string \<Rightarrow> string \<Rightarrow> Logger option \<Rightarrow> err option \<times> Logger option" where
  "installSlog is_tty format level slog_default =
     (case NewLogger is_tty (File 2) format level of
        Inl e \<Rightarrow> (Some (Errorf ''cli: install slog: %w'' [ArgErr e]), slog_default)
      | Inr logger \<Rightarrow> (None, Some logger))"

text \<open>
  The root's \<^verbatim>\<open>PersistentPreRunE\<close> on the shared configuration \<open>cfg\<close>, whose two path fields the
  flags have set; with it the process's default logger.
\<close>

definition root_PersistentPreRunE :: "'b host \<Rightarrow> (nat \<Rightarrow> bool) \<Rightarrow> string list \<Rightarrow> (string \<Rightarrow> bool) \<Rightarrow> rootFlags
    \<Rightarrow> Config \<Rightarrow> Logger option \<Rightarrow> err option \<times> Config \<times> Logger option" where
  "root_PersistentPreRunE h is_tty environ changed flags cfg slog_default =
     (let overrides = overridesFrom changed flags
      in case Load h (Cfg_ConfigFiles cfg) (Cfg_ConfigDir cfg) (EnvSliceToMap environ) (Some overrides) of
           Inl e \<Rightarrow> (Some (Errorf ''cli: load config: %w'' [ArgErr e]), cfg, slog_default)
         | Inr loaded \<Rightarrow>
             let loaded = loaded\<lparr>Cfg_ConfigFiles := Cfg_ConfigFiles cfg\<rparr>;
                 loaded = loaded\<lparr>Cfg_ConfigDir := Cfg_ConfigDir cfg\<rparr>;
                 (e, g) = installSlog is_tty (Log_Format (Cfg_Log loaded)) (Log_Level (Cfg_Log loaded)) slog_default
             in (e, loaded, g))"

subsection \<open>The command tree\<close>

text \<open>
  A command: its usage line, whether it is hidden and whether the footer of its generated page
  is off, whether it runs something itself, and its subcommands.
\<close>

datatype command = Command (Cmd_Use: string) (Cmd_Hidden: bool) (Cmd_NoGenTag: bool) (Cmd_Runs: bool) (Cmd_Sub: "command list")

definition leaf :: "string \<Rightarrow> command" where
  "leaf use = Command use False False True []"

definition newAPICmd :: command where "newAPICmd = leaf ''api''"
definition newSchedulerCmd :: command where "newSchedulerCmd = leaf ''scheduler''"
definition newWorkerCmd :: command where "newWorkerCmd = leaf ''worker''"
definition newVersionCmd :: command where "newVersionCmd = leaf ''version''"

definition newMigrateCmd :: command where
  "newMigrateCmd = Command ''migrate'' False False False [leaf ''up'', leaf ''down'', leaf ''status'']"

definition newDocsCmd :: command where
  "newDocsCmd = Command ''gen-docs <output-dir>'' True False True []"

definition NewRootCmd :: command where
  "NewRootCmd = Command ''spt'' False False False
     [newVersionCmd, newAPICmd, newSchedulerCmd, newWorkerCmd, newMigrateCmd, newDocsCmd]"

text \<open>What runs when a role's command is given: the role on the configuration of the pre-run.\<close>

definition api_RunE where "api_RunE is_tty sdk pg cfg = api_Run is_tty sdk pg cfg"
definition scheduler_RunE where "scheduler_RunE is_tty sdk pg cfg = scheduler_Run is_tty sdk pg cfg"
definition worker_RunE where "worker_RunE is_tty sdk pg cfg = worker_Run is_tty sdk pg cfg"

text \<open>
  \<^verbatim>\<open>version\<close> needs no configuration: it has a pre-run of its own, which replaces the root's and
  does nothing.
\<close>

definition noopPreRun :: "Config \<Rightarrow> Logger option \<Rightarrow> err option \<times> Config \<times> Logger option" where
  "noopPreRun cfg slog_default = (None, cfg, slog_default)"

primrec disableAutoGenTag :: "command \<Rightarrow> command" where
  "disableAutoGenTag (Command use hidden gen runs subs) = Command use hidden True runs (map disableAutoGenTag subs)"

text \<open>\<open>GenMarkdownTree\<close> is cobra's; it writes a page per command of the tree it gets.\<close>

definition docs_RunE :: "(command \<Rightarrow> string \<Rightarrow> err option) \<Rightarrow> command \<Rightarrow> string list \<Rightarrow> err option" where
  "docs_RunE GenMarkdownTree r args =
     (case GenMarkdownTree (disableAutoGenTag r) (args ! 0) of
        Some e \<Rightarrow> Some (Errorf ''cli: gen-docs: %w'' [ArgErr e])
      | None \<Rightarrow> None)"

subsection \<open>The version\<close>

record versionPayload =
  Ver_Version :: string
  Ver_Commit :: string
  Ver_Date :: string
  Ver_Go :: string

text \<open>Writing is the writer's: it may refuse the bytes.\<close>

definition writeVersionText :: "(string \<Rightarrow> err option) \<Rightarrow> versionPayload \<Rightarrow> err option" where
  "writeVersionText write p =
     (case write (''spt '' @ Ver_Version p @ [CHR 0x0A] @ ''commit:  '' @ Ver_Commit p @ [CHR 0x0A]
            @ ''date:    '' @ Ver_Date p @ [CHR 0x0A] @ ''go:      '' @ Ver_Go p @ [CHR 0x0A]) of
        Some e \<Rightarrow> Some (Errorf ''cli: write version text: %w'' [ArgErr e])
      | None \<Rightarrow> None)"

definition version_json :: "versionPayload \<Rightarrow> json" where
  "version_json p = JObj [(''version'', JStr (Ver_Version p)), (''commit'', JStr (Ver_Commit p)),
     (''date'', JStr (Ver_Date p)), (''go'', JStr (Ver_Go p))]"

definition writeVersionJSON :: "(string \<Rightarrow> err option) \<Rightarrow> versionPayload \<Rightarrow> err option" where
  "writeVersionJSON write p =
     (case (case json_EncodeIndent (version_json p) of Inl e \<Rightarrow> Some e | Inr t \<Rightarrow> write t) of
        Some e \<Rightarrow> Some (Errorf ''cli: encode version json: %w'' [ArgErr e])
      | None \<Rightarrow> None)"

definition version_RunE :: "string \<Rightarrow> BuildInfo \<Rightarrow> bool \<Rightarrow> (string \<Rightarrow> err option) \<Rightarrow> err option" where
  "version_RunE go_version info asJSON write =
     (let payload = \<lparr>Ver_Version = Build_Version info, Ver_Commit = Build_Commit info, Ver_Date = Build_Date info,
                     Ver_Go = go_version\<rparr>
      in if asJSON then writeVersionJSON write payload else writeVersionText write payload)"

subsection \<open>What the command line promises\<close>

lemma overridesFrom_fields:
  "Flag_LogFormat (overridesFrom ch f) = (if ch ''log-format'' then RFlag_logFormat f else '''')"
  "Flag_LogLevel (overridesFrom ch f) = (if ch ''log-level'' then RFlag_logLevel f else '''')"
  "Flag_AdminAddr (overridesFrom ch f) = (if ch ''admin-addr'' then RFlag_adminAddr f else '''')"
  "Flag_EbayAppID (overridesFrom ch f) = (if ch ''ebay-app-id'' then RFlag_ebayAppID f else '''')"
  "Flag_EbayCertID (overridesFrom ch f) = (if ch ''ebay-cert-id'' then RFlag_ebayCertID f else '''')"
  "Flag_PostgresDSN (overridesFrom ch f) = (if ch ''postgres-dsn'' then RFlag_postgresDSN f else '''')"
  "Flag_ValkeyAddr (overridesFrom ch f) = (if ch ''valkey-addr'' then RFlag_valkeyAddr f else '''')"
  "Flag_MeiliURL (overridesFrom ch f) = (if ch ''meili-url'' then RFlag_meiliURL f else '''')"
  by (simp_all add: overridesFrom_def no_overrides_def Let_def)

lemma no_flag_no_override: "(\<And>x. \<not> ch x) \<Longrightarrow> overridesFrom ch f = no_overrides"
  by (simp add: overridesFrom_def Let_def)

lemma apply_no_overrides: "applyFlagOverrides cfg no_overrides = cfg"
  by (simp add: applyFlagOverrides_def no_overrides_def set_flag_def)

lemma Load_no_overrides: "Load h paths dir env (Some no_overrides) = Load h paths dir env None"
  unfolding Load_def option.case apply_no_overrides by (rule refl)

lemma preRun_cases:
  assumes "root_PersistentPreRunE h is_tty environ ch f cfg g = (e, cfg', g')"
  shows "(\<exists>e'. Load h (Cfg_ConfigFiles cfg) (Cfg_ConfigDir cfg) (EnvSliceToMap environ) (Some (overridesFrom ch f)) = Inl e'
            \<and> e = Some (Errorf ''cli: load config: %w'' [ArgErr e']) \<and> cfg' = cfg \<and> g' = g)
    \<or> (\<exists>c. Load h (Cfg_ConfigFiles cfg) (Cfg_ConfigDir cfg) (EnvSliceToMap environ) (Some (overridesFrom ch f)) = Inr c
         \<and> cfg' = c\<lparr>Cfg_ConfigFiles := Cfg_ConfigFiles cfg, Cfg_ConfigDir := Cfg_ConfigDir cfg\<rparr>
         \<and> (e, g') = installSlog is_tty (Log_Format (Cfg_Log c)) (Log_Level (Cfg_Log c)) g)"
  using assms by (auto simp: root_PersistentPreRunE_def Let_def split: sum.splits prod.splits)

text \<open>What a flag leaves in its setting: its value if the user typed it and it is not empty.\<close>

definition typed :: "(string \<Rightarrow> bool) \<Rightarrow> string \<Rightarrow> string \<Rightarrow> string \<Rightarrow> string" where
  "typed ch flag v setting = (if ch flag \<and> v \<noteq> '''' then v else setting)"

lemma effective_typed: "effective (if ch flag then v else '''') file dflt = typed ch flag v (effective '''' file dflt)"
  by (simp add: effective_def typed_def)

text \<open>The configuration \<open>base\<close> with the settings of the typed flags.\<close>

definition typed_over :: "(string \<Rightarrow> bool) \<Rightarrow> rootFlags \<Rightarrow> Config \<Rightarrow> Config" where
  "typed_over ch f base = base
    \<lparr>Cfg_Log := (Cfg_Log base)
        \<lparr>Log_Format := typed ch ''log-format'' (RFlag_logFormat f) (Log_Format (Cfg_Log base)),
         Log_Level := typed ch ''log-level'' (RFlag_logLevel f) (Log_Level (Cfg_Log base))\<rparr>,
     Cfg_Admin := (Cfg_Admin base)\<lparr>Admin_Addr := typed ch ''admin-addr'' (RFlag_adminAddr f) (Admin_Addr (Cfg_Admin base))\<rparr>,
     Cfg_Ebay := (Cfg_Ebay base)
        \<lparr>Ebay_AppID := typed ch ''ebay-app-id'' (RFlag_ebayAppID f) (Ebay_AppID (Cfg_Ebay base)),
         Ebay_CertID := typed ch ''ebay-cert-id'' (RFlag_ebayCertID f) (Ebay_CertID (Cfg_Ebay base))\<rparr>,
     Cfg_Postgres := (Cfg_Postgres base)
        \<lparr>Postgres_DSN := typed ch ''postgres-dsn'' (RFlag_postgresDSN f) (Postgres_DSN (Cfg_Postgres base))\<rparr>,
     Cfg_Valkey := (Cfg_Valkey base)\<lparr>Valkey_Addr := typed ch ''valkey-addr'' (RFlag_valkeyAddr f) (Valkey_Addr (Cfg_Valkey base))\<rparr>,
     Cfg_Meilisearch := (Cfg_Meilisearch base)
        \<lparr>Meili_URL := typed ch ''meili-url'' (RFlag_meiliURL f) (Meili_URL (Cfg_Meilisearch base))\<rparr>\<rparr>"

lemma layered_typed:
  "layered ss (Some (overridesFrom ch f)) paths dir = typed_over ch f (layered ss None paths dir)"
  unfolding layered_def Let_def flag_value_def option.case overridesFrom_fields effective_typed typed_over_def
  by simp

text \<open>
  C36. The flags of the command line, each on its own: the configuration every command sees is the
  one that the files and the environment give, except that the setting of a flag the user typed,
  with a non-empty value, is that value. A flag the user did not type has no influence, whatever the
  others do and whatever default it prints; the paths stay those of the flags. With no flag typed it
  is the configuration loaded without overrides, and the installed logger is the one of its format
  and level.
\<close>
theorem root_flags:
  assumes "root_PersistentPreRunE h is_tty environ ch f cfg g = (None, cfg', g')"
  shows "(\<exists>files ss. discovered h (Cfg_ConfigDir cfg) (Cfg_ConfigFiles cfg) files
      \<and> decoded h (EnvSliceToMap environ) files ss
      \<and> cfg' = typed_over ch f (layered ss None (Cfg_ConfigFiles cfg) (Cfg_ConfigDir cfg)))
    \<and> ((\<forall>x. \<not> ch x) \<longrightarrow> Load h (Cfg_ConfigFiles cfg) (Cfg_ConfigDir cfg) (EnvSliceToMap environ) None = Inr cfg')
    \<and> (\<exists>l. NewLogger is_tty (File 2) (Log_Format (Cfg_Log cfg')) (Log_Level (Cfg_Log cfg')) = Inr l \<and> g' = Some l)"
proof -
  from preRun_cases [OF assms] obtain c where c:
      "Load h (Cfg_ConfigFiles cfg) (Cfg_ConfigDir cfg) (EnvSliceToMap environ) (Some (overridesFrom ch f)) = Inr c"
      "cfg' = c\<lparr>Cfg_ConfigFiles := Cfg_ConfigFiles cfg, Cfg_ConfigDir := Cfg_ConfigDir cfg\<rparr>"
      "(None, g') = installSlog is_tty (Log_Format (Cfg_Log c)) (Log_Level (Cfg_Log c)) g" by auto
  then obtain files ss where ss: "discoverFiles h (Cfg_ConfigDir cfg) (Cfg_ConfigFiles cfg) = Inr files"
      "decoded h (EnvSliceToMap environ) files ss"
      "c = layered ss (Some (overridesFrom ch f)) (Cfg_ConfigFiles cfg) (Cfg_ConfigDir cfg)"
    by (auto simp: Load_Inr_iff merged_layered)
  have same: "cfg' = c" unfolding c(2) ss(3) layered_def Let_def by simp
  have none: "(\<forall>x. \<not> ch x) \<Longrightarrow> Load h (Cfg_ConfigFiles cfg) (Cfg_ConfigDir cfg) (EnvSliceToMap environ) None = Inr c"
    using c(1) no_flag_no_override [of ch f] Load_no_overrides by metis
  have logger: "\<exists>l. NewLogger is_tty (File 2) (Log_Format (Cfg_Log c)) (Log_Level (Cfg_Log c)) = Inr l \<and> g' = Some l"
    using c(3) by (auto simp: installSlog_def split: sum.splits)
  show ?thesis
    using discoverFiles_discovered [OF ss(1)] ss(2) none logger unfolding same ss(3) layered_typed by blast
qed

text \<open>A concrete command line: \<^verbatim>\<open>--log-format json\<close> over the concrete configuration files.\<close>

definition demo_rootFlags :: rootFlags where
  "demo_rootFlags = (fst bindRootFlags)\<lparr>RFlag_logFormat := ''json''\<rparr>"

definition demo_logger :: Logger where
  "demo_logger = \<lparr>Logger_Handler = ''JSONHandler'', Logger_Level = LevelDebug, Logger_Attrs = []\<rparr>"

lemma demo_preRun:
  "root_PersistentPreRunE demo_host (\<lambda>_. False) [''DSN=pg''] (\<lambda>x. x = ''log-format'') demo_rootFlags
      (Defaults\<lparr>Cfg_ConfigDir := ''conf''\<rparr>) None = (None, demo_config, Some demo_logger)"
  "Load demo_host [] ''conf'' (EnvSliceToMap [''DSN=pg'']) (Some (overridesFrom (\<lambda>x. x = ''log-format'') demo_rootFlags))
     = Inr demo_config"
proof -
  have "overridesFrom (\<lambda>x. x = ''log-format'') demo_rootFlags = demo_flags"
    by (simp add: overridesFrom_def no_overrides_def demo_flags_def demo_rootFlags_def bindRootFlags_def)
  moreover have "EnvSliceToMap [''DSN=pg''] = [''DSN'' \<mapsto> ''pg'']"
    unfolding EnvSliceToMap_def env_entries.simps by (simp add: cut_def)
  ultimately show l: "Load demo_host [] ''conf'' (EnvSliceToMap [''DSN=pg''])
      (Some (overridesFrom (\<lambda>x. x = ''log-format'') demo_rootFlags)) = Inr demo_config"
    using demo_Load by simp
  have "installSlog (\<lambda>_. False) ''json'' ''debug'' None = (None, Some demo_logger)" by code_simp
  with l show "root_PersistentPreRunE demo_host (\<lambda>_. False) [''DSN=pg''] (\<lambda>x. x = ''log-format'') demo_rootFlags
      (Defaults\<lparr>Cfg_ConfigDir := ''conf''\<rparr>) None = (None, demo_config, Some demo_logger)"
    by (simp add: root_PersistentPreRunE_def Let_def Defaults_def demo_config_def)
qed

text \<open>\<^verbatim>\<open>--admin-addr\<close> is not typed: its printed default is not the setting.\<close>

lemma root_flags_witness:
  "RFlag_adminAddr demo_rootFlags = '':9090''
    \<and> (\<exists>files ss. discovered demo_host ''conf'' [] files \<and> decoded demo_host (EnvSliceToMap [''DSN=pg'']) files ss
        \<and> Log_Format (Cfg_Log demo_config) = ''json''
        \<and> Admin_Addr (Cfg_Admin demo_config) = Admin_Addr (Cfg_Admin (layered ss None [] ''conf''))
        \<and> Admin_Addr (Cfg_Admin demo_config) = ''conf/b.hcl'')"
proof -
  have d: "Cfg_ConfigDir (Defaults\<lparr>Cfg_ConfigDir := ''conf''\<rparr>) = ''conf''"
      "Cfg_ConfigFiles (Defaults\<lparr>Cfg_ConfigDir := ''conf''\<rparr>) = []"
      "Admin_Addr (Cfg_Admin demo_config) = ''conf/b.hcl''"
      "RFlag_adminAddr demo_rootFlags = '':9090''" "RFlag_logFormat demo_rootFlags = ''json''"
    by (simp_all add: Defaults_def demo_config_def demo_rootFlags_def bindRootFlags_def)
  from conjunct1 [OF root_flags [OF demo_preRun(1)]] obtain files ss where
    f: "discovered demo_host ''conf'' [] files" "decoded demo_host (EnvSliceToMap [''DSN=pg'']) files ss"
    and c: "demo_config = typed_over (\<lambda>x. x = ''log-format'') demo_rootFlags (layered ss None [] ''conf'')"
    unfolding d(1,2) by blast
  have "Log_Format (Cfg_Log demo_config) = ''json''"
    "Admin_Addr (Cfg_Admin demo_config) = Admin_Addr (Cfg_Admin (layered ss None [] ''conf''))"
    by (subst c, simp add: typed_over_def typed_def d(5))+
  with f d(3,4) show ?thesis by blast
qed

text \<open>All commands of a tree, each before its subcommands: a page each.\<close>

primrec all_commands :: "command \<Rightarrow> command list" where
  "all_commands (Command use hidden gen runs subs) = Command use hidden gen runs subs # concat (map all_commands subs)"

text \<open>
  The documentation is reproducible: \<^verbatim>\<open>gen-docs\<close> hands cobra the same tree of commands, in
  the same order and with the same usage lines, but with the dated footer off for every one of
  them; its only error is cobra's, wrapped.
\<close>
lemma gen_docs_footers_off:
  "(\<forall>c\<in>set (all_commands (disableAutoGenTag r)). Cmd_NoGenTag c)
   \<and> map (\<lambda>c. (Cmd_Use c, Cmd_Hidden c, Cmd_Runs c, length (Cmd_Sub c))) (all_commands (disableAutoGenTag r))
     = map (\<lambda>c. (Cmd_Use c, Cmd_Hidden c, Cmd_Runs c, length (Cmd_Sub c))) (all_commands r)
   \<and> docs_RunE gen r (dir # rest)
     = map_option (\<lambda>e. Errorf ''cli: gen-docs: %w'' [ArgErr e]) (gen (disableAutoGenTag r) dir)"
proof (intro conjI)
  show "docs_RunE gen r (dir # rest) = map_option (\<lambda>e. Errorf ''cli: gen-docs: %w'' [ArgErr e]) (gen (disableAutoGenTag r) dir)"
    by (simp add: docs_RunE_def split: option.split)
  show "\<forall>c\<in>set (all_commands (disableAutoGenTag r)). Cmd_NoGenTag c" by (induction r) auto
  show "map (\<lambda>c. (Cmd_Use c, Cmd_Hidden c, Cmd_Runs c, length (Cmd_Sub c))) (all_commands (disableAutoGenTag r))
     = map (\<lambda>c. (Cmd_Use c, Cmd_Hidden c, Cmd_Runs c, length (Cmd_Sub c))) (all_commands r)"
  proof (induction r)
    case (Command use hidden gen runs subs)
    then show ?case by (simp add: map_concat comp_def cong: map_cong)
  qed
qed

end
