(* ===== verification/Spt_Program.thy ===== *)
theory Spt_Program
  imports Cli_Commands
begin

text \<open>
  The whole program, from the command line to the exit code: \<^verbatim>\<open>run\<close> of \<^verbatim>\<open>cmd/spt\<close> executes the
  root command, whose pre-run loads the configuration and installs the logger, and then the
  command itself with that configuration. cobra runs nothing after a pre-run that failed. The lemmas
  compose what the components promise.
\<close>

subsection \<open>A role\<close>

text \<open>The possible ends of \<^verbatim>\<open>spt api\<close>, \<^verbatim>\<open>spt scheduler\<close> and \<^verbatim>\<open>spt worker\<close>: the exit code with the error
  that is printed, the state in which the role's own execution ended (\<open>None\<close> if it never served),
  what the role logged, the state of the outside.\<close>

inductive spt_role :: "string \<Rightarrow> 'b host \<Rightarrow> (nat \<Rightarrow> bool) \<Rightarrow> ('res, 'exp, 'tp, 'w) otel \<Rightarrow> ('db, 'p, 'w) pg
    \<Rightarrow> string list \<Rightarrow> (string \<Rightarrow> bool) \<Rightarrow> rootFlags \<Rightarrow> Config \<Rightarrow> 'w
    \<Rightarrow> (int \<times> err option) \<times> role_state option \<times> (Level \<times> string) list \<times> 'w \<Rightarrow> bool"
  for name h is_tty sdk pg environ changed flags cfg w where
  pre_run_failed: "root_PersistentPreRunE h is_tty environ changed flags cfg None = (Some e, cfg', g) \<Longrightarrow>
    spt_role name h is_tty sdk pg environ changed flags cfg w (spt_exit (Some e), None, [], w)"
| role_ran: "root_PersistentPreRunE h is_tty environ changed flags cfg None = (None, cfg', g) \<Longrightarrow>
    role_Run name is_tty sdk pg cfg' \<lparr>Slog_Default = g, Otel_Provider = None\<rparr> w (r, ending, logged, w') \<Longrightarrow>
    spt_role name h is_tty sdk pg environ changed flags cfg w (spt_exit r, ending, logged, w')"

inductive_cases role_RunE: "role_Run name is_tty sdk pg cfg g w (r, ending, logged, w')"
subsection \<open>What the composition promises\<close>

text \<open>The exit code of \<^verbatim>\<open>spt\<close> for the error a command returned.\<close>

lemma spt_exit_Some: "spt_exit (Some e) = (if errors_is e context_Canceled then (0, None) else (1, Some e))"
  by (simp add: spt_exit_def)

text \<open>A role's log begins with its start.\<close>

lemma role_log_begins:
  assumes "run (role_step name addr) (role_start name) ls s"
  shows "\<exists>rest. Role_Log s = (LevelInfo, name @ '' role starting'') # rest"
  by (rule run_invariant [OF assms]) (auto simp: role_start_def elim: role_step.cases)

lemma deferred_shutdown_log:
  "fst (deferred_shutdown shutdown logged w) \<in> {logged, logged @ [(LevelWarn, ''obs shutdown returned error'')]}"
  by (auto simp: deferred_shutdown_def split: prod.split option.split)

text \<open>
  How the execution \<open>s\<close> of a role that served may end: it is one of the phase beside the admin
  server, which has returned the error \<open>e\<close>; \<open>e\<close> is a cancellation, and the exit code 0, only if
  that very execution had been told to stop; its log is the one of the process, but for the warning
  of the deferred shutdown.
\<close>

definition served_end :: "string \<Rightarrow> string \<Rightarrow> role_state \<Rightarrow> err \<Rightarrow> (Level \<times> string) list \<Rightarrow> bool" where
  "served_end name addr s e logged \<longleftrightarrow>
     (\<exists>ls. run (role_step name addr) (role_start name) ls s) \<and> Role_Pc s = RoleReturned (Some e)
   \<and> (errors_is e context_Canceled \<longrightarrow> Srv_Cancelled (Role_Serve s))
   \<and> logged \<in> {Role_Log s, Role_Log s @ [(LevelWarn, ''obs shutdown returned error'')]}
   \<and> (\<exists>rest. logged = (LevelInfo, name @ '' role starting'') # rest)"

lemma role_Run_ends:
  assumes "goose_contract pg applied sources"
    and "role_Run name is_tty sdk pg cfg g w (r, ending, logged, w')"
  obtains (refused) e g' where "role_begin name is_tty sdk pg cfg g w = (Inl e, g', w')" "r = Some e"
      "ending = None" "logged = []"
  | (served) s e where "r = Some e" "ending = Some s" "served_end name (Admin_Addr (Cfg_Admin cfg)) s e logged"
      "Postgres_DSN (Cfg_Postgres cfg) = '''' \<or> sources EmbeddedFS \<subseteq> applied w"
  using assms(2)
proof cases
  case (role_refused e g')
  then show ?thesis by (intro refused)
next
  case (role_served o' shutdown g' w1 ls s)
  from role_served(3) have "fst (CheckPendingMigrations pg (Postgres_DSN (Cfg_Postgres cfg)) w) = None"
    by (auto simp: role_begin_def split: prod.splits sum.splits option.splits)
  then have migrated: "Postgres_DSN (Cfg_Postgres cfg) = '''' \<or> sources EmbeddedFS \<subseteq> applied w"
    by (rule CheckPending_cases(3) [OF assms(1)])
  have "role_result (Admin_Addr (Cfg_Admin cfg)) (Srv_Cancelled (Role_Serve s)) r"
    using role.run_inv [OF role_served(4)] role_served(5) by (simp add: role_ok_def)
  then obtain e where r: "r = Some e" "errors_is e context_Canceled \<longrightarrow> Srv_Cancelled (Role_Serve s)"
    by (auto simp: role_result_def serve_result_def context_Canceled_def ErrServerClosed_def foreign_def)
  have log: "logged \<in> {Role_Log s, Role_Log s @ [(LevelWarn, ''obs shutdown returned error'')]}"
    using deferred_shutdown_log [of shutdown "Role_Log s" w1] role_served(2) by (metis fst_conv)
  moreover have "\<exists>rest. logged = (LevelInfo, name @ '' role starting'') # rest"
    using role_log_begins [OF role_served(4)] log by auto
  ultimately have "served_end name (Admin_Addr (Cfg_Admin cfg)) s e logged"
    using role_served(4,5) r unfolding served_end_def by blast
  with r migrated role_served(1) show ?thesis by (intro served)
qed

lemma Load_Inr_paths: "Load h paths dir env flags = Inr c \<Longrightarrow> c\<lparr>Cfg_ConfigFiles := paths, Cfg_ConfigDir := dir\<rparr> = c"
  by (auto simp: Load_Inr_iff merged_layered layered_def Let_def)

lemma Load_Inr_usable: "Load h paths dir env flags = Inr c \<Longrightarrow> usable c"
  by (auto simp: Load_Inr_iff intro: merged_usable)

text \<open>
  Migrate, then start: after a successful \<^verbatim>\<open>spt migrate up\<close> of the embedded set, a role with the
  same configuration on the database it left is never refused for pending migrations.
\<close>

lemma migrated_role_starts:
  assumes "goose_contract pg applied sources"
    and "migrate_up_RunE pg cfg '''' w = ((None, out), w')"
    and "role_begin name is_tty sdk pg cfg g w' = (Inl e, g', w'')"
  shows "Setup is_tty sdk cfg (''spt-'' @ name) g = (Inl e, g')
    \<or> (\<exists>e'. e = Errorf (name @ '': %w'') [ArgErr e'] \<and> \<not> errors_is e' ErrPendingMigrations)"
proof -
  obtain e' w1 where c: "CheckPendingMigrations pg (Postgres_DSN (Cfg_Postgres cfg)) w' = (e', w1)" by fastforce
  with assms(3) migrate_up_then_start [OF assms(1,2)] show ?thesis
    by (auto simp: role_begin_def split: prod.splits sum.splits option.splits)
qed

text \<open>
  How a role ends whose configuration \<open>c\<close> was loaded: before it served, with the error \<open>e\<close> of the
  logger or of the role's own start; or the execution \<open>s\<close> ended, on a migrated database.
\<close>

lemma spt_role_ends:
  assumes "goose_contract pg applied sources"
    and "spt_role name h is_tty sdk pg environ changed flags cfg w (code, ending, logged, w')"
    and "Load h (Cfg_ConfigFiles cfg) (Cfg_ConfigDir cfg) (EnvSliceToMap environ) (Some (overridesFrom changed flags)) = Inr c"
  obtains (logger) e where "code = spt_exit (Some e)" "ending = None" "logged = []" "w' = w"
      "installSlog is_tty (Log_Format (Cfg_Log c)) (Log_Level (Cfg_Log c)) None = (Some e, None)"
  | (refused) e g g' where "code = spt_exit (Some e)" "ending = None" "logged = []"
      "installSlog is_tty (Log_Format (Cfg_Log c)) (Log_Level (Cfg_Log c)) None = (None, g)"
      "role_begin name is_tty sdk pg c \<lparr>Slog_Default = g, Otel_Provider = None\<rparr> w = (Inl e, g', w')"
  | (served) s e where "code = spt_exit (Some e)" "ending = Some s" "served_end name (Admin_Addr (Cfg_Admin c)) s e logged"
      "Postgres_DSN (Cfg_Postgres c) = '''' \<or> sources EmbeddedFS \<subseteq> applied w"
  using assms(2)
proof cases
  case (pre_run_failed e cfg' g)
  from preRun_cases [OF pre_run_failed(5)] assms(3)
  have "(Some e, g) = installSlog is_tty (Log_Format (Cfg_Log c)) (Log_Level (Cfg_Log c)) None" by auto
  moreover from this have "g = None" by (auto simp: installSlog_def split: sum.splits)
  ultimately show ?thesis using pre_run_failed(1-4) by (intro logger) auto
next
  case (role_ran cfg' g r)
  from preRun_cases [OF role_ran(2)] assms(3) Load_Inr_paths [OF assms(3)]
  have c: "cfg' = c" "installSlog is_tty (Log_Format (Cfg_Log c)) (Log_Level (Cfg_Log c)) None = (None, g)" by auto
  from assms(1) role_ran(3) show ?thesis unfolding c(1)
  proof (cases rule: role_Run_ends)
    case (refused e g')
    then show ?thesis using role_ran(1) c(2) by (intro that(2)) auto
  next
    case (served s e)
    then show ?thesis using role_ran(1) by (intro that(3)) auto
  qed
qed

subsection \<open>A concrete run\<close>

text \<open>
  \<^verbatim>\<open>spt api --log-format json\<close> on a migrated database, stopped by a signal: the run by hand.
\<close>

lemma demo_role_begin:
  "\<exists>o' shutdown g'. role_begin ''api'' (\<lambda>_. False) demo_role_sdk demo_pg demo_config
      \<lparr>Slog_Default = Some demo_logger, Otel_Provider = None\<rparr> {1, 2} = (Inr (o', shutdown), g', {1, 2})
    \<and> shutdown {1, 2} = (None, {1, 2})"
proof -
  have log: "NewLogger (\<lambda>_. False) (File 2) ''json'' ''debug'' = Inr demo_logger" by code_simp
  have guard: "CheckPendingMigrations demo_pg ''pg'' {1, 2} = (None, {1, 2})"
    by (simp add: CheckPendingMigrations_def demo_pg_def NewMigrator_def migrate_Status_def demo_goose_def)
  have dsn: "Postgres_DSN (Cfg_Postgres demo_config) = ''pg''" "Obs_OTLPEndpoint (Cfg_Obs demo_config) = ''''"
    by (simp_all add: demo_config_def Defaults_def)
  show ?thesis
    by (simp add: role_begin_def Setup_def NewTracerProvider_def Let_def demo_role_sdk_def demo_log log guard dsn
        composeShutdown_def)
qed

lemma demo_spt_role:
  "spt_role ''api'' demo_host (\<lambda>_. False) demo_role_sdk demo_pg [''DSN=pg''] (\<lambda>x. x = ''log-format'') demo_rootFlags
     (Defaults\<lparr>Cfg_ConfigDir := ''conf''\<rparr>) {1, 2}
     ((0, None), Some (drained ''api''), [(LevelInfo, ''api role starting''), (LevelInfo, ''api role stopped'')], {1, 2})"
proof -
  from demo_role_begin obtain o' shutdown g' where b: "role_begin ''api'' (\<lambda>_. False) demo_role_sdk demo_pg demo_config
      \<lparr>Slog_Default = Some demo_logger, Otel_Provider = None\<rparr> {1, 2} = (Inr (o', shutdown), g', {1, 2})"
    "shutdown {1, 2} = (None, {1, 2})" by blast
  from role_served [OF b(1) drained_run drained_pc] b(2)
  have "role_Run ''api'' (\<lambda>_. False) demo_role_sdk demo_pg demo_config \<lparr>Slog_Default = Some demo_logger, Otel_Provider = None\<rparr> {1, 2}
      (Some context_Canceled, Some (drained ''api''), [(LevelInfo, ''api role starting''), (LevelInfo, ''api role stopped'')], {1, 2})"
    by (simp add: deferred_shutdown_def drained_def)
  from role_ran [OF demo_preRun(1) this] show ?thesis by (simp add: spt_exit_def context_Canceled_def)
qed

end
