(* ===== verification/Mock_Quota.thy ===== *)
theory Mock_Quota
  imports Go_Http Go_Time "HOL-Library.Word"
begin

text \<open>
  \<^verbatim>\<open>tools/mock-server/quota.go\<close>: the quota counters and the middleware that counts and
  stamps the successful responses. The counters are \<open>int64\<close>, kept as 64-bit words; the clock
  is the argument \<open>now\<close>. Every method holds the mutex for its whole body, so it is one step.
\<close>

type_synonym int64 = "64 word"

record QuotaState =
  Quota_count :: int64
  Quota_limit :: int64
  Quota_resetAt :: instant
  Quota_timeWindow :: string
  Quota_autoIncr :: bool

record QuotaSnapshot =
  Snap_Count :: int64
  Snap_Limit :: int64
  Snap_ResetAfter :: duration
  Snap_TimeWindow :: string
  Snap_AutoIncr :: "bool option"

definition NewQuotaState :: "instant \<Rightarrow> int64 \<Rightarrow> duration \<Rightarrow> QuotaState" where
  "NewQuotaState now limit window =
     \<lparr>Quota_count = 0, Quota_limit = limit, Quota_resetAt = now + window,
      Quota_timeWindow = ''DAY'', Quota_autoIncr = True\<rparr>"

definition Snapshot :: "instant \<Rightarrow> QuotaState \<Rightarrow> QuotaSnapshot" where
  "Snapshot now q =
     \<lparr>Snap_Count = Quota_count q, Snap_Limit = Quota_limit q,
      Snap_ResetAfter = time_until now (Quota_resetAt q),
      Snap_TimeWindow = Quota_timeWindow q, Snap_AutoIncr = Some (Quota_autoIncr q)\<rparr>"

definition quota_Apply :: "instant \<Rightarrow> QuotaState \<Rightarrow> QuotaSnapshot \<Rightarrow> QuotaState" where
  "quota_Apply now q snap =
     (let q = (if 0 <s Snap_Limit snap then q\<lparr>Quota_limit := Snap_Limit snap\<rparr> else q);
          q = q\<lparr>Quota_count := Snap_Count snap\<rparr>;
          q = (if Snap_ResetAfter snap > 0 then q\<lparr>Quota_resetAt := now + Snap_ResetAfter snap\<rparr> else q);
          q = (if Snap_TimeWindow snap \<noteq> '''' then q\<lparr>Quota_timeWindow := Snap_TimeWindow snap\<rparr> else q)
      in case Snap_AutoIncr snap of None \<Rightarrow> q | Some b \<Rightarrow> q\<lparr>Quota_autoIncr := b\<rparr>)"

definition format_int64 :: "int64 \<Rightarrow> string" where
  "format_int64 n = show_int (sint n)"

text \<open>The counter after one counted call, and the headers \<open>incrementAndStamp\<close> writes.\<close>

definition counted :: "QuotaState \<Rightarrow> QuotaState" where
  "counted q = (if Quota_autoIncr q then q\<lparr>Quota_count := Quota_count q + 1\<rparr> else q)"

definition remaining_calls :: "QuotaState \<Rightarrow> int64" where
  "remaining_calls q =
     (let remaining = Quota_limit q - Quota_count q in if remaining <s 0 then 0 else remaining)"

definition incrementAndStamp :: "QuotaState \<Rightarrow> response_writer \<Rightarrow> QuotaState \<times> response_writer" where
  "incrementAndStamp q w =
     (let q = counted q;
          w = header_set w ''X-EBAY-API-Call-Limit'' (format_int64 (Quota_limit q));
          w = header_set w ''X-EBAY-API-Calls-Made'' (format_int64 (Quota_count q));
          w = header_set w ''X-EBAY-API-Calls-Remaining'' (format_int64 (remaining_calls q))
      in (q, w))"

text \<open>
  The middleware around a handler on a server state \<open>'s\<close> that holds the quota
  (\<open>get\<close>, \<open>put\<close>): the inner handler writes to a \<open>statusRecorder\<close>.
\<close>

fun recorded_status :: "response_writer \<Rightarrow> int" where
  "recorded_status (StatusRecorder w status wrote) = status"
| "recorded_status (Conn c) = 200"

fun recorded_writer :: "response_writer \<Rightarrow> response_writer" where
  "recorded_writer (StatusRecorder w status wrote) = w"
| "recorded_writer (Conn c) = Conn c"

definition quota_Middleware ::
  "('s \<Rightarrow> QuotaState) \<Rightarrow> (QuotaState \<Rightarrow> 's \<Rightarrow> 's) \<Rightarrow> 's handler \<Rightarrow> 's handler" where
  "quota_Middleware get put nxt r s w =
     (case nxt r s (StatusRecorder w 200 False) of
        Aborted s m \<Rightarrow> Aborted s m
      | Served s rw \<Rightarrow>
          let w = recorded_writer rw
          in if 200 \<le> recorded_status rw \<and> recorded_status rw < 300
             then (let (q, w) = incrementAndStamp (get s) w in Served (put q s) w)
             else Served s w)"

subsection \<open>Overlaying a snapshot\<close>

lemma quota_Apply_fields:
  "Quota_count (quota_Apply now q snap) = Snap_Count snap"
  "Quota_limit (quota_Apply now q snap) = (if 0 <s Snap_Limit snap then Snap_Limit snap else Quota_limit q)"
  "Quota_resetAt (quota_Apply now q snap) =
     (if Snap_ResetAfter snap > 0 then now + Snap_ResetAfter snap else Quota_resetAt q)"
  "Quota_timeWindow (quota_Apply now q snap) =
     (if Snap_TimeWindow snap \<noteq> '''' then Snap_TimeWindow snap else Quota_timeWindow q)"
  "Quota_autoIncr (quota_Apply now q snap) =
     (case Snap_AutoIncr snap of None \<Rightarrow> Quota_autoIncr q | Some b \<Rightarrow> b)"
  by (simp_all add: quota_Apply_def Let_def split: option.split)

text \<open>
  The quota overlay and the snapshot agree: \<open>Apply\<close> writes the fields a snapshot sets and
  keeps the others (but always writes the count), and applying the snapshot of a live quota back
  to it at the same moment changes nothing.
\<close>

theorem Apply_Snapshot:
  assumes "0 <s Quota_limit q" and "now < Quota_resetAt q" and "Quota_resetAt q - now < 2 ^ 63"
  shows "quota_Apply now q (Snapshot now q) = q
    \<and> Snapshot now (quota_Apply now p (Snapshot now q))
        = \<lparr>Snap_Count = Quota_count q, Snap_Limit = Quota_limit q, Snap_ResetAfter = Quota_resetAt q - now,
           Snap_TimeWindow = (if Quota_timeWindow q = '''' then Quota_timeWindow p else Quota_timeWindow q),
           Snap_AutoIncr = Some (Quota_autoIncr q)\<rparr>"
proof -
  from assms have u: "time_until now (Quota_resetAt q) = Quota_resetAt q - now"
    by (simp add: time_until_def sat64_def)
  have "quota_Apply now p (Snapshot now q)
      = \<lparr>Quota_count = Quota_count q, Quota_limit = Quota_limit q, Quota_resetAt = Quota_resetAt q,
         Quota_timeWindow = (if Quota_timeWindow q = '''' then Quota_timeWindow p else Quota_timeWindow q),
         Quota_autoIncr = Quota_autoIncr q\<rparr>" for p :: QuotaState
    using assms by (intro QuotaState.equality) (simp_all add: quota_Apply_fields Snapshot_def u)
  then show ?thesis by (simp add: Snapshot_def u)
qed

theorem Apply_Snapshot_witness:
  "quota_Apply 100 (NewQuotaState 0 5000 (24 * Hour)) (Snapshot 100 (NewQuotaState 0 5000 (24 * Hour)))
     = NewQuotaState 0 5000 (24 * Hour)"
proof -
  have "0 <s Quota_limit (NewQuotaState 0 5000 (24 * Hour))"
    "100 < Quota_resetAt (NewQuotaState 0 5000 (24 * Hour))"
    "Quota_resetAt (NewQuotaState 0 5000 (24 * Hour)) - 100 < 2 ^ 63"
    by (simp_all add: NewQuotaState_def Hour_def Minute_def Second_def Millisecond_def word_sless_alt)
  then show ?thesis using Apply_Snapshot by blast
qed

subsection \<open>Counting\<close>

lemma incrementAndStamp_base:
  "incrementAndStamp q w = (q', w') \<Longrightarrow>
     q' = counted q \<and> Rw_Sent (base_conn w') = Rw_Sent (base_conn w) \<and> Rw_Body (base_conn w') = Rw_Body (base_conn w)
     \<and> wire w' = wire w"
  by (cases "Rw_Sent (base_conn w)") (auto simp: incrementAndStamp_def Let_def wire_def)

lemma wire_recorded: "wire (recorded_writer rw) = wire rw"
  by (cases rw) (simp_all only: recorded_writer.simps wire_def base_conn.simps)

text \<open>
  What the middleware asks of the handlers it wraps: on a recorder in step with the
  connection they leave a recorder in step, and they send a response.
\<close>

locale metered_handler =
  fixes get :: "'s \<Rightarrow> QuotaState" and put :: "QuotaState \<Rightarrow> 's \<Rightarrow> 's" and handle :: "'s handler"
  assumes get_put: "get (put q s) = q"
    and keeps_quota: "get (served_state (handle r s w)) = get s"
    and keeps_recorder: "handle r s (StatusRecorder w c b) = Served s' rw \<Longrightarrow>
          \<exists>w' c' b'. rw = StatusRecorder w' c' b' \<and> (recorder_in_step (StatusRecorder w c b) \<longrightarrow> recorder_in_step rw)"
    and responds: "handle r s w = Served s' rw \<Longrightarrow> Rw_Sent (base_conn w) = None \<Longrightarrow> wire rw \<noteq> None"
begin

text \<open>On a fresh connection the call is counted iff the status that went out is a success.\<close>

lemma counts_successes:
  assumes fresh: "Rw_Sent (base_conn w) = None" "recorder_in_step w"
    and served: "quota_Middleware get put handle r s w = Served s' w'"
  shows "\<exists>code h body. wire w' = Some (code, h, body)
    \<and> get s' = (if 200 \<le> code \<and> code < 300 then counted (get s) else get s)"
proof -
  let ?rec = "StatusRecorder w 200 False"
  from served obtain t rw where h: "handle r s ?rec = Served t rw"
    by (cases "handle r s ?rec") (auto simp: quota_Middleware_def)
  have "recorder_in_step ?rec" using fresh by simp
  with keeps_recorder [OF h] obtain u c b where rw: "rw = StatusRecorder u c b" and step: "recorder_in_step rw"
    by blast
  have "wire rw \<noteq> None" using responds [OF h] fresh(1) by simp
  then obtain code hd body where wr: "wire rw = Some (code, hd, body)" by (cases "wire rw") auto
  with step rw have code: "c = code" by (auto simp: wire_def split: option.splits)
  have q: "get t = get s" using keeps_quota [of r s ?rec] h by simp
  have u: "wire u = Some (code, hd, body)" using wr wire_recorded [of rw] rw by simp
  obtain q' w'' where inc: "incrementAndStamp (get t) u = (q', w'')" by (cases "incrementAndStamp (get t) u")
  show ?thesis
  proof (cases "200 \<le> code \<and> code < 300")
    case True
    with served h rw code inc have "s' = put q' t" "w' = w''"
      by (simp_all add: quota_Middleware_def)
    with True incrementAndStamp_base [OF inc] u q show ?thesis by (simp add: get_put)
  next
    case False
    with served h rw code have "s' = t" "w' = u" by (auto simp: quota_Middleware_def)
    with False u q show ?thesis by auto
  qed
qed

text \<open>The response the client sees is the handler's own: the stamp comes after it was sent.\<close>

lemma wire_unstamped:
  assumes fresh: "Rw_Sent (base_conn w) = None"
    and served: "quota_Middleware get put handle r s w = Served s' w'"
  shows "\<exists>t rw. handle r s (StatusRecorder w 200 False) = Served t rw \<and> wire w' = wire rw"
proof -
  let ?rec = "StatusRecorder w 200 False"
  from served obtain t rw where h: "handle r s ?rec = Served t rw"
    by (cases "handle r s ?rec") (auto simp: quota_Middleware_def)
  obtain q' w'' where inc: "incrementAndStamp (get t) (recorded_writer rw) = (q', w'')"
    by (cases "incrementAndStamp (get t) (recorded_writer rw)")
  show ?thesis
    using served h inc incrementAndStamp_base [OF inc] wire_recorded [of rw]
    by (auto simp: quota_Middleware_def Let_def split: if_splits)
qed

end

end
