(* ===== verification/Mock_Scenarios.thy ===== *)
theory Mock_Scenarios
  imports Mock_Quota Go_Json "HOL-Library.AList"
begin

text \<open>
  \<^verbatim>\<open>tools/mock-server/scenarios.go\<close>: loading the fixture tree into the scenario registry and
  resolving items, quotas and search templates. The file system is the record \<open>fsys\<close>; the
  table of \<^verbatim>\<open>strings.ToLower\<close> (Unicode's) is a parameter, in the library record \<open>golib\<close>. A Go map that is iterated is an association list, updated by key.
\<close>

record fsys =
  fs_ReadDir :: "string \<Rightarrow> err + DirEntry list"
  fs_ReadFile :: "string \<Rightarrow> err + string"

record golib =
  strings_ToLower :: "string \<Rightarrow> string"

record Scenario =
  Scen_Name :: string
  Scen_Items :: "string \<rightharpoonup> string"
  Scen_Search :: string
  Scen_Quota :: "QuotaSnapshot option"

record itemSummary =
  Item_raw :: json
  Item_title :: string
  Item_titleLowercase :: string
  Item_itemID :: string

record scenarioSearch =
  Search_envelope :: "(string \<times> json) list"
  Search_items :: "itemSummary list"

record ScenarioRegistry =
  Reg_scenarios :: "(string \<times> Scenario) list"
  Reg_defaultScenario :: "Scenario option"
  Reg_searchByScenario :: "string \<rightharpoonup> scenarioSearch"

definition scenarioDefault :: string where "scenarioDefault = ''default''"

definition ErrFixturesNotFound :: err where
  "ErrFixturesNotFound = Sentinel ''mock-server: fixtures root missing 'default' scenario''"

subsection \<open>Item identifiers in file names\<close>

text \<open>\<^verbatim>\<open>url.PathUnescape\<close>: \<open>None\<close> is its escape error.\<close>

fun path_unescape :: "string \<Rightarrow> string option" where
  "path_unescape [] = Some []"
| "path_unescape (c # s) =
     (if c = CHR ''%'' then
        (case s of
           a # b # t \<Rightarrow>
             (case (hex_value a, hex_value b) of
                (Some x, Some y) \<Rightarrow> map_option (Cons (char_of (16 * x + y))) (path_unescape t)
              | _ \<Rightarrow> None)
         | _ \<Rightarrow> None)
      else map_option (Cons c) (path_unescape s))"

definition decodeItemIDFromFilename :: "string \<Rightarrow> string" where
  "decodeItemIDFromFilename name =
     (let stripped = trim_suffix name ''.json''
      in case path_unescape stripped of None \<Rightarrow> stripped | Some decoded \<Rightarrow> decoded)"

subsection \<open>Decoding fixtures\<close>

definition decode_QuotaSnapshot :: "json \<Rightarrow> QuotaSnapshot option" where
  "decode_QuotaSnapshot doc =
     (case json_object doc of
        None \<Rightarrow> None
      | Some kvs \<Rightarrow>
          (case (decode_field dec_int64 0 (json_members ''count'' kvs),
                 decode_field dec_int64 0 (json_members ''limit'' kvs),
                 decode_field dec_int64 0 (json_members ''reset_after'' kvs),
                 decode_field dec_string '''' (json_members ''time_window'' kvs),
                 decode_pointer dec_bool None (json_members ''auto_incr'' kvs)) of
             (Some c, Some l, Some ra, Some tw, Some ai) \<Rightarrow>
               Some \<lparr>Snap_Count = word_of_int c, Snap_Limit = word_of_int l, Snap_ResetAfter = ra,
                     Snap_TimeWindow = tw, Snap_AutoIncr = ai\<rparr>
           | _ \<Rightarrow> None))"

text \<open>
  A document as an \<^verbatim>\<open>any\<close> value: numbers become floats, of duplicate members the last one
  counts, and a map is later encoded with its keys sorted.
\<close>

definition go_map :: "(string \<times> json) list \<Rightarrow> (string \<times> json) list" where
  "go_map kvs = sort_key fst (AList.clearjunk (rev kvs))"

fun json_any :: "json \<Rightarrow> json option" where
  "json_any JNull = Some JNull"
| "json_any (JBool b) = Some (JBool b)"
| "json_any (JInt n) = (case f64_of_int n of Fin q \<Rightarrow> Some (JFloat (Fin q)) | _ \<Rightarrow> None)"
| "json_any (JFloat x) = (case x of Fin q \<Rightarrow> Some (JFloat (Fin q)) | _ \<Rightarrow> None)"
| "json_any (JStr s) = Some (JStr s)"
| "json_any (JArr xs) = map_option JArr (those (map json_any xs))"
| "json_any (JObj kvs) = map_option (\<lambda>vs. JObj (go_map (zip (map fst kvs) vs))) (those (map (\<lambda>kv. json_any (snd kv)) kvs))"
| "json_any (JRaw s) = None"

text \<open>One element of \<open>itemSummaries\<close>: kept when it is an object with a string title and itemId.\<close>

definition parse_item :: "(string \<Rightarrow> string) \<Rightarrow> json \<Rightarrow> itemSummary option" where
  "parse_item lower raw =
     (case raw of
        JObj m \<Rightarrow>
          (case (map_of m ''title'', map_of m ''itemId'') of
             (Some (JStr title), Some (JStr itemID)) \<Rightarrow>
               Some \<lparr>Item_raw = JObj m, Item_title = title, Item_titleLowercase = lower title, Item_itemID = itemID\<rparr>
           | _ \<Rightarrow> None)
      | _ \<Rightarrow> None)"

definition parseSearch :: "golib \<Rightarrow> string \<Rightarrow> scenarioSearch option" where
  "parseSearch lib raw =
     (if raw = '''' then None
      else case Option.bind (json_parse raw) json_any of
        Some (JObj envelope) \<Rightarrow>
          (case map_of envelope ''itemSummaries'' of
             Some (JArr rawItems) \<Rightarrow>
               Some \<lparr>Search_envelope = envelope,
                     Search_items = List.map_filter (parse_item (strings_ToLower lib)) rawItems\<rparr>
           | _ \<Rightarrow> Some \<lparr>Search_envelope = envelope, Search_items = []\<rparr>)
      | Some JNull \<Rightarrow> Some \<lparr>Search_envelope = [], Search_items = []\<rparr>
      | _ \<Rightarrow> None)"

subsection \<open>Loading\<close>

fun load_items :: "fsys \<Rightarrow> string \<Rightarrow> (string \<rightharpoonup> string) \<Rightarrow> DirEntry list \<Rightarrow> err + (string \<rightharpoonup> string)" where
  "load_items fs itemsDir items [] = Inr items"
| "load_items fs itemsDir items (it # its) =
     (if Entry_IsDir it \<or> \<not> has_suffix (Entry_Name it) ''.json'' then load_items fs itemsDir items its
      else case fs_ReadFile fs (path_join [itemsDir, Entry_Name it]) of
        Inl e \<Rightarrow> Inl (Errorf ''mock-server: read item %s: %w'' [ArgStr (Entry_Name it), ArgErr e])
      | Inr data \<Rightarrow> load_items fs itemsDir (items(decodeItemIDFromFilename (Entry_Name it) \<mapsto> data)) its)"

definition load_search :: "fsys \<Rightarrow> string \<Rightarrow> err + string" where
  "load_search fs dir =
     (case fs_ReadFile fs (path_join [dir, ''search.json'']) of
        Inr data \<Rightarrow> Inr data
      | Inl e \<Rightarrow>
          if \<not> errors_is e fs_ErrNotExist
          then Inl (Errorf ''mock-server: read %s/search.json: %w'' [ArgStr dir, ArgErr e])
          else Inr '''')"

definition load_quota :: "golib \<Rightarrow> fsys \<Rightarrow> string \<Rightarrow> err + QuotaSnapshot option" where
  "load_quota lib fs dir =
     (case fs_ReadFile fs (path_join [dir, ''quota.json'']) of
        Inr data \<Rightarrow>
          (case Option.bind (json_parse data) decode_QuotaSnapshot of
             None \<Rightarrow> Inl (Errorf ''mock-server: parse %s/quota.json: %w''
               [ArgStr dir, ArgErr (External ''json'')])
           | Some snap \<Rightarrow> Inr (Some snap))
      | Inl e \<Rightarrow>
          if \<not> errors_is e fs_ErrNotExist
          then Inl (Errorf ''mock-server: read %s/quota.json: %w'' [ArgStr dir, ArgErr e])
          else Inr None)"

definition loadScenarioDir :: "golib \<Rightarrow> fsys \<Rightarrow> string \<Rightarrow> string \<Rightarrow> err + Scenario" where
  "loadScenarioDir lib fs dir name =
     (let s = \<lparr>Scen_Name = name, Scen_Items = Map.empty, Scen_Search = '''', Scen_Quota = None\<rparr>
      in case load_search fs dir of
        Inl e \<Rightarrow> Inl e
      | Inr data \<Rightarrow>
          let s = s\<lparr>Scen_Search := data\<rparr>
          in case load_quota lib fs dir of
            Inl e \<Rightarrow> Inl e
          | Inr snap \<Rightarrow>
              let s = s\<lparr>Scen_Quota := snap\<rparr>;
                  itemsDir = path_join [dir, ''items'']
              in case (case fs_ReadDir fs itemsDir of
                         Inr items \<Rightarrow> Inr items
                       | Inl e \<Rightarrow>
                           if \<not> errors_is e fs_ErrNotExist
                           then Inl (Errorf ''mock-server: read items dir %s: %w'' [ArgStr itemsDir, ArgErr e])
                           else Inr []) of
                Inl e \<Rightarrow> Inl e
              | Inr items \<Rightarrow>
                  (case load_items fs itemsDir (Scen_Items s) items of
                     Inl e \<Rightarrow> Inl e
                   | Inr m \<Rightarrow> Inr (s\<lparr>Scen_Items := m\<rparr>)))"

text \<open>The loop of \<open>LoadScenarios\<close> over the entries of the root.\<close>

fun load_entries :: "golib \<Rightarrow> fsys \<Rightarrow> string \<Rightarrow> ScenarioRegistry \<Rightarrow> DirEntry list \<Rightarrow> err + ScenarioRegistry" where
  "load_entries lib fs dir reg [] = Inr reg"
| "load_entries lib fs dir reg (entry # es) =
     (if \<not> Entry_IsDir entry then load_entries lib fs dir reg es
      else case loadScenarioDir lib fs (path_join [dir, Entry_Name entry]) (Entry_Name entry) of
        Inl e \<Rightarrow> Inl e
      | Inr s \<Rightarrow>
          let reg = reg\<lparr>Reg_scenarios := AList.update (Entry_Name entry) s (Reg_scenarios reg)\<rparr>;
              reg = (if Entry_Name entry = scenarioDefault then reg\<lparr>Reg_defaultScenario := Some s\<rparr> else reg);
              reg = (case parseSearch lib (Scen_Search s) of
                       None \<Rightarrow> reg
                     | Some search \<Rightarrow>
                         reg\<lparr>Reg_searchByScenario := (Reg_searchByScenario reg)(Entry_Name entry \<mapsto> search)\<rparr>)
          in load_entries lib fs dir reg es)"

definition LoadScenarios :: "golib \<Rightarrow> fsys \<Rightarrow> string \<Rightarrow> err + ScenarioRegistry" where
  "LoadScenarios lib fs dir =
     (case fs_ReadDir fs dir of
        Inl e \<Rightarrow> Inl (Errorf ''mock-server: read fixtures dir %q: %w'' [ArgQuoted dir, ArgErr e])
      | Inr entries \<Rightarrow>
          (case load_entries lib fs dir
                  \<lparr>Reg_scenarios = [], Reg_defaultScenario = None, Reg_searchByScenario = Map.empty\<rparr> entries of
             Inl e \<Rightarrow> Inl e
           | Inr reg \<Rightarrow> if Reg_defaultScenario reg = None then Inl ErrFixturesNotFound else Inr reg))"

subsection \<open>The registry\<close>

definition Resolve :: "ScenarioRegistry \<Rightarrow> string \<Rightarrow> string \<Rightarrow> string option" where
  "Resolve r active itemID =
     (case (case map_of (Reg_scenarios r) active of None \<Rightarrow> None | Some s \<Rightarrow> Scen_Items s itemID) of
        Some item \<Rightarrow> Some item
      | None \<Rightarrow>
          (case Reg_defaultScenario r of None \<Rightarrow> None | Some s \<Rightarrow> Scen_Items s itemID))"

definition QuotaForScenario :: "ScenarioRegistry \<Rightarrow> string \<Rightarrow> QuotaSnapshot option" where
  "QuotaForScenario r name =
     (case map_of (Reg_scenarios r) name of None \<Rightarrow> None | Some s \<Rightarrow> Scen_Quota s)"

text \<open>\<open>Names\<close> iterates a map: \<open>iter\<close> is the order Go happens to take.\<close>

definition Names :: "(string list \<Rightarrow> string list) \<Rightarrow> ScenarioRegistry \<Rightarrow> string list" where
  "Names iter r = iter (map fst (Reg_scenarios r))"

definition SearchTemplate :: "ScenarioRegistry \<Rightarrow> string \<Rightarrow> scenarioSearch option" where
  "SearchTemplate r active =
     (case Reg_searchByScenario r active of Some s \<Rightarrow> Some s | None \<Rightarrow> Reg_searchByScenario r scenarioDefault)"

subsection \<open>What the registry promises\<close>

text \<open>
  The registry after the entries read so far: every scenario under its own name, the default
  and the search templates derived from them.
\<close>

definition registry_ok :: "golib \<Rightarrow> ScenarioRegistry \<Rightarrow> bool" where
  "registry_ok lib r \<longleftrightarrow>
     distinct (map fst (Reg_scenarios r))
   \<and> Reg_defaultScenario r = map_of (Reg_scenarios r) scenarioDefault
   \<and> (\<forall>name. Reg_searchByScenario r name =
        Option.bind (map_of (Reg_scenarios r) name) (\<lambda>s. parseSearch lib (Scen_Search s)))"

definition add_scenario :: "golib \<Rightarrow> string \<Rightarrow> Scenario \<Rightarrow> ScenarioRegistry \<Rightarrow> ScenarioRegistry" where
  "add_scenario lib name s reg =
     (let reg = reg\<lparr>Reg_scenarios := AList.update name s (Reg_scenarios reg)\<rparr>;
          reg = (if name = scenarioDefault then reg\<lparr>Reg_defaultScenario := Some s\<rparr> else reg)
      in case parseSearch lib (Scen_Search s) of
           None \<Rightarrow> reg
         | Some search \<Rightarrow> reg\<lparr>Reg_searchByScenario := (Reg_searchByScenario reg)(name \<mapsto> search)\<rparr>)"

lemma add_scenario_fields:
  "Reg_scenarios (add_scenario lib name s reg) = AList.update name s (Reg_scenarios reg)"
  "Reg_defaultScenario (add_scenario lib name s reg) =
     (if name = scenarioDefault then Some s else Reg_defaultScenario reg)"
  "Reg_searchByScenario (add_scenario lib name s reg) =
     (case parseSearch lib (Scen_Search s) of None \<Rightarrow> Reg_searchByScenario reg
      | Some search \<Rightarrow> (Reg_searchByScenario reg)(name \<mapsto> search))"
  by (simp_all add: add_scenario_def Let_def split: option.split)

text \<open>Directory entries have different names, so no scenario is loaded twice.\<close>

lemma registry_ok_add:
  assumes "registry_ok lib reg" and "map_of (Reg_scenarios reg) name = None"
  shows "registry_ok lib (add_scenario lib name s reg)"
  using assms
  by (auto simp: registry_ok_def add_scenario_fields update_conv' distinct_update split: option.split)

lemma load_entries_Cons:
  "load_entries lib fs dir reg (entry # es) =
     (if \<not> Entry_IsDir entry then load_entries lib fs dir reg es
      else case loadScenarioDir lib fs (path_join [dir, Entry_Name entry]) (Entry_Name entry) of
        Inl e \<Rightarrow> Inl e
      | Inr s \<Rightarrow> load_entries lib fs dir (add_scenario lib (Entry_Name entry) s reg) es)"
  by (auto simp: add_scenario_def Let_def split: sum.split)

definition dir_names :: "DirEntry list \<Rightarrow> string list" where
  "dir_names es = map Entry_Name (filter Entry_IsDir es)"

lemma load_entries_Inr:
  assumes "load_entries lib fs dir reg es = Inr reg'" and "registry_ok lib reg"
    and "distinct (dir_names es)" and "set (dir_names es) \<inter> dom (map_of (Reg_scenarios reg)) = {}"
  shows "registry_ok lib reg'
    \<and> (\<forall>name. map_of (Reg_scenarios reg') name =
         (if name \<in> set (dir_names es)
          then (case loadScenarioDir lib fs (path_join [dir, name]) name of Inl _ \<Rightarrow> None | Inr s \<Rightarrow> Some s)
          else map_of (Reg_scenarios reg) name))
    \<and> (\<forall>name \<in> set (dir_names es). \<exists>s. loadScenarioDir lib fs (path_join [dir, name]) name = Inr s)"
  using assms
proof (induction es arbitrary: reg)
  case Nil
  then show ?case by (simp add: dir_names_def)
next
  case (Cons e es)
  show ?case
  proof (cases "Entry_IsDir e")
    case False
    with Cons show ?thesis by (simp add: dir_names_def)
  next
    case True
    let ?n = "Entry_Name e"
    have names: "dir_names (e # es) = ?n # dir_names es" using True by (simp add: dir_names_def)
    from Cons.prems(1) True obtain s where s: "loadScenarioDir lib fs (path_join [dir, ?n]) ?n = Inr s"
      and rest: "load_entries lib fs dir (add_scenario lib ?n s reg) es = Inr reg'"
      by (auto simp: load_entries_Cons simp del: load_entries.simps split: sum.splits)
    have new: "map_of (Reg_scenarios reg) ?n = None" using Cons.prems(4) names by (auto simp: domIff)
    have ok: "registry_ok lib (add_scenario lib ?n s reg)" using Cons.prems(2) new by (rule registry_ok_add)
    have ds: "distinct (dir_names es)" and nn: "?n \<notin> set (dir_names es)" using Cons.prems(3) names by simp_all
    have disj: "set (dir_names es) \<inter> dom (map_of (Reg_scenarios (add_scenario lib ?n s reg))) = {}"
      using Cons.prems(4) names nn by (auto simp: add_scenario_fields update_conv')
    from Cons.IH [OF rest ok ds disj] nn s show ?thesis
      unfolding names by (auto simp: add_scenario_fields update_conv')
  qed
qed

lemma LoadScenarios_Inr:
  assumes "LoadScenarios lib fs dir = Inr reg" and "fs_ReadDir fs dir = Inr entries"
    and "distinct (dir_names entries)"
  shows "registry_ok lib reg \<and> Reg_defaultScenario reg \<noteq> None
    \<and> (\<forall>name. case map_of (Reg_scenarios reg) name of
         None \<Rightarrow> name \<notin> set (dir_names entries)
       | Some s \<Rightarrow> name \<in> set (dir_names entries) \<and> loadScenarioDir lib fs (path_join [dir, name]) name = Inr s)"
proof -
  let ?empty = "\<lparr>Reg_scenarios = [], Reg_defaultScenario = None, Reg_searchByScenario = Map.empty\<rparr>"
  from assms have "load_entries lib fs dir ?empty entries = Inr reg" and d: "Reg_defaultScenario reg \<noteq> None"
    by (auto simp: LoadScenarios_def split: sum.splits if_splits)
  from load_entries_Inr [OF this(1) _ assms(3)] have
    "registry_ok lib reg" and "\<And>name. map_of (Reg_scenarios reg) name =
         (if name \<in> set (dir_names entries)
          then (case loadScenarioDir lib fs (path_join [dir, name]) name of Inl _ \<Rightarrow> None | Inr s \<Rightarrow> Some s)
          else None)"
    and "\<forall>name \<in> set (dir_names entries). \<exists>s. loadScenarioDir lib fs (path_join [dir, name]) name = Inr s"
    by (simp_all add: registry_ok_def)
  with d show ?thesis by (auto split: option.split)
qed

text \<open>
  C14. Loading the fixtures: on success there is one scenario per subdirectory of the root,
  each loaded from that subdirectory, and no other; the default exists and is the scenario of
  that name, and the cached search templates are the parsed search files.
\<close>

theorem LoadScenarios_exact:
  assumes "LoadScenarios lib fs dir = Inr reg" and "fs_ReadDir fs dir = Inr entries"
    and "distinct (dir_names entries)"
  shows "registry_ok lib reg \<and> Reg_defaultScenario reg \<noteq> None
    \<and> (\<forall>name. case map_of (Reg_scenarios reg) name of
         None \<Rightarrow> name \<notin> set (dir_names entries)
       | Some s \<Rightarrow> name \<in> set (dir_names entries) \<and> loadScenarioDir lib fs (path_join [dir, name]) name = Inr s)"
  using assms by (rule LoadScenarios_Inr)

text \<open>A concrete fixture tree: the default scenario and one that overrides its quota.\<close>

definition demo_fs :: fsys where
  "demo_fs =
     \<lparr>fs_ReadDir = (\<lambda>p. if p = ''fixtures'' then Inr [\<lparr>Entry_Name = ''default'', Entry_IsDir = True\<rparr>,
            \<lparr>Entry_Name = ''low'', Entry_IsDir = True\<rparr>, \<lparr>Entry_Name = ''README.md'', Entry_IsDir = False\<rparr>]
          else if p = ''fixtures/default/items'' then Inr [\<lparr>Entry_Name = ''v1%7C15%7C0.json'', Entry_IsDir = False\<rparr>]
          else Inl fs_ErrNotExist),
      fs_ReadFile = (\<lambda>p. if p = ''fixtures/default/items/v1%7C15%7C0.json'' then Inr ''item''
          else if p = ''fixtures/default/search.json'' then Inr ''{}''
          else if p = ''fixtures/low/quota.json'' then Inr ''{}''
          else Inl fs_ErrNotExist)\<rparr>"

definition demo_lib :: golib where
  "demo_lib = \<lparr>strings_ToLower = to_lower\<rparr>"

definition demo_registry :: ScenarioRegistry where
  "demo_registry = (case LoadScenarios demo_lib demo_fs ''fixtures'' of Inr r \<Rightarrow> r | Inl _ \<Rightarrow>
     \<lparr>Reg_scenarios = [], Reg_defaultScenario = None, Reg_searchByScenario = Map.empty\<rparr>)"

lemma demo_registry_loads: "LoadScenarios demo_lib demo_fs ''fixtures'' = Inr demo_registry"
proof -
  have "case LoadScenarios demo_lib demo_fs ''fixtures'' of Inr r \<Rightarrow> True | Inl _ \<Rightarrow> False"
    by code_simp
  then show ?thesis by (simp add: demo_registry_def split: sum.splits)
qed

lemma demo_registry_ok: "registry_ok demo_lib demo_registry \<and> Reg_defaultScenario demo_registry \<noteq> None"
proof -
  have "fs_ReadDir demo_fs ''fixtures'' = Inr [\<lparr>Entry_Name = ''default'', Entry_IsDir = True\<rparr>,
      \<lparr>Entry_Name = ''low'', Entry_IsDir = True\<rparr>, \<lparr>Entry_Name = ''README.md'', Entry_IsDir = False\<rparr>]"
    by (simp add: demo_fs_def)
  from LoadScenarios_Inr [OF demo_registry_loads this] show ?thesis by (simp add: dir_names_def)
qed

theorem LoadScenarios_exact_witness:
  "registry_ok demo_lib demo_registry \<and> Reg_defaultScenario demo_registry \<noteq> None"
proof -
  have "fs_ReadDir demo_fs ''fixtures'' = Inr [\<lparr>Entry_Name = ''default'', Entry_IsDir = True\<rparr>,
      \<lparr>Entry_Name = ''low'', Entry_IsDir = True\<rparr>, \<lparr>Entry_Name = ''README.md'', Entry_IsDir = False\<rparr>]"
    by (simp add: demo_fs_def)
  from LoadScenarios_exact [OF demo_registry_loads this] show ?thesis by (simp add: dir_names_def)
qed

text \<open>
  C15. Resolution overlays the active scenario on the default: an item, and a search template,
  come from the active scenario if it has one and from the default otherwise; with an unknown
  active scenario the default answers alone.
\<close>

theorem Resolve_overlay:
  assumes "registry_ok lib r" and "map_of (Reg_scenarios r) scenarioDefault = Some d"
  shows "Resolve r active = Scen_Items d ++
      (case map_of (Reg_scenarios r) active of None \<Rightarrow> Map.empty | Some s \<Rightarrow> Scen_Items s)
    \<and> SearchTemplate r active =
        (case Option.bind (map_of (Reg_scenarios r) active) (\<lambda>s. parseSearch lib (Scen_Search s)) of
           None \<Rightarrow> parseSearch lib (Scen_Search d)
         | Some t \<Rightarrow> Some t)"
  using assms
  by (auto simp: Resolve_def SearchTemplate_def registry_ok_def map_add_def fun_eq_iff split: option.split)

theorem Resolve_overlay_witness:
  "Resolve demo_registry ''low'' ''v1|15|0'' = Some ''item'' \<and> SearchTemplate demo_registry ''low'' \<noteq> None"
proof -
  obtain d where d: "map_of (Reg_scenarios demo_registry) scenarioDefault = Some d"
    using demo_registry_ok by (auto simp: registry_ok_def)
  have "case (map_of (Reg_scenarios demo_registry) scenarioDefault, map_of (Reg_scenarios demo_registry) ''low'') of
      (Some d, Some s) \<Rightarrow> Scen_Items d ''v1|15|0'' = Some ''item'' \<and> Scen_Items s ''v1|15|0'' = None
        \<and> (case parseSearch demo_lib (Scen_Search d) of None \<Rightarrow> False | Some _ \<Rightarrow> True)
    | _ \<Rightarrow> False"
    by code_simp
  with Resolve_overlay [OF _ d, of demo_lib "''low''"] demo_registry_ok show ?thesis
    by (auto simp: map_add_def d split: option.splits)
qed

subsection \<open>Item file names round trip\<close>

text \<open>
  How a fixture file is named after its item: the bytes a file name cannot hold, and the
  percent sign, are percent-encoded.
\<close>

definition escape_byte :: "char \<Rightarrow> string" where
  "escape_byte c =
     (if c = CHR ''|'' then ''%7C'' else if c = CHR ''/'' then ''%2F'' else if c = CHR ''%'' then ''%25'' else [c])"

definition fixture_name :: "string \<Rightarrow> string" where
  "fixture_name item_id = concat (map escape_byte item_id) @ ''.json''"

lemma unescape_byte: "path_unescape (escape_byte c @ t) = map_option (Cons c) (path_unescape t)"
proof -
  have "char_of (37 :: nat) = CHR ''%''" "char_of (47 :: nat) = CHR ''/''" "char_of (124 :: nat) = CHR ''|''"
    by code_simp+
  then show ?thesis by (auto simp: escape_byte_def hex_value_def Let_def)
qed

lemma unescape_escape: "path_unescape (concat (map escape_byte s)) = Some s"
  by (induction s) (auto simp: unescape_byte)

lemma trim_suffix_append [simp]: "trim_suffix (s @ p) p = s"
  by (simp add: trim_suffix_def has_suffix_def suffixI [OF refl])

text \<open>
  Fixture file names decode to the item they were named after: for every item identifier,
  with any mix of \<open>|\<close>, \<open>/\<close> and \<open>%\<close> in it, decoding the percent-encoded name gives the
  identifier back.
\<close>

lemma fixture_name_roundtrip: "decodeItemIDFromFilename (fixture_name item_id) = item_id"
  by (simp add: decodeItemIDFromFilename_def fixture_name_def unescape_escape)

end
