(* ===== verification/Mock_Fault.thy ===== *)
theory Mock_Fault
  imports Go_Http Go_Time "HOL-Library.Word"
begin

text \<open>
  \<^verbatim>\<open>tools/mock-server/faultinject.go\<close>: the rule set and the middleware. A compiled regular
  expression is a value of type \<open>'re\<close> with its match function as a parameter; the random draw
  of a request is the argument \<open>roll\<close>. Sleeping is recorded in a list of durations.
\<close>

record 're FaultRule =
  Rule_EndpointPattern :: "'re option"
  Rule_LatencyMs :: int
  Rule_FailRate :: f64

type_synonym 're FaultInjector = "'re FaultRule list"

definition NewFaultInjector :: "'re FaultInjector" where
  "NewFaultInjector = []"

definition SetRules :: "'re FaultInjector \<Rightarrow> 're FaultRule list \<Rightarrow> 're FaultInjector" where
  "SetRules f rules = rules"

definition Rules :: "'re FaultInjector \<Rightarrow> 're FaultRule list" where
  "Rules f = f"

fun match_rule :: "('re \<Rightarrow> string \<Rightarrow> bool) \<Rightarrow> 're FaultInjector \<Rightarrow> string \<Rightarrow> 're FaultRule option" where
  "match_rule MatchString [] path = None"
| "match_rule MatchString (r # rs) path =
     (if (case Rule_EndpointPattern r of None \<Rightarrow> False | Some re \<Rightarrow> MatchString re path)
      then Some r else match_rule MatchString rs path)"

definition fault_body :: string where
  "fault_body =
     ''{\"errors\":[{'' @ ''\"errorId\":50001,'' @ ''\"domain\":\"API_BROWSE\",'' @ ''\"category\":\"APPLICATION\",''
     @ ''\"message\":\"Service unavailable (fault-injected by mock-server).\",''
     @ ''\"longMessage\":\"Injected by mock-server FaultInjector.\"}]}''"

definition writeFaultError :: "response_writer \<Rightarrow> response_writer" where
  "writeFaultError w =
     (let w = header_set w ''Content-Type'' ''application/json'';
          w = write_header w 503
      in write_body w (Bytes fault_body))"

text \<open>\<^verbatim>\<open>time.Duration(ms) * time.Millisecond\<close> on int64; a sleep that is not positive returns at once.\<close>

definition latency :: "int \<Rightarrow> duration" where
  "latency ms = sint (word_of_int ms * word_of_int 1000000 :: 64 word)"

text \<open>
  The middleware on a server state \<open>'s\<close>: \<open>get\<close> reads the injector, \<open>sleep\<close> records a
  sleep.
\<close>

definition fault_Middleware ::
  "('re \<Rightarrow> string \<Rightarrow> bool) \<Rightarrow> f64 \<Rightarrow> ('s \<Rightarrow> 're FaultInjector) \<Rightarrow> (duration \<Rightarrow> 's \<Rightarrow> 's) \<Rightarrow> 's handler \<Rightarrow> 's handler" where
  "fault_Middleware MatchString roll get sleep nxt r s w =
     (case match_rule MatchString (get s) (Req_Path r) of
        None \<Rightarrow> nxt r s w
      | Some rule \<Rightarrow>
          let s = (if Rule_LatencyMs rule > 0 then sleep (latency (Rule_LatencyMs rule)) s else s)
          in if f64_gt (Rule_FailRate rule) (Fin 0) \<and> f64_lt roll (Rule_FailRate rule)
             then Served s (writeFaultError w)
             else nxt r s w)"

subsection \<open>First match wins\<close>

definition applies :: "('re \<Rightarrow> string \<Rightarrow> bool) \<Rightarrow> string \<Rightarrow> 're FaultRule \<Rightarrow> bool" where
  "applies MatchString path r = (\<exists>re. Rule_EndpointPattern r = Some re \<and> MatchString re path)"

lemma match_rule_find: "match_rule m rs path = find (applies m path) rs"
  by (induction rs) (auto simp: applies_def split: option.splits)

lemma match_rule_append:
  "match_rule m (rs @ qs) path =
     (case match_rule m rs path of None \<Rightarrow> match_rule m qs path | Some r \<Rightarrow> Some r)"
  by (induction rs) auto

text \<open>A response that is already under way cannot be a fault: the injector answers on its own.\<close>

lemma fault_response:
  assumes "Rw_Sent (base_conn w) = None" and "Rw_Body (base_conn w) = []"
  shows "wire (writeFaultError w) =
    Some (503, (Rw_Header (base_conn w))(''Content-Type'' \<mapsto> ''application/json''), [Bytes fault_body])"
  using assms by (simp add: writeFaultError_def Let_def wire_fresh)

text \<open>
  C13. Fault injection on a request, whatever the handler behind it: with no matching rule
  the request passes through untouched; otherwise the first matching rule decides alone, however
  the rules after it look. A rate of zero or less never fails a request, a rate above every draw
  always does, with the handler not run and its state unchanged but for the sleep.
\<close>

theorem fault_injection:
  assumes "f64_le (Fin 0) roll" and "f64_lt roll (Fin 1)" and "Rw_Sent (base_conn w) = None"
  shows "case find (applies m (Req_Path r)) (get s) of
      None \<Rightarrow> fault_Middleware m roll get sleep nxt r s w = nxt r s w
    | Some rule \<Rightarrow>
        (let t = (if Rule_LatencyMs rule > 0 then sleep (latency (Rule_LatencyMs rule)) s else s)
         in (f64_le (Rule_FailRate rule) (Fin 0) \<longrightarrow> fault_Middleware m roll get sleep nxt r s w = nxt r t w)
          \<and> (f64_le (Fin 1) (Rule_FailRate rule) \<longrightarrow>
               (\<exists>w'. fault_Middleware m roll get sleep nxt r s w = Served t w'
                  \<and> (\<exists>h body. wire w' = Some (503, h, body)))))"
proof -
  have sent: "\<exists>h body. wire (writeFaultError w) = Some (503, h, body)"
    using assms(3) by (simp add: writeFaultError_def Let_def wire_fresh)
  have zero: "\<not> f64_gt x (Fin 0)" if "f64_le x (Fin 0)" for x
    using that by (cases x) (auto simp: f64_le_def f64_gt_def)
  have one: "f64_gt x (Fin 0) \<and> f64_lt roll x" if "f64_le (Fin 1) x" for x
    using that assms(1,2) by (cases x; cases roll) (auto simp: f64_le_def f64_gt_def)
  show ?thesis
    using sent by (auto simp: Let_def fault_Middleware_def match_rule_find dest: zero one split: option.split)
qed

theorem fault_injection_witness:
  "\<exists>w'. fault_Middleware (\<lambda>re path. re = path) (Fin (1/2)) (\<lambda>s. s) (\<lambda>d s. s) (\<lambda>r s w. Aborted s ''unreachable'')
      \<lparr>Req_Method = ''GET'', Req_Path = ''/x'', Req_Query = (\<lambda>_. ''''), Req_Header = (\<lambda>_. ''''), Req_Body = ''''\<rparr>
      [\<lparr>Rule_EndpointPattern = Some ''/x'', Rule_LatencyMs = 5, Rule_FailRate = Fin 1\<rparr>] (Conn new_conn)
    = Served [\<lparr>Rule_EndpointPattern = Some ''/x'', Rule_LatencyMs = 5, Rule_FailRate = Fin 1\<rparr>] w'
    \<and> (\<exists>h body. wire w' = Some (503, h, body))"
  using fault_injection [where roll = "Fin (1/2)" and w = "Conn new_conn" and m = "\<lambda>re path. re = path"
      and r = "\<lparr>Req_Method = ''GET'', Req_Path = ''/x'', Req_Query = (\<lambda>_. ''''), Req_Header = (\<lambda>_. ''''), Req_Body = ''''\<rparr>"
      and get = "\<lambda>s. s" and s = "[\<lparr>Rule_EndpointPattern = Some ''/x'', Rule_LatencyMs = 5, Rule_FailRate = Fin 1\<rparr>]"
      and sleep = "\<lambda>d s. s" and nxt = "\<lambda>r s w. Aborted s ''unreachable''"]
  by (simp add: applies_def f64_le_def new_conn_def Let_def)

end
