(* ===== verification/Mock_Server.thy ===== *)
theory Mock_Server
  imports Mock_Scenarios Mock_Fault
begin

text \<open>
  \<^verbatim>\<open>tools/mock-server/server.go\<close> and \<^verbatim>\<open>handlers.go\<close>: the server, its handlers and its routes. A
  handler is a step on the server state and the response writer; the lock of the server is held
  for every read and write of it, so a step of the model is a critical section or more. What the
  code takes from outside (clock, time zone, regular expressions, the random draw, the order of a
  map iteration, Unicode lower case, the answers of the mux for unknown routes) is the record
  \<open>mock_env\<close>.
\<close>

record tokenConfig =
  Token_value :: string
  Token_expiresIn :: int
  Token_expiresRaw :: duration

record 're Server =
  Srv_scenarios :: ScenarioRegistry
  Srv_activeScenario :: string
  Srv_quota :: QuotaState
  Srv_fault :: "'re FaultInjector"
  Srv_token :: tokenConfig
  Srv_slept :: "duration list"

record 're mock_env =
  env_now :: instant
  env_zone :: "instant \<Rightarrow> int"
  env_Compile :: "string \<Rightarrow> err + 're"
  env_MatchString :: "'re \<Rightarrow> string \<Rightarrow> bool"
  env_roll :: f64
  env_iter :: "string list \<Rightarrow> string list"
  env_ToLower :: "string \<Rightarrow> string"
  env_error_text :: "err \<Rightarrow> string"
  env_mux_default :: "request \<Rightarrow> response_writer \<Rightarrow> response_writer"

definition ErrUnknownScenario :: err where
  "ErrUnknownScenario = Sentinel ''mock-server: unknown scenario''"

definition ebayUSMarketplace :: string where "ebayUSMarketplace = ''EBAY_US''"

subsection \<open>Construction and scenarios\<close>

record ServerOptions =
  MOpt_Logger :: "string option"
  MOpt_Scenario :: string
  MOpt_FixturesDir :: string
  MOpt_TokenExpires :: duration

text \<open>\<^verbatim>\<open>int64(d.Seconds())\<close>: whole seconds plus the rest as a float64, truncated towards zero.\<close>

definition int64_of_seconds :: "duration \<Rightarrow> int" where
  "int64_of_seconds d =
     (let a = \<bar>d\<bar>;
          x = f64_add (f64_of_int (a div Second)) (f64_div (f64_of_int (a mod Second)) (Fin 1000000000))
      in case x of Fin q \<Rightarrow> sgn d * \<lfloor>q\<rfloor> | _ \<Rightarrow> 0)"

definition NewServer ::
  "golib \<Rightarrow> fsys \<Rightarrow> (string \<Rightarrow> fsys) \<Rightarrow> instant \<Rightarrow> ServerOptions \<Rightarrow> err + 're Server" where
  "NewServer lib fixturesFS DirFS now opts =
     (if MOpt_Logger opts = None then Inl (Errorf ''mock-server: ServerOptions.Logger is required'' [])
      else
        let expires = (if MOpt_TokenExpires opts = 0 then 2 * Hour else MOpt_TokenExpires opts);
            (fs, dir) = (if MOpt_FixturesDir opts \<noteq> '''' then (DirFS (MOpt_FixturesDir opts), ''.'')
                         else (fixturesFS, ''fixtures''))
        in case LoadScenarios lib fs dir of
             Inl e \<Rightarrow> Inl e
           | Inr reg \<Rightarrow>
               let active = (if MOpt_Scenario opts = '''' then scenarioDefault else MOpt_Scenario opts)
               in if map_of (Reg_scenarios reg) active = None \<and> active \<noteq> scenarioDefault
                  then Inl ErrUnknownScenario
                  else
                    let srv = \<lparr>Srv_scenarios = reg, Srv_activeScenario = active,
                               Srv_quota = NewQuotaState now 5000 (24 * Hour), Srv_fault = NewFaultInjector,
                               Srv_token = \<lparr>Token_value = ''spt-mock-bearer-token'',
                                 Token_expiresIn = int64_of_seconds expires, Token_expiresRaw = expires\<rparr>,
                               Srv_slept = []\<rparr>
                    in case QuotaForScenario reg active of
                         None \<Rightarrow> Inr srv
                       | Some q \<Rightarrow> Inr (srv\<lparr>Srv_quota := quota_Apply now (Srv_quota srv) q\<rparr>))"

definition ActiveScenario :: "'re Server \<Rightarrow> string" where
  "ActiveScenario s = Srv_activeScenario s"

definition SetActiveScenario :: "instant \<Rightarrow> string \<Rightarrow> 're Server \<Rightarrow> err option \<times> 're Server" where
  "SetActiveScenario now name s =
     (if map_of (Reg_scenarios (Srv_scenarios s)) name = None then (Some ErrUnknownScenario, s)
      else
        let s = s\<lparr>Srv_activeScenario := name\<rparr>
        in case QuotaForScenario (Srv_scenarios s) name of
             None \<Rightarrow> (None, s)
           | Some q \<Rightarrow> (None, s\<lparr>Srv_quota := quota_Apply now (Srv_quota s) q\<rparr>))"

subsection \<open>Helpers of the handlers\<close>

definition writeJSON :: "response_writer \<Rightarrow> int \<Rightarrow> json \<Rightarrow> response_writer" where
  "writeJSON w code body = respond_json w code body"

definition writeAdminError :: "response_writer \<Rightarrow> int \<Rightarrow> string \<Rightarrow> response_writer" where
  "writeAdminError w status msg = writeJSON w status (JObj [(''error'', JStr msg)])"

definition writeEbayError :: "response_writer \<Rightarrow> int \<Rightarrow> int \<Rightarrow> string \<Rightarrow> string \<Rightarrow> response_writer" where
  "writeEbayError w status errorID dmn message =
     writeJSON w status (JObj [(''errors'', JArr [JObj
       [(''category'', JStr ''REQUEST''), (''domain'', JStr dmn), (''errorId'', JInt errorID),
        (''message'', JStr message)]])])"

definition atoiOr :: "string \<Rightarrow> int \<Rightarrow> int" where
  "atoiOr s fallback =
     (if s = '''' then fallback else case atoi s of None \<Rightarrow> fallback | Some n \<Rightarrow> n)"

fun containsAllWords :: "string \<Rightarrow> string list \<Rightarrow> bool" where
  "containsAllWords titleLower [] = True"
| "containsAllWords titleLower (t # ts) =
     (if t = '''' then containsAllWords titleLower ts
      else if \<not> str_contains titleLower t then False
      else containsAllWords titleLower ts)"

text \<open>The loop of \<open>handleSearch\<close> that keeps the matching summaries.\<close>

fun filter_items :: "string list \<Rightarrow> itemSummary list \<Rightarrow> itemSummary list" where
  "filter_items terms [] = []"
| "filter_items terms (it # its) =
     (if 0 < length terms \<and> \<not> containsAllWords (Item_titleLowercase it) terms then filter_items terms its
      else it # filter_items terms its)"

text \<open>\<^verbatim>\<open>filtered[start:end]\<close> with the clamping before it; \<open>None\<close> is the panic of a bad bound.\<close>

definition search_page :: "'a list \<Rightarrow> int \<Rightarrow> int \<Rightarrow> 'a list option" where
  "search_page filtered offset limit =
     (let len = int (length filtered);
          start = (if offset > len then len else offset);
          stop = (if start + limit > len then len else start + limit)
      in if 0 \<le> start \<and> start \<le> stop
         then Some (take (nat (stop - start)) (drop (nat start) filtered)) else None)"

subsection \<open>Handlers\<close>

definition handleOAuth :: "'re Server handler" where
  "handleOAuth r s w =
     Served s (writeJSON w 200 (JObj
       [(''access_token'', JStr (Token_value (Srv_token s))),
        (''expires_in'', JInt (Token_expiresIn (Srv_token s))), (''token_type'', JStr ''Bearer'')]))"

definition search_limit :: "request \<Rightarrow> int" where
  "search_limit r =
     (let limit = atoiOr (Req_Query r ''limit'') 50 in if limit \<le> 0 \<or> limit > 200 then 50 else limit)"

definition handleSearch :: "'re mock_env \<Rightarrow> 're Server handler" where
  "handleSearch env r s w =
     (case SearchTemplate (Srv_scenarios s) (Srv_activeScenario s) of
        None \<Rightarrow>
          Served s (writeJSON w 200 (JObj [(''href'', JStr ''''), (''itemSummaries'', JArr []), (''total'', JInt 0)]))
      | Some tmpl \<Rightarrow>
          let marketplace = Req_Header r ''X-EBAY-C-MARKETPLACE-ID'';
              marketplace = (if marketplace = '''' then ebayUSMarketplace else marketplace);
              terms = str_fields (env_ToLower env (Req_Query r ''q''));
              limit = search_limit r;
              offset = atoiOr (Req_Query r ''offset'') 0;
              filtered = filter_items terms (Search_items tmpl)
          in case search_page filtered offset limit of
               None \<Rightarrow> Aborted s ''slice bounds out of range''
             | Some page \<Rightarrow>
                 Served s (writeJSON w 200 (JObj
                   [(''href'', JStr (''/buy/browse/v1/item_summary/search?q='' @ Req_Query r ''q'')),
                    (''itemSummaries'', JArr (map Item_raw page)),
                    (''limit'', JInt limit), (''marketplaceId'', JStr marketplace),
                    (''offset'', JInt offset), (''total'', JInt (int (length filtered)))])))"

definition handleGetItem :: "string \<Rightarrow> 're Server handler" where
  "handleGetItem itemID r s w =
     (case Resolve (Srv_scenarios s) (Srv_activeScenario s) itemID of
        None \<Rightarrow>
          Served s (writeEbayError w 404 11001 ''API_BROWSE'' (''Item '' @ quote itemID @ '' not found.''))
      | Some body \<Rightarrow>
          Served s (write_body (write_header (header_set w ''Content-Type'' ''application/json'') 200) (Bytes body)))"

definition handleAnalytics :: "'re mock_env \<Rightarrow> 're Server handler" where
  "handleAnalytics env r s w =
     (let snap = Snapshot (env_now env) (Srv_quota s)
      in Served s (writeJSON w 200 (JObj [(''rateLimits'', JArr [JObj
           [(''apiContext'', JStr ''buy''), (''apiName'', JStr ''browse''),
            (''resources'', JArr [JObj
              [(''name'', JStr ''search''),
               (''rates'', JArr [JObj
                 [(''limit'', JInt (sint (Snap_Limit snap))),
                  (''remaining'', JInt (sint (Snap_Limit snap - Snap_Count snap))),
                  (''reset'', JStr (let t = env_now env + Snap_ResetAfter snap in format_RFC3339 (env_zone env t) t)),
                  (''timeWindow'', JInt 86400),
                  (''timeWindowName'', JStr (Snap_TimeWindow snap))]])]])]])])))"

definition handleSetScenario :: "'re mock_env \<Rightarrow> 're Server handler" where
  "handleSetScenario env r s w =
     (case Option.bind (Option.bind (json_Decode (Req_Body r)) json_object)
             (\<lambda>kvs. decode_field dec_string '''' (json_members ''name'' kvs)) of
        None \<Rightarrow> Served s (writeAdminError w 400 ''invalid JSON'')
      | Some name \<Rightarrow>
          (case SetActiveScenario (env_now env) name s of
             (Some e, s) \<Rightarrow> Served s (writeAdminError w 404 (env_error_text env e))
           | (None, s) \<Rightarrow> Served s (writeJSON w 200 (JObj [(''active'', JStr name)]))))"

definition encode_QuotaSnapshot :: "QuotaSnapshot \<Rightarrow> json" where
  "encode_QuotaSnapshot snap =
     JObj ([(''count'', JInt (sint (Snap_Count snap))), (''limit'', JInt (sint (Snap_Limit snap))),
            (''reset_after'', JInt (Snap_ResetAfter snap)), (''time_window'', JStr (Snap_TimeWindow snap))]
           @ (case Snap_AutoIncr snap of None \<Rightarrow> [] | Some b \<Rightarrow> [(''auto_incr'', JBool b)]))"

definition handleSetQuota :: "'re mock_env \<Rightarrow> 're Server handler" where
  "handleSetQuota env r s w =
     (case Option.bind (json_Decode (Req_Body r)) decode_QuotaSnapshot of
        None \<Rightarrow> Served s (writeAdminError w 400 ''invalid JSON'')
      | Some snap \<Rightarrow>
          let s = s\<lparr>Srv_quota := quota_Apply (env_now env) (Srv_quota s) snap\<rparr>
          in Served s (writeJSON w 200 (encode_QuotaSnapshot (Snapshot (env_now env) (Srv_quota s)))))"

record faultBody =
  Body_Endpoint :: string
  Body_LatencyMs :: int
  Body_FailRate :: f64
  Body_Clear :: bool

definition decode_faultBody :: "json \<Rightarrow> faultBody option" where
  "decode_faultBody doc =
     (case json_object doc of
        None \<Rightarrow> None
      | Some kvs \<Rightarrow>
          (case (decode_field dec_string '''' (json_members ''endpoint'' kvs),
                 decode_field dec_int64 0 (json_members ''latency_ms'' kvs),
                 decode_field dec_float (Fin 0) (json_members ''fail_rate'' kvs),
                 decode_field dec_bool False (json_members ''clear'' kvs)) of
             (Some e, Some l, Some f, Some c) \<Rightarrow>
               Some \<lparr>Body_Endpoint = e, Body_LatencyMs = l, Body_FailRate = f, Body_Clear = c\<rparr>
           | _ \<Rightarrow> None))"

text \<open>
  \<open>handleSetFault\<close> reads the rules and writes them back in two critical sections;
  \<open>fault_rules_after\<close> is what it writes for the rules it has read.
\<close>

definition fault_rules_after :: "'re \<Rightarrow> faultBody \<Rightarrow> 're FaultRule list \<Rightarrow> 're FaultRule list" where
  "fault_rules_after re body rules =
     rules @ [\<lparr>Rule_EndpointPattern = Some re, Rule_LatencyMs = Body_LatencyMs body, Rule_FailRate = Body_FailRate body\<rparr>]"

definition handleSetFault :: "'re mock_env \<Rightarrow> 're Server handler" where
  "handleSetFault env r s w =
     (case Option.bind (json_Decode (Req_Body r)) decode_faultBody of
        None \<Rightarrow> Served s (writeAdminError w 400 ''invalid JSON'')
      | Some body \<Rightarrow>
          if Body_Clear body then
            Served (s\<lparr>Srv_fault := SetRules (Srv_fault s) []\<rparr>) (writeJSON w 200 (JObj [(''rules'', JArr [])]))
          else if Body_Endpoint body = '''' then
            Served s (writeAdminError w 400 ''endpoint pattern required'')
          else case env_Compile env (Body_Endpoint body) of
            Inl e \<Rightarrow> Served s (writeAdminError w 400 (''invalid endpoint regex: '' @ env_error_text env e))
          | Inr re \<Rightarrow>
              let rules = fault_rules_after re body (Rules (Srv_fault s))
              in Served (s\<lparr>Srv_fault := SetRules (Srv_fault s) rules\<rparr>)
                   (writeJSON w 200 (JObj [(''rules'', JInt (int (length rules)))])))"

definition handleListScenarios :: "'re mock_env \<Rightarrow> 're Server handler" where
  "handleListScenarios env r s w =
     Served s (writeJSON w 200 (JObj
       [(''active'', JStr (Srv_activeScenario s)),
        (''available'', JArr (map JStr (Names (env_iter env) (Srv_scenarios s))))]))"

subsection \<open>Routes\<close>

text \<open>
  The mux: patterns with a method, one wildcard segment and one subtree; GET also serves HEAD. A
  path that is not clean, or that no pattern matches with its method, gets the mux's own answer
  (a redirect, 404 or 405). Paths are decoded; an encoded slash is out of scope.
\<close>

definition mux_clean :: "string \<Rightarrow> bool" where
  "mux_clean p = (p \<noteq> '''' \<and> hd p = CHR ''/'' \<and>
     p = (let c = path_clean p in if last p = CHR ''/'' \<and> c \<noteq> ''/'' then c @ ''/'' else c))"

definition is_get :: "request \<Rightarrow> bool" where
  "is_get r = (Req_Method r = ''GET'' \<or> Req_Method r = ''HEAD'')"

definition is_post :: "request \<Rightarrow> bool" where
  "is_post r = (Req_Method r = ''POST'')"

definition wildcard_segment :: "string \<Rightarrow> string \<Rightarrow> string option" where
  "wildcard_segment pre p =
     (if has_prefix p pre \<and> p \<noteq> pre \<and> CHR ''/'' \<notin> set (drop (length pre) p)
      then Some (drop (length pre) p) else None)"

abbreviation put_quota :: "QuotaState \<Rightarrow> 're Server \<Rightarrow> 're Server" where
  "put_quota q s \<equiv> s\<lparr>Srv_quota := q\<rparr>"

definition mux :: "'re mock_env \<Rightarrow> 're Server handler" where
  "mux env r s w =
     (let p = Req_Path r in
      if \<not> mux_clean p then Served s (env_mux_default env r w)
      else if is_post r \<and> p = ''/identity/v1/oauth2/token'' then handleOAuth r s w
      else if is_get r \<and> p = ''/buy/browse/v1/item_summary/search'' then
        quota_Middleware Srv_quota put_quota (handleSearch env) r s w
      else if is_get r \<and> wildcard_segment ''/buy/browse/v1/item/'' p \<noteq> None then
        quota_Middleware Srv_quota put_quota
          (handleGetItem (the (wildcard_segment ''/buy/browse/v1/item/'' p))) r s w
      else if is_get r \<and> has_prefix p ''/developer/analytics/v1_beta/rate_limit/'' then handleAnalytics env r s w
      else if is_post r \<and> p = ''/admin/scenario'' then handleSetScenario env r s w
      else if is_post r \<and> p = ''/admin/quota'' then handleSetQuota env r s w
      else if is_post r \<and> p = ''/admin/fault'' then handleSetFault env r s w
      else if is_get r \<and> p = ''/admin/scenarios'' then handleListScenarios env r s w
      else Served s (env_mux_default env r w))"

definition Routes :: "'re mock_env \<Rightarrow> 're Server handler" where
  "Routes env = fault_Middleware (env_MatchString env) (env_roll env) Srv_fault
     (\<lambda>d s. s\<lparr>Srv_slept := Srv_slept s @ [d]\<rparr>) (mux env)"

text \<open>A run of the server: requests one after the other, each with its environment.\<close>

fun serve_all :: "('re mock_env \<times> request) list \<Rightarrow> 're Server \<Rightarrow> 're Server" where
  "serve_all [] s = s"
| "serve_all ((env, r) # rs) s = serve_all rs (served_state (Routes env r s (Conn new_conn)))"

subsection \<open>The handlers behind the quota middleware\<close>

lemma put_quota_law: "Srv_quota (put_quota q s) = q"
  by simp

text \<open>A response written by \<open>writeJSON\<close>, or raw with a content type, keeps the recorder around it.\<close>

lemma writeJSON_recorder:
  "\<exists>w' c' b'. writeJSON (StatusRecorder w c b) code body = StatusRecorder w' c' b'
     \<and> (recorder_in_step (StatusRecorder w c b) \<longrightarrow> recorder_in_step (writeJSON (StatusRecorder w c b) code body))"
  using respond_json_step [of "StatusRecorder w c b" code body]
  by (auto simp: writeJSON_def respond_json_def simp del: recorder_in_step.simps)

lemma write_bytes_recorder:
  "\<exists>w' c' b'. write_body (write_header (header_set (StatusRecorder w c b) k v) code) x = StatusRecorder w' c' b'
     \<and> (recorder_in_step (StatusRecorder w c b) \<longrightarrow>
          recorder_in_step (write_body (write_header (header_set (StatusRecorder w c b) k v) code) x))"
proof -
  let ?u = "write_body (write_header (header_set (StatusRecorder w c b) k v) code) x"
  have "recorder_in_step (StatusRecorder w c b) \<Longrightarrow> recorder_in_step ?u"
    by (intro recorder_in_step_ops)
  moreover have "\<exists>w' c' b'. ?u = StatusRecorder w' c' b'" by auto
  ultimately show ?thesis by blast
qed

lemma writeJSON_wire:
  "Rw_Sent (base_conn w) = None \<Longrightarrow>
     wire (writeJSON w code body) =
       Some (code, (Rw_Header (base_conn w))(''Content-Type'' \<mapsto> ''application/json''), Rw_Body (base_conn w) @ [Doc body])"
  by (simp add: writeJSON_def wire_respond_json)

lemma search_keeps_state: "served_state (handleSearch env r s w) = s"
  by (simp add: handleSearch_def Let_def split: option.split)

lemma get_item_keeps_state: "served_state (handleGetItem itemID r s w) = s"
  by (simp add: handleGetItem_def writeEbayError_def split: option.split)

interpretation search_route: metered_handler Srv_quota put_quota "handleSearch env" for env
proof
  show "handleSearch env r s (StatusRecorder w c b) = Served s' rw \<Longrightarrow>
      \<exists>w' c' b'. rw = StatusRecorder w' c' b' \<and> (recorder_in_step (StatusRecorder w c b) \<longrightarrow> recorder_in_step rw)"
    for r s w c b s' rw
    using writeJSON_recorder [of w c b]
    by (auto simp: handleSearch_def Let_def split: option.splits simp del: recorder_in_step.simps)
  show "handleSearch env r s w = Served s' rw \<Longrightarrow> Rw_Sent (base_conn w) = None \<Longrightarrow> wire rw \<noteq> None" for r s w s' rw
    by (auto simp: handleSearch_def Let_def writeJSON_wire split: option.splits)
qed (simp_all add: search_keeps_state)

interpretation item_route: metered_handler Srv_quota put_quota "handleGetItem itemID" for itemID
proof
  show "handleGetItem itemID r s (StatusRecorder w c b) = Served s' rw \<Longrightarrow>
      \<exists>w' c' b'. rw = StatusRecorder w' c' b' \<and> (recorder_in_step (StatusRecorder w c b) \<longrightarrow> recorder_in_step rw)"
    for r s w c b s' rw
    using writeJSON_recorder [of w c b] write_bytes_recorder [of w c b]
    by (auto simp: handleGetItem_def writeEbayError_def split: option.splits
        simp del: recorder_in_step.simps header_set.simps write_header.simps write_body.simps)
  show "handleGetItem itemID r s w = Served s' rw \<Longrightarrow> Rw_Sent (base_conn w) = None \<Longrightarrow> wire rw \<noteq> None" for r s w s' rw
    by (auto simp: handleGetItem_def writeEbayError_def writeJSON_wire wire_fresh split: option.splits)
qed (simp_all add: get_item_keeps_state)

text \<open>The two metered routes.\<close>

definition metered :: "request \<Rightarrow> bool" where
  "metered r = (mux_clean (Req_Path r) \<and> is_get r
     \<and> (Req_Path r = ''/buy/browse/v1/item_summary/search''
        \<or> wildcard_segment ''/buy/browse/v1/item/'' (Req_Path r) \<noteq> None))"

definition metered_handler_of :: "'re mock_env \<Rightarrow> request \<Rightarrow> 're Server handler" where
  "metered_handler_of env r =
     (if Req_Path r = ''/buy/browse/v1/item_summary/search'' then handleSearch env
      else handleGetItem (the (wildcard_segment ''/buy/browse/v1/item/'' (Req_Path r))))"

lemma metered_handler_cases:
  obtains "metered_handler_of env r = handleSearch env"
  | itemID where "metered_handler_of env r = handleGetItem itemID"
  by (cases "Req_Path r = ''/buy/browse/v1/item_summary/search''") (auto simp: metered_handler_of_def)

lemma mux_metered:
  assumes "metered r"
  shows "mux env r s w = quota_Middleware Srv_quota put_quota (metered_handler_of env r) r s w"
  using assms by (auto simp: mux_def metered_def metered_handler_of_def Let_def is_get_def is_post_def)

lemma metered_counts:
  assumes "quota_Middleware Srv_quota put_quota (metered_handler_of env r) r s w = Served s' w'"
    and "Rw_Sent (base_conn w) = None" and "recorder_in_step w"
  shows "\<exists>code h body. wire w' = Some (code, h, body)
    \<and> Srv_quota s' = (if 200 \<le> code \<and> code < 300 then counted (Srv_quota s) else Srv_quota s)"
proof (cases rule: metered_handler_cases [of env r])
  case 1
  with search_route.counts_successes [OF assms(2,3), of env r s s' w'] assms(1) show ?thesis by simp
next
  case (2 itemID)
  with item_route.counts_successes [OF assms(2,3), of itemID r s s' w'] assms(1) show ?thesis by simp
qed

lemma metered_unstamped:
  assumes "quota_Middleware Srv_quota put_quota (metered_handler_of env r) r s w = Served s' w'"
    and "Rw_Sent (base_conn w) = None"
  shows "\<exists>t rw. metered_handler_of env r r s (StatusRecorder w 200 False) = Served t rw \<and> wire w' = wire rw"
proof (cases rule: metered_handler_cases [of env r])
  case 1
  with search_route.wire_unstamped [OF assms(2), of env r s s' w'] assms(1) show ?thesis by simp
next
  case (2 itemID)
  with item_route.wire_unstamped [OF assms(2), of itemID r s s' w'] assms(1) show ?thesis by simp
qed

lemma Routes_unmatched:
  "find (applies (env_MatchString env) (Req_Path r)) (Srv_fault s) = None \<Longrightarrow> Routes env r s w = mux env r s w"
  by (simp add: Routes_def fault_Middleware_def match_rule_find)

lemma metered_headers:
  assumes "metered_handler_of env r r s (StatusRecorder (Conn new_conn) 200 False) = Served s' rw"
  shows "\<exists>code body. wire rw = Some (code, [''Content-Type'' \<mapsto> ''application/json''], body)"
  using assms
  by (auto simp: metered_handler_of_def handleSearch_def handleGetItem_def writeEbayError_def Let_def writeJSON_wire
      wire_fresh new_conn_def split: if_splits option.splits
      simp del: header_set.simps write_header.simps write_body.simps)

text \<open>
  C10. A call on a metered route that no fault rule matches: the client gets the handler's
  own response, and the call is counted exactly when its status is a success; nothing else of the
  server changes. The quota headers are stamped after the response has gone out, so the client
  never sees them.
\<close>

theorem metered_call:
  assumes "metered r" and "find (applies (env_MatchString env) (Req_Path r)) (Srv_fault s) = None"
    and "Routes env r s (Conn new_conn) = Served s' w'"
  shows "\<exists>code body. wire w' = Some (code, [''Content-Type'' \<mapsto> ''application/json''], body)
    \<and> Srv_quota s' = (if 200 \<le> code \<and> code < 300 then counted (Srv_quota s) else Srv_quota s)
    \<and> s' = put_quota (Srv_quota s') s"
proof -
  let ?h = "metered_handler_of env r"
  have mw: "quota_Middleware Srv_quota put_quota ?h r s (Conn new_conn) = Served s' w'"
    using assms by (simp add: Routes_unmatched mux_metered)
  have fresh: "Rw_Sent (base_conn (Conn new_conn)) = None" "recorder_in_step (Conn new_conn)"
    by (simp_all add: new_conn_def)
  note metered_counts [OF mw fresh]
  moreover from metered_unstamped [OF mw fresh(1)] obtain t rw
    where h: "?h r s (StatusRecorder (Conn new_conn) 200 False) = Served t rw" and w: "wire w' = wire rw"
    by blast
  moreover have "s' = put_quota (Srv_quota s') s"
  proof -
    have "served_state (?h r s (StatusRecorder (Conn new_conn) 200 False)) = s"
      by (simp add: metered_handler_of_def search_keeps_state get_item_keeps_state)
    with h have "t = s" by simp
    with mw h show ?thesis by (auto simp: quota_Middleware_def Let_def split: if_splits prod.splits)
  qed
  ultimately show ?thesis using metered_headers [OF h] by auto
qed

text \<open>A concrete server over the demo fixtures; regular expressions are literal paths.\<close>

definition demo_env :: "string mock_env" where
  "demo_env =
     \<lparr>env_now = 0, env_zone = (\<lambda>t. 0), env_Compile = Inr, env_MatchString = (\<lambda>re p. re = p),
      env_roll = Fin (1/2), env_iter = (\<lambda>ns. ns), env_ToLower = to_lower,
      env_error_text = (\<lambda>e. case e of Sentinel m \<Rightarrow> m | _ \<Rightarrow> ''error''), env_mux_default = (\<lambda>r w. write_header w 404)\<rparr>"

definition demo_server :: "string Server" where
  "demo_server =
     \<lparr>Srv_scenarios = demo_registry, Srv_activeScenario = ''low'',
      Srv_quota = NewQuotaState 0 5000 (24 * Hour), Srv_fault = [],
      Srv_token = \<lparr>Token_value = ''t'', Token_expiresIn = 7200, Token_expiresRaw = 2 * Hour\<rparr>, Srv_slept = []\<rparr>"

definition demo_get :: "string \<Rightarrow> (string \<times> string) list \<Rightarrow> request" where
  "demo_get p qs = \<lparr>Req_Method = ''GET'', Req_Path = p,
     Req_Query = (\<lambda>k. case map_of qs k of None \<Rightarrow> '''' | Some v \<Rightarrow> v), Req_Header = (\<lambda>_. ''''), Req_Body = ''''\<rparr>"

theorem metered_call_witness:
  "\<exists>s'. served_state (Routes demo_env (demo_get ''/buy/browse/v1/item/v1|15|0'' []) demo_server (Conn new_conn)) = s'
     \<and> Quota_count (Srv_quota s') = 1"
proof -
  let ?r = "demo_get ''/buy/browse/v1/item/v1|15|0'' []"
  have m: "metered ?r" by code_simp
  have "wildcard_segment ''/buy/browse/v1/item/'' ''/buy/browse/v1/item/v1|15|0'' = Some ''v1|15|0''" by code_simp
  then have h: "metered_handler_of demo_env ?r = handleGetItem ''v1|15|0''"
    by (simp add: metered_handler_of_def demo_get_def)
  have item: "Resolve demo_registry ''low'' ''v1|15|0'' = Some ''item''" by code_simp
  have un: "Routes demo_env ?r demo_server (Conn new_conn) =
      quota_Middleware Srv_quota put_quota (handleGetItem ''v1|15|0'') ?r demo_server (Conn new_conn)"
    using Routes_unmatched [of demo_env ?r demo_server] mux_metered [OF m, of demo_env] h
    by (simp add: demo_server_def)
  obtain s' w' where sv: "Routes demo_env ?r demo_server (Conn new_conn) = Served s' w'"
    and w: "\<exists>x. wire w' = Some (200, x)"
    unfolding un quota_Middleware_def
    by (auto simp: handleGetItem_def item demo_server_def new_conn_def incrementAndStamp_def Let_def
        wire_def conn_write_def conn_write_header_def)
  have "find (applies (env_MatchString demo_env) (Req_Path ?r)) (Srv_fault demo_server) = None"
    by (simp add: demo_server_def)
  from metered_call [OF m this sv] w have "Srv_quota s' = counted (Srv_quota demo_server)" by auto
  moreover have "Quota_count (counted (Srv_quota demo_server)) = 1"
    by (simp add: counted_def demo_server_def NewQuotaState_def)
  ultimately show ?thesis by (simp add: sv)
qed

subsection \<open>Search\<close>

text \<open>What a search means: the items whose lower-case title has every term as a substring.\<close>

definition matching :: "string list \<Rightarrow> itemSummary list \<Rightarrow> itemSummary list" where
  "matching terms items = filter (\<lambda>it. \<forall>t \<in> set terms. sublist t (Item_titleLowercase it)) items"

lemma containsAllWords_iff: "containsAllWords s ts \<longleftrightarrow> (\<forall>t \<in> set ts. sublist t s)"
  by (induction ts) (auto simp: str_contains_sublist)

lemma filter_items_matching: "filter_items terms items = matching terms items"
  by (induction items) (auto simp: matching_def containsAllWords_iff)

lemma search_page_negative: "offset < 0 \<Longrightarrow> search_page xs offset limit = None"
  by (simp add: search_page_def Let_def)

lemma search_page_spec:
  assumes "0 \<le> offset" and "0 \<le> limit"
  shows "search_page xs offset limit = Some (take (nat limit) (drop (nat offset) xs))"
proof (cases "offset \<le> int (length xs)")
  case True
  let ?stop = "if offset + limit > int (length xs) then int (length xs) else offset + limit"
  have "take (nat (?stop - offset)) (drop (nat offset) xs) = take (nat limit) (drop (nat offset) xs)"
    using True assms by (auto simp: nat_add_distrib nat_diff_distrib)
  then show ?thesis using True assms by (auto simp: search_page_def Let_def)
next
  case False
  then show ?thesis using assms by (auto simp: search_page_def Let_def)
qed

lemma search_limit_range: "1 \<le> search_limit r \<and> search_limit r \<le> 200"
  by (simp add: search_limit_def Let_def)

text \<open>
  C11. A search with a template aborts the connection exactly on a negative offset; otherwise
  it answers 200 with the page that starts at the offset and has at most the limit (which is forced
  into 1 to 200) of the items whose title contains all words of the query, in fixture order, and
  with the total number of matches.
\<close>

theorem handleSearch_page:
  assumes "SearchTemplate (Srv_scenarios s) (Srv_activeScenario s) = Some tmpl"
    and "Rw_Sent (base_conn w) = None"
  shows "let offset = atoiOr (Req_Query r ''offset'') 0; limit = search_limit r;
             found = matching (str_fields (env_ToLower env (Req_Query r ''q''))) (Search_items tmpl)
    in if offset < 0 then \<exists>m. handleSearch env r s w = Aborted s m
       else 1 \<le> limit \<and> limit \<le> 200
         \<and> (\<exists>w' h body. handleSearch env r s w = Served s w' \<and> wire w' = Some (200, h, Rw_Body (base_conn w) @ [Doc (JObj body)])
              \<and> map_of body ''itemSummaries'' =
                  Some (JArr (map Item_raw (take (nat limit) (drop (nat offset) found))))
              \<and> map_of body ''total'' = Some (JInt (int (length found))))"
proof -
  let ?offset = "atoiOr (Req_Query r ''offset'') 0"
  let ?found = "matching (str_fields (env_ToLower env (Req_Query r ''q''))) (Search_items tmpl)"
  have page: "search_page ?found ?offset (search_limit r) =
      (if ?offset < 0 then None else Some (take (nat (search_limit r)) (drop (nat ?offset) ?found)))"
    using search_page_spec [of ?offset "search_limit r" ?found] search_page_negative [of ?offset ?found "search_limit r"]
      search_limit_range [of r] by simp
  show ?thesis
    using search_limit_range [of r] assms
    by (auto simp: handleSearch_def Let_def filter_items_matching page writeJSON_wire)
qed

text \<open>
  A client that pages through a search, as the API documents it: it asks for the page at an offset,
  adds the limit the answer names, and stops when that reaches the total the answer names. What it
  reads of an answer are the summaries, the limit and the total.
\<close>

definition page_request :: "request \<Rightarrow> int \<Rightarrow> request" where
  "page_request r offset = r\<lparr>Req_Query := (Req_Query r)(''offset'' := show_int offset)\<rparr>"

fun read_page :: "(string \<times> json) list \<Rightarrow> (json list \<times> int \<times> int) option" where
  "read_page body =
     (case (map_of body ''itemSummaries'', map_of body ''limit'', map_of body ''total'') of
        (Some (JArr xs), Some (JInt limit), Some (JInt found)) \<Rightarrow> Some (xs, limit, found)
      | _ \<Rightarrow> None)"

fun read_answer :: "'s served \<Rightarrow> ('s \<times> json list \<times> int \<times> int) option" where
  "read_answer (Aborted s m) = None"
| "read_answer (Served s w) =
     (case wire w of
        Some (code, h, [Doc (JObj body)]) \<Rightarrow>
          if code = 200 then map_option (Pair s) (read_page body) else None
      | _ \<Rightarrow> None)"

text \<open>At most \<open>n\<close> requests; \<open>None\<close>: an answer the client cannot read, or it is not done by then.\<close>

fun fetch_pages :: "'re mock_env \<Rightarrow> request \<Rightarrow> nat \<Rightarrow> int \<Rightarrow> 're Server \<Rightarrow> ('re Server \<times> json list) option" where
  "fetch_pages env r 0 offset s = None"
| "fetch_pages env r (Suc n) offset s =
     (case read_answer (handleSearch env (page_request r offset) s (Conn new_conn)) of
        None \<Rightarrow> None
      | Some (s, xs, limit, found) \<Rightarrow>
          if found \<le> offset + limit then Some (s, xs)
          else map_option (apsnd (append xs)) (fetch_pages env r n (offset + limit) s))"

lemma show_int_nonempty: "int64_range n \<Longrightarrow> show_int n \<noteq> ''''"
  using atoi_show_int [of n] by (auto simp: atoi_def)

lemma page_request_query:
  "Req_Query (page_request r offset) ''q'' = Req_Query r ''q''"
  "search_limit (page_request r offset) = search_limit r"
  "int64_range offset \<Longrightarrow> atoiOr (Req_Query (page_request r offset) ''offset'') 0 = offset"
  by (simp_all add: page_request_def search_limit_def atoiOr_def atoi_show_int show_int_nonempty)

text \<open>The items a search finds in a template.\<close>

abbreviation search_found :: "'re mock_env \<Rightarrow> request \<Rightarrow> scenarioSearch \<Rightarrow> itemSummary list" where
  "search_found env r tmpl \<equiv> matching (str_fields (env_ToLower env (Req_Query r ''q''))) (Search_items tmpl)"

lemma answered_page:
  assumes "SearchTemplate (Srv_scenarios s) (Srv_activeScenario s) = Some tmpl" and "int64_range (int o')"
  shows "read_answer (handleSearch env (page_request r (int o')) s (Conn new_conn))
    = Some (s, map Item_raw (take (nat (search_limit r)) (drop o' (search_found env r tmpl))), search_limit r,
        int (length (search_found env r tmpl)))"
  using search_limit_range [of r] assms(1)
  by (simp add: handleSearch_def Let_def page_request_query assms(2) filter_items_matching search_page_spec
      writeJSON_wire new_conn_def)

lemma fetch_pages_from:
  assumes t: "SearchTemplate (Srv_scenarios s) (Srv_activeScenario s) = Some tmpl"
    and range: "int64_range (int (length (Search_items tmpl)))"
  shows "o' \<le> length (search_found env r tmpl) \<Longrightarrow>
    length (search_found env r tmpl) - o' \<le> n * nat (search_limit r) \<Longrightarrow> 0 < n \<Longrightarrow>
    fetch_pages env r n (int o') s = Some (s, map Item_raw (drop o' (search_found env r tmpl)))"
proof (induction n arbitrary: o')
  case (Suc n)
  define found where "found = search_found env r tmpl"
  note Suc' = Suc [folded found_def]
  define L where "L = nat (search_limit r)"
  have L: "search_limit r = int L" "0 < L" using search_limit_range [of r] by (simp_all add: L_def)
  have "length found \<le> length (Search_items tmpl)" by (simp add: found_def matching_def)
  then have "int64_range (int o')" using Suc'(2) range by (simp add: int64_range_def)
  note page = answered_page [OF t this, of env r, folded found_def, unfolded L nat_int]
  show ?case
  proof (cases "length found \<le> o' + L")
    case True
    then show ?thesis by (simp add: page flip: found_def)
  next
    case False
    moreover have "length found - (o' + L) \<le> n * L" using Suc'(3) by (simp add: L)
    moreover from this False have "0 < n" by (intro gr0I) simp
    ultimately have "fetch_pages env r n (int (o' + L)) s = Some (s, map Item_raw (drop (o' + L) found))"
      using Suc'(1) [of "o' + L"] by (simp add: L)
    moreover have "map Item_raw (drop o' found) = map Item_raw (take L (drop o' found)) @ map Item_raw (drop (o' + L) found)"
      by (metis add.commute append_take_drop_id drop_drop map_append)
    ultimately show ?thesis using False by (simp add: page flip: found_def)
  qed
qed simp

text \<open>
  C16. Paging is complete: a client that starts at offset 0 and goes on by the limit each answer
  names, until that reaches the total, is done after as many requests as there are pages (one if
  nothing matches) and then has every matching item exactly once, in fixture order, whatever limit
  it asked for (the handler answers with one in 1 to 200); the server is as before.
\<close>

theorem search_pages_complete:
  assumes "SearchTemplate (Srv_scenarios s) (Srv_activeScenario s) = Some tmpl"
    and "int64_range (int (length (Search_items tmpl)))"
    and "length (search_found env r tmpl) \<le> n * nat (search_limit r)"
    and "0 < n"
  shows "fetch_pages env r n 0 s
    = Some (s, map Item_raw (search_found env r tmpl))"
  using fetch_pages_from [OF assms(1,2), of 0 env r n] assms(3,4) by simp

text \<open>Four items, three of which match; two pages of two.\<close>

definition demo_template :: scenarioSearch where
  "demo_template = \<lparr>Search_envelope = [], Search_items =
     map (\<lambda>(n, t). \<lparr>Item_raw = JInt n, Item_title = t, Item_titleLowercase = t, Item_itemID = t\<rparr>)
       [(1, ''xeon gold''), (2, ''xeon silver''), (3, ''epyc''), (4, ''dual xeon'')]\<rparr>"

definition demo_search_server :: "string Server" where
  "demo_search_server = demo_server\<lparr>Srv_scenarios := demo_registry\<lparr>Reg_searchByScenario := [''low'' \<mapsto> demo_template]\<rparr>\<rparr>"

theorem search_pages_complete_witness:
  "fetch_pages demo_env (demo_get ''/buy/browse/v1/item_summary/search'' [(''q'', ''Xeon''), (''limit'', ''2'')]) 2 0 demo_search_server
     = Some (demo_search_server, [JInt 1, JInt 2, JInt 4])"
proof -
  let ?r = "demo_get ''/buy/browse/v1/item_summary/search'' [(''q'', ''Xeon''), (''limit'', ''2'')]"
  have t: "SearchTemplate (Srv_scenarios demo_search_server) (Srv_activeScenario demo_search_server) = Some demo_template"
    by (simp add: SearchTemplate_def demo_search_server_def demo_server_def)
  have "map Item_raw (search_found demo_env ?r demo_template) = [JInt 1, JInt 2, JInt 4]" by code_simp
  moreover have "length (search_found demo_env ?r demo_template) \<le> 2 * nat (search_limit ?r)" by code_simp
  moreover have "int64_range (int (length (Search_items demo_template)))" by code_simp
  ultimately show ?thesis using search_pages_complete [OF t, of demo_env ?r 2] by simp
qed

subsection \<open>Scenarios and the server invariant\<close>

text \<open>The fixtures never change and the active scenario is loaded.\<close>

definition server_ok :: "ScenarioRegistry \<Rightarrow> 're Server \<Rightarrow> bool" where
  "server_ok reg s \<longleftrightarrow> Srv_scenarios s = reg \<and> map_of (Reg_scenarios reg) (Srv_activeScenario s) \<noteq> None"

lemma server_ok_frame:
  "server_ok reg (s\<lparr>Srv_quota := q\<rparr>) = server_ok reg s" "server_ok reg (s\<lparr>Srv_fault := f\<rparr>) = server_ok reg s"
  "server_ok reg (s\<lparr>Srv_slept := d\<rparr>) = server_ok reg s"
  by (simp_all add: server_ok_def)

lemma SetActiveScenario_ok: "server_ok reg s \<Longrightarrow> server_ok reg (snd (SetActiveScenario now name s))"
  by (auto simp: SetActiveScenario_def Let_def server_ok_def split: option.splits)

named_theorems keeps_ok \<open>handlers keep the server invariant\<close>

lemma quota_Middleware_ok [keeps_ok]:
  assumes "served_state (nxt r s (StatusRecorder w 200 False)) = s" and "server_ok reg s"
  shows "server_ok reg (served_state (quota_Middleware Srv_quota put_quota nxt r s w))"
  using assms
  by (cases "nxt r s (StatusRecorder w 200 False)") (auto simp: quota_Middleware_def Let_def server_ok_frame split: prod.split)

lemma handlers_ok [keeps_ok]:
  assumes "server_ok reg s"
  shows "server_ok reg (served_state (handleOAuth r s w))"
    and "server_ok reg (served_state (handleAnalytics env r s w))"
    and "server_ok reg (served_state (handleSetScenario env r s w))"
    and "server_ok reg (served_state (handleSetQuota env r s w))"
    and "server_ok reg (served_state (handleSetFault env r s w))"
    and "server_ok reg (served_state (handleListScenarios env r s w))"
  using assms SetActiveScenario_ok [OF assms]
  by (auto simp: handleOAuth_def handleAnalytics_def handleSetScenario_def handleSetQuota_def handleSetFault_def
      handleListScenarios_def Let_def server_ok_frame split: option.split sum.split prod.split)
    (metis snd_conv)+

lemma mux_ok:
  assumes "server_ok reg s"
  shows "server_ok reg (served_state (mux env r s w))"
  unfolding mux_def Let_def
  using assms by (simp add: keeps_ok search_keeps_state get_item_keeps_state)

lemma Routes_ok: "server_ok reg s \<Longrightarrow> server_ok reg (served_state (Routes env r s w))"
  by (auto simp: Routes_def fault_Middleware_def Let_def mux_ok server_ok_frame split: option.split)

lemma NewServer_ok:
  assumes "NewServer lib fixturesFS DirFS now opts = Inr s"
  shows "\<exists>fs dir. fs \<in> insert fixturesFS (range DirFS) \<and> LoadScenarios lib fs dir = Inr (Srv_scenarios s)
    \<and> Srv_activeScenario s = (if MOpt_Scenario opts = '''' then scenarioDefault else MOpt_Scenario opts)
    \<and> (Srv_activeScenario s = scenarioDefault \<or> map_of (Reg_scenarios (Srv_scenarios s)) (Srv_activeScenario s) \<noteq> None)"
proof -
  obtain fs dir where "fs \<in> insert fixturesFS (range DirFS)" and "(if MOpt_FixturesDir opts \<noteq> '''' then (DirFS (MOpt_FixturesDir opts), ''.'')
      else (fixturesFS, ''fixtures'')) = (fs, dir)" by (cases "MOpt_FixturesDir opts = ''''") auto
  with assms show ?thesis
    by (intro exI [of _ fs] exI [of _ dir])
      (auto simp: NewServer_def Let_def split: if_splits sum.splits option.splits)
qed

lemma LoadScenarios_default:
  assumes "LoadScenarios lib fs dir = Inr reg"
    and "\<And>entries. fs_ReadDir fs dir = Inr entries \<Longrightarrow> distinct (dir_names entries)"
  shows "map_of (Reg_scenarios reg) scenarioDefault \<noteq> None"
proof -
  from assms(1) obtain entries where e: "fs_ReadDir fs dir = Inr entries"
    by (auto simp: LoadScenarios_def split: sum.splits)
  from LoadScenarios_Inr [OF assms(1) e assms(2) [OF e]] show ?thesis by (auto simp: registry_ok_def)
qed

text \<open>
  C12. A server that \<open>NewServer\<close> built answers, whatever requests it is sent in whatever
  order and with whatever faults, from the fixtures it loaded, and its active scenario is
  always one of them; so an item of the default scenario is found at every moment.
\<close>

theorem server_invariant:
  assumes "NewServer lib fixturesFS DirFS now opts = Inr s"
    and "\<forall>fs \<in> insert fixturesFS (range DirFS). \<forall>dir entries. fs_ReadDir fs dir = Inr entries \<longrightarrow> distinct (dir_names entries)"
  shows "server_ok (Srv_scenarios s) (serve_all rs s)
    \<and> (\<forall>d itemID. Reg_defaultScenario (Srv_scenarios s) = Some d \<longrightarrow> Scen_Items d itemID \<noteq> None \<longrightarrow>
         Resolve (Srv_scenarios (serve_all rs s)) (Srv_activeScenario (serve_all rs s)) itemID \<noteq> None)"
proof -
  have run: "server_ok (Srv_scenarios s) t \<Longrightarrow> server_ok (Srv_scenarios s) (serve_all rs t)" for t
  proof (induction rs arbitrary: t)
    case (Cons er rs)
    obtain env r where "er = (env, r)" by (cases er)
    with Cons.IH [OF Routes_ok [OF Cons.prems]] show ?case by simp
  qed simp
  from NewServer_ok [OF assms(1)] obtain fs dir where fs: "fs \<in> insert fixturesFS (range DirFS)"
    and l: "LoadScenarios lib fs dir = Inr (Srv_scenarios s)"
    and act: "Srv_activeScenario s = scenarioDefault \<or> map_of (Reg_scenarios (Srv_scenarios s)) (Srv_activeScenario s) \<noteq> None"
    by blast
  from LoadScenarios_default [OF l] assms(2) fs act have "server_ok (Srv_scenarios s) s"
    by (auto simp: server_ok_def)
  from run [OF this] show ?thesis
    by (auto simp: server_ok_def Resolve_def split: option.split)
qed

definition demo_server_opts :: ServerOptions where
  "demo_server_opts = \<lparr>MOpt_Logger = Some ''logger'', MOpt_Scenario = ''low'', MOpt_FixturesDir = '''', MOpt_TokenExpires = 0\<rparr>"

theorem server_invariant_witness:
  "\<exists>s :: string Server. NewServer demo_lib demo_fs (\<lambda>_. demo_fs) 0 demo_server_opts = Inr s
     \<and> server_ok (Srv_scenarios s) (serve_all [(demo_env, demo_get ''/buy/browse/v1/item/v1|15|0'' [])] s)"
proof -
  have "case QuotaForScenario demo_registry ''low'' of None \<Rightarrow> False | Some _ \<Rightarrow> True" by code_simp
  then obtain q where q: "QuotaForScenario demo_registry ''low'' = Some q" by (auto split: option.splits)
  then have "map_of (Reg_scenarios demo_registry) ''low'' \<noteq> None"
    by (auto simp: QuotaForScenario_def split: option.splits)
  with q obtain s :: "string Server" where s: "NewServer demo_lib demo_fs (\<lambda>_. demo_fs) 0 demo_server_opts = Inr s"
    by (auto simp: NewServer_def demo_server_opts_def Let_def demo_registry_loads)
  have "\<forall>fs \<in> insert demo_fs (range (\<lambda>_ :: string. demo_fs)). \<forall>dir entries.
      fs_ReadDir fs dir = Inr entries \<longrightarrow> distinct (dir_names entries)"
    by (auto simp: demo_fs_def dir_names_def split: if_splits)
  from server_invariant [OF s this] s show ?thesis by blast
qed

subsection \<open>Changing the rules concurrently\<close>

text \<open>
  Two operators post a fault rule each. Served one after the other, both rules are there; but
  the handler reads and writes the rules in two critical sections, and when the second one reads
  before the first has written, the first rule is lost.
\<close>


datatype fault_access = Read_rules nat | Write_rules nat

text \<open>
  The two halves of the handler for the request \<open>i\<close>: reading the rules into its own copy,
  and writing the copy with its rule \<open>rule i\<close> appended.
\<close>

fun fault_step :: "(nat \<Rightarrow> 're \<times> faultBody) \<Rightarrow> fault_access
    \<Rightarrow> 're FaultRule list \<times> (nat \<Rightarrow> 're FaultRule list) \<Rightarrow> 're FaultRule list \<times> (nat \<Rightarrow> 're FaultRule list)" where
  "fault_step posted (Read_rules i) (rules, copies) = (rules, copies(i := Rules rules))"
| "fault_step posted (Write_rules i) (rules, copies) =
     (SetRules rules (case posted i of (re, body) \<Rightarrow> fault_rules_after re body (copies i)), copies)"

lemma fault_rules_sequential:
  "fst (fold (fault_step posted) [Read_rules 0, Write_rules 0, Read_rules 1, Write_rules 1] (rules, copies))
     = fault_rules_after (fst (posted 1)) (snd (posted 1)) (fault_rules_after (fst (posted 0)) (snd (posted 0)) rules)"
  by (simp add: Rules_def SetRules_def split: prod.split)

lemma fault_rules_lost_update:
  "fst (fold (fault_step posted) [Read_rules 0, Read_rules 1, Write_rules 0, Write_rules 1] (rules, copies))
     = fault_rules_after (fst (posted 1)) (snd (posted 1)) rules"
  by (simp add: Rules_def SetRules_def split: prod.split)

text \<open>An empty body is no document, so it clears nothing.\<close>

lemma handleSetFault_empty_body:
  "Req_Body r = '''' \<Longrightarrow> handleSetFault env r s w = Served s (writeAdminError w 400 ''invalid JSON'')"
  by (simp add: handleSetFault_def json_Decode_def scan_value.simps)

text \<open>Served by the handler itself, in one go, a posted rule is appended after those in place.\<close>

lemma handleSetFault_appends:
  assumes "Option.bind (json_Decode (Req_Body r)) decode_faultBody = Some body" and "\<not> Body_Clear body"
    and "Body_Endpoint body \<noteq> ''''" and "env_Compile env (Body_Endpoint body) = Inr re"
  shows "Srv_fault (served_state (handleSetFault env r s w)) = fault_rules_after re body (Srv_fault s)"
  using assms by (simp add: handleSetFault_def Let_def Rules_def SetRules_def)

theorem handleSearch_page_witness:
  "\<exists>m. handleSearch demo_env (demo_get ''/buy/browse/v1/item_summary/search'' [(''offset'', ''-1'')]) demo_server (Conn new_conn)
     = Aborted demo_server m"
proof -
  have "case SearchTemplate (Srv_scenarios demo_server) (Srv_activeScenario demo_server) of None \<Rightarrow> False | Some _ \<Rightarrow> True"
    by code_simp
  then obtain tmpl where t: "SearchTemplate (Srv_scenarios demo_server) (Srv_activeScenario demo_server) = Some tmpl"
    by (auto split: option.splits)
  have "atoiOr ''-1'' 0 < 0" by code_simp
  then show ?thesis
    using handleSearch_page [OF t, of "Conn new_conn" "demo_get ''/buy/browse/v1/item_summary/search'' [(''offset'', ''-1'')]" demo_env]
    by (simp add: new_conn_def demo_get_def Let_def)
qed

end
