(* ===== verification/Dataset_Sampler.thy ===== *)
theory Dataset_Sampler
  imports Domain_Types "HOL-Library.Product_Lexorder" "HOL-Library.Word"
begin

text \<open>
  \<^verbatim>\<open>tools/dataset-bootstrap\<close>: the bucket flag (\<^verbatim>\<open>config.go\<close>), the stratified sampler
  (\<^verbatim>\<open>sampler.go\<close>) and the configuration of the command (\<^verbatim>\<open>main.go\<close>). The datastore is the
  record \<open>Reader\<close>. What Go leaves open is the record \<open>go_choices\<close>: the order in which maps
  are iterated, the algorithm of \<^verbatim>\<open>sort.Slice\<close> and the pseudo-random generator.
\<close>

subsection \<open>The bucket flag\<close>

type_synonym buckets = "string \<rightharpoonup> int"

record StratificationConfig =
  Strat_SinceDuration :: duration
  Strat_PerKind :: int
  Strat_PerConfidenceBucket :: buckets
  Strat_TotalCap :: int
  Strat_Seed :: int
  Strat_OutputPath :: string

text \<open>The verb \<^verbatim>\<open>%v\<close> prints a map with its keys in order.\<close>

definition show_buckets :: "buckets \<Rightarrow> string" where
  "show_buckets m =
     ''map['' @ join_with '' '' (map (\<lambda>k. k @ '':'' @ show_int (the (m k))) (sorted_list_of_set (dom m))) @ '']''"

definition StratificationConfig_String :: "StratificationConfig \<Rightarrow> string" where
  "StratificationConfig_String c =
     ''since='' @ duration_string (Strat_SinceDuration c) @ '' per_kind='' @ show_int (Strat_PerKind c)
     @ '' total_cap='' @ show_int (Strat_TotalCap c) @ '' seed='' @ show_int (Strat_Seed c)
     @ '' out='' @ Strat_OutputPath c @ '' buckets='' @ show_buckets (Strat_PerConfidenceBucket c)"

definition ConfidenceBucketFor :: "f64 \<Rightarrow> string" where
  "ConfidenceBucketFor conf =
     (if f64_lt conf (Fin (1/2)) then ''<0.5''
      else if f64_lt conf (Fin (3602879701896397/4503599627370496)) then ''0.5-0.8''
      else ''0.8-1.0'')"

fun parse_pairs :: "buckets \<Rightarrow> string list \<Rightarrow> err + buckets" where
  "parse_pairs out [] = Inr out"
| "parse_pairs out (p # ps) =
     (let pair = trim_space p in
      if pair = '''' then parse_pairs out ps
      else case last_index (CHR '':'') pair of
        None \<Rightarrow> Inl (Errorf ''invalid bucket spec %q (want \"name:N\")'' [ArgQuoted pair])
      | Some idx \<Rightarrow>
          if idx = 0 then Inl (Errorf ''invalid bucket spec %q (want \"name:N\")'' [ArgQuoted pair])
          else
            let name = trim_space (take idx pair);
                nStr = trim_space (drop (idx + 1) pair)
            in case atoi nStr of
                 None \<Rightarrow> Inl (Errorf ''invalid bucket count %q: %w'' [ArgQuoted nStr, ArgErr (External ''strconv.Atoi'')])
               | Some n \<Rightarrow>
                   if n < 0 then Inl (Errorf ''bucket %q count must be non-negative'' [ArgQuoted name])
                   else parse_pairs (out(name \<mapsto> n)) ps)"

definition parseBuckets :: "string \<Rightarrow> err + buckets" where
  "parseBuckets spec =
     (if trim_space spec = '''' then Inl (Errorf ''--per-confidence-bucket must be non-empty'' [])
      else parse_pairs Map.empty (split_on (CHR '','') spec))"

subsection \<open>The sampler\<close>

record Reader =
  ListingsSince :: "duration \<Rightarrow> err + Listing list"
  ComponentsForListing :: "ListingID \<Rightarrow> err + Component list"
  ScoresForListings :: "ListingID list \<Rightarrow> err + (ListingID \<rightharpoonup> Score)"

record Sample =
  Sample_Listings :: "Listing list"
  Sample_Scores :: "ListingID \<rightharpoonup> Score"
  Sample_Components :: "ListingID \<rightharpoonup> Component list"

datatype stratumKey = StratumKey (Kind: string) (Bucket: string) (ExtractorVer: string)

text \<open>
  \<open>intn r n\<close> is \<^verbatim>\<open>rng.IntN(n)\<close> with the generator after it; \<open>iter_keys\<close> and
  \<open>iter_kinds\<close> are the orders in which the two maps are iterated.
\<close>

record 'r go_choices =
  newPCG :: "64 word \<Rightarrow> 64 word \<Rightarrow> 'r"
  intn :: "'r \<Rightarrow> nat \<Rightarrow> nat \<times> 'r"
  iter_keys :: "stratumKey list \<Rightarrow> stratumKey list"
  iter_kinds :: "string list \<Rightarrow> string list"
  sort_keys :: "(stratumKey \<Rightarrow> stratumKey \<Rightarrow> bool) \<Rightarrow> stratumKey list \<Rightarrow> stratumKey list"
  sort_listings :: "(Listing \<Rightarrow> Listing \<Rightarrow> bool) \<Rightarrow> Listing list \<Rightarrow> Listing list"

record 'r Sampler =
  Sampler_cfg :: StratificationConfig
  Sampler_reader :: Reader
  Sampler_rng :: 'r

definition NewSampler :: "'r go_choices \<Rightarrow> StratificationConfig \<Rightarrow> Reader \<Rightarrow> 'r Sampler" where
  "NewSampler go cfg reader =
     (let seed = word_of_int (Strat_Seed cfg) :: 64 word
      in \<lparr>Sampler_cfg = cfg, Sampler_reader = reader,
          Sampler_rng = newPCG go seed (Bit_Operations.xor seed 0x5eed)\<rparr>)"

text \<open>A map of lists, as an association list: \<^verbatim>\<open>out[k] = append(out[k], x)\<close>.\<close>

fun group_add :: "'k \<Rightarrow> 'v \<Rightarrow> ('k \<times> 'v list) list \<Rightarrow> ('k \<times> 'v list) list" where
  "group_add k x [] = [(k, [x])]"
| "group_add k x ((k', xs) # g) = (if k' = k then (k', xs @ [x]) # g else (k', xs) # group_add k x g)"

definition group_get :: "('k \<times> 'v list) list \<Rightarrow> 'k \<Rightarrow> 'v list" where
  "group_get g k = (case map_of g k of None \<Rightarrow> [] | Some xs \<Rightarrow> xs)"

definition stratum_of :: "(ListingID \<rightharpoonup> Component list) \<Rightarrow> Listing \<Rightarrow> stratumKey" where
  "stratum_of components l =
     (case components (Listing_ID l) of
        Some (c # _) \<Rightarrow>
          StratumKey (Component_Kind c) (ConfidenceBucketFor (Component_Confidence c)) (Component_ExtractorVer c)
      | _ \<Rightarrow> StratumKey ''<no-kind>'' '''' '''')"

definition groupByStrata ::
  "Listing list \<Rightarrow> (ListingID \<rightharpoonup> Component list) \<Rightarrow> (stratumKey \<times> Listing list) list" where
  "groupByStrata listings components = fold (\<lambda>l out. group_add (stratum_of components l) l out) listings []"

text \<open>The loop of \<open>sampleN\<close>: \<open>k\<close> steps to go at index \<open>i\<close>.\<close>

fun partial_shuffle :: "('r \<Rightarrow> nat \<Rightarrow> nat \<times> 'r) \<Rightarrow> nat \<Rightarrow> nat \<Rightarrow> 'a list \<Rightarrow> 'r \<Rightarrow> 'a list \<times> 'r" where
  "partial_shuffle draw 0 i pool rng = (pool, rng)"
| "partial_shuffle draw (Suc k) i pool rng =
     (let (d, rng) = draw rng (length pool - i);
          j = i + d
      in partial_shuffle draw k (Suc i) (pool[i := pool ! j, j := pool ! i]) rng)"

definition sampleN :: "('r \<Rightarrow> nat \<Rightarrow> nat \<times> 'r) \<Rightarrow> 'a list \<Rightarrow> int \<Rightarrow> 'r \<Rightarrow> 'a list \<times> 'r" where
  "sampleN draw xs n rng =
     (if n \<le> 0 \<or> xs = [] then ([], rng)
      else if n \<ge> int (length xs) then (xs, rng)
      else (let (pool, rng) = partial_shuffle draw (nat n) 0 xs rng in (take (nat n) pool, rng)))"

text \<open>\<open>want\<close> for a bucket: an absent count is 0, and 0 falls back to the count per kind.\<close>

definition bucket_want :: "StratificationConfig \<Rightarrow> string \<Rightarrow> int" where
  "bucket_want cfg b =
     (let want = (case Strat_PerConfidenceBucket cfg b of None \<Rightarrow> 0 | Some n \<Rightarrow> n)
      in if want = 0 then Strat_PerKind cfg else want)"

fun sample_keys :: "'r go_choices \<Rightarrow> StratificationConfig \<Rightarrow> (stratumKey \<times> Listing list) list
    \<Rightarrow> Listing list \<Rightarrow> stratumKey list \<Rightarrow> 'r \<Rightarrow> Listing list \<times> 'r" where
  "sample_keys go cfg groups picked [] rng = (picked, rng)"
| "sample_keys go cfg groups picked (k # ks) rng =
     (let (xs, rng) = sampleN (intn go) (group_get groups k) (bucket_want cfg (Bucket k)) rng
      in sample_keys go cfg groups (picked @ xs) ks rng)"

text \<open>
  \<^verbatim>\<open>make([]T, 0, n)\<close> panics for a negative capacity. (A capacity beyond the memory of the
  machine is out of scope.)
\<close>

definition selectForKind :: "'r go_choices \<Rightarrow> StratificationConfig \<Rightarrow> stratumKey list
    \<Rightarrow> (stratumKey \<times> Listing list) list \<Rightarrow> 'r \<Rightarrow> (Listing list \<times> 'r) outcome" where
  "selectForKind go cfg keys groups rng =
     (if int (length keys) * Strat_PerKind cfg < 0 then Panic ''makeslice: cap out of range''
      else Ok (sample_keys go cfg groups [] keys rng))"

definition key_less :: "stratumKey \<Rightarrow> stratumKey \<Rightarrow> bool" where
  "key_less x y = (if Bucket x \<noteq> Bucket y then Bucket x < Bucket y else ExtractorVer x < ExtractorVer y)"

fun select_kinds :: "'r go_choices \<Rightarrow> StratificationConfig \<Rightarrow> (string \<times> stratumKey list) list
    \<Rightarrow> (stratumKey \<times> Listing list) list \<Rightarrow> Listing list \<Rightarrow> string list \<Rightarrow> 'r \<Rightarrow> (Listing list \<times> 'r) outcome" where
  "select_kinds go cfg byKind groups picked [] rng = Ok (picked, rng)"
| "select_kinds go cfg byKind groups picked (kind # kinds) rng =
     outcome_bind (selectForKind go cfg (sort_keys go key_less (group_get byKind kind)) groups rng)
       (\<lambda>(xs, rng). select_kinds go cfg byKind groups (picked @ xs) kinds rng)"

definition selectFromStrata :: "'r go_choices \<Rightarrow> StratificationConfig
    \<Rightarrow> (stratumKey \<times> Listing list) list \<Rightarrow> 'r \<Rightarrow> (Listing list \<times> 'r) outcome" where
  "selectFromStrata go cfg groups rng =
     (let byKind = fold (\<lambda>k out. group_add (Kind k) k out) (iter_keys go (map fst groups)) [];
          kindNames = sort (iter_kinds go (map fst byKind))
      in if int (length kindNames) * Strat_PerKind cfg < 0 then Panic ''makeslice: cap out of range''
         else outcome_bind (select_kinds go cfg byKind groups [] kindNames rng)
           (\<lambda>(picked, rng). Ok (sort_listings go (\<lambda>x y. Listing_ID x < Listing_ID y) picked, rng)))"

definition applyTotalCap :: "StratificationConfig \<Rightarrow> Listing list \<Rightarrow> Listing list" where
  "applyTotalCap cfg picked =
     (if Strat_TotalCap cfg \<le> 0 \<or> int (length picked) \<le> Strat_TotalCap cfg then picked
      else take (nat (Strat_TotalCap cfg)) picked)"

text \<open>The loop of \<open>Run\<close> that fetches the components of every listing.\<close>

fun fetch_components :: "Reader \<Rightarrow> (ListingID \<rightharpoonup> Component list) \<Rightarrow> Listing list \<Rightarrow> err + (ListingID \<rightharpoonup> Component list)" where
  "fetch_components reader out [] = Inr out"
| "fetch_components reader out (l # ls) =
     (case ComponentsForListing reader (Listing_ID l) of
        Inl e \<Rightarrow> Inl (Errorf ''dataset-bootstrap: components for %q: %w'' [ArgQuoted (Listing_ID l), ArgErr e])
      | Inr comps \<Rightarrow> fetch_components reader (out(Listing_ID l \<mapsto> comps)) ls)"

definition comps_of :: "(ListingID \<rightharpoonup> Component list) \<Rightarrow> ListingID \<Rightarrow> Component list" where
  "comps_of m i = (case m i of None \<Rightarrow> [] | Some cs \<Rightarrow> cs)"

definition sampler_Run :: "'r go_choices \<Rightarrow> 'r Sampler \<Rightarrow> (Sample \<times> 'r Sampler) outcome" where
  "sampler_Run go s =
     (let reader = Sampler_reader s; cfg = Sampler_cfg s
      in case ListingsSince reader (Strat_SinceDuration cfg) of
           Inl e \<Rightarrow> Err (Errorf ''dataset-bootstrap: list listings: %w'' [ArgErr e])
         | Inr listings \<Rightarrow>
             (case fetch_components reader Map.empty listings of
                Inl e \<Rightarrow> Err e
              | Inr componentsByListing \<Rightarrow>
                  outcome_bind (selectFromStrata go cfg (groupByStrata listings componentsByListing) (Sampler_rng s))
                    (\<lambda>(picked, rng).
                      let picked = applyTotalCap cfg picked
                      in case ScoresForListings reader (map Listing_ID picked) of
                           Inl e \<Rightarrow> Err (Errorf ''dataset-bootstrap: scores: %w'' [ArgErr e])
                         | Inr scores \<Rightarrow>
                             Ok (\<lparr>Sample_Listings = picked, Sample_Scores = scores,
                                  Sample_Components = (\<lambda>i. if i \<in> Listing_ID ` set picked
                                     then Some (comps_of componentsByListing i) else None)\<rparr>,
                                 s\<lparr>Sampler_rng := rng\<rparr>))))"

subsection \<open>Order of the strata\<close>

instantiation stratumKey :: linorder
begin

definition less_eq_stratumKey :: "stratumKey \<Rightarrow> stratumKey \<Rightarrow> bool" where
  "less_eq_stratumKey x y \<longleftrightarrow> (Kind x, Bucket x, ExtractorVer x) \<le> (Kind y, Bucket y, ExtractorVer y)"

definition less_stratumKey :: "stratumKey \<Rightarrow> stratumKey \<Rightarrow> bool" where
  "less_stratumKey x y \<longleftrightarrow> (Kind x, Bucket x, ExtractorVer x) < (Kind y, Bucket y, ExtractorVer y)"

instance
  by standard (auto simp: less_eq_stratumKey_def less_stratumKey_def intro: stratumKey.expand)

end

lemma key_less_same_kind: "Kind x = Kind y \<Longrightarrow> key_less x y \<longleftrightarrow> x < y"
  by (auto simp: key_less_def less_stratumKey_def)

text \<open>What the code may rely on of the open choices.\<close>

definition go_ok :: "'r go_choices \<Rightarrow> bool" where
  "go_ok go \<longleftrightarrow>
     (\<forall>r n. 0 < n \<longrightarrow> fst (intn go r n) < n)
   \<and> (\<forall>ks. mset (iter_keys go ks) = mset ks) \<and> (\<forall>ks. mset (iter_kinds go ks) = mset ks)
   \<and> sorts_by key_less (sort_keys go) \<and> sorts_by (\<lambda>x y. Listing_ID x < Listing_ID y) (sort_listings go)"

subsection \<open>Groups\<close>

lemma group_get_add: "group_get (group_add k x g) k' = (if k' = k then group_get g k @ [x] else group_get g k')"
  by (induction g) (auto simp: group_get_def)

lemma keys_group_add: "set (map fst (group_add k x g)) = insert k (set (map fst g))"
  by (induction k x g rule: group_add.induct) auto

lemma distinct_group_add: "distinct (map fst g) \<Longrightarrow> distinct (map fst (group_add k x g))"
  by (induction g) (auto simp: keys_group_add [unfolded set_map] image_iff)

lemma group_get_Nil [simp]: "group_get [] k = []"
  by (simp add: group_get_def)

lemma fold_group_get:
  "group_get (fold (\<lambda>x out. group_add (f x) x out) xs g) k = group_get g k @ filter (\<lambda>x. f x = k) xs"
  by (induction xs arbitrary: g) (auto simp: group_get_add)

lemma fold_group_keys:
  "set (map fst (fold (\<lambda>x out. group_add (f x) x out) xs g)) = set (map fst g) \<union> f ` set xs"
proof (induction xs arbitrary: g)
  case (Cons x xs)
  show ?case using Cons.IH [of "group_add (f x) x g"] keys_group_add [of "f x" x g] by simp
qed simp

lemma fold_group_distinct:
  "distinct (map fst g) \<Longrightarrow> distinct (map fst (fold (\<lambda>x out. group_add (f x) x out) xs g))"
  by (induction xs arbitrary: g) (simp_all add: distinct_group_add)

lemma groupByStrata_get: "group_get (groupByStrata ls comps) k = filter (\<lambda>l. stratum_of comps l = k) ls"
  by (simp add: groupByStrata_def fold_group_get)

lemma groupByStrata_keys:
  "set (map fst (groupByStrata ls comps)) = stratum_of comps ` set ls"
  "distinct (map fst (groupByStrata ls comps))"
proof -
  show "set (map fst (groupByStrata ls comps)) = stratum_of comps ` set ls"
    unfolding groupByStrata_def fold_group_keys by simp
  show "distinct (map fst (groupByStrata ls comps))"
    unfolding groupByStrata_def by (rule fold_group_distinct) simp
qed

lemma mset_concat_filter:
  assumes "distinct ks" and "f ` set xs \<subseteq> set ks"
  shows "mset (concat (map (\<lambda>k. filter (\<lambda>x. f x = k) xs) ks)) = mset xs"
  using assms
proof (induction ks arbitrary: xs)
  case (Cons k ks)
  let ?ys = "filter (\<lambda>x. f x \<noteq> k) xs"
  have "filter (\<lambda>x. f x = k') ?ys = filter (\<lambda>x. f x = k') xs" if "k' \<in> set ks" for k'
    using that Cons.prems(1) by (auto intro: filter_cong)
  then have "mset (concat (map (\<lambda>k'. filter (\<lambda>x. f x = k') xs) ks)) = mset ?ys"
    using Cons.IH [of ?ys] Cons.prems by (auto cong: map_cong)
  moreover have "mset xs = filter_mset (\<lambda>x. f x = k) (mset xs) + filter_mset (\<lambda>x. f x \<noteq> k) (mset xs)"
    by (rule multiset_partition)
  ultimately show ?case by simp
qed simp

subsection \<open>The strata are visited in order\<close>

definition visited_keys :: "'r go_choices \<Rightarrow> (stratumKey \<times> Listing list) list \<Rightarrow> stratumKey list" where
  "visited_keys go groups =
     (let byKind = fold (\<lambda>k out. group_add (Kind k) k out) (iter_keys go (map fst groups)) []
      in concat (map (\<lambda>kind. sort_keys go key_less (group_get byKind kind)) (sort (iter_kinds go (map fst byKind)))))"

lemma sort_keys_same_kind:
  assumes "sorts_by key_less srt" and "\<forall>k \<in> set ks. Kind k = kind"
  shows "sorted (srt key_less ks)" and "set (srt key_less ks) = set ks" and "mset (srt key_less ks) = mset ks"
proof -
  have s: "set (srt key_less ks) = set ks" using assms(1) by (rule sorts_by_set)
  have "sorted_wrt (\<lambda>x y. \<not> key_less y x) (srt key_less ks)" using assms(1) by (simp add: sorts_by_def)
  then show "sorted (srt key_less ks)"
    by (rule sorted_wrt_mono_rel [rotated]) (use s assms(2) key_less_same_kind in \<open>auto simp: not_less\<close>)
qed (use assms(1) sorts_by_set sorts_by_mset in blast)+

lemma sorted_concat_kinds:
  assumes "sorted kinds" and "distinct kinds"
    and "\<And>kind. sorted (ch kind) \<and> (\<forall>k \<in> set (ch kind). Kind k = kind)"
  shows "sorted (concat (map ch kinds) :: stratumKey list)"
  using assms(1,2)
proof (induction kinds)
  case (Cons kind kinds)
  have "x \<le> y" if "x \<in> set (ch kind)" "kind' \<in> set kinds" "y \<in> set (ch kind')" for x y kind'
  proof -
    have "kind < kind'" using Cons.prems that(2) by (auto simp: le_less)
    then show ?thesis using assms(3) that by (auto simp: less_eq_stratumKey_def)
  qed
  with Cons assms(3) show ?case by (auto simp: sorted_append)
qed simp

lemma visited_keys_sorted:
  assumes "go_ok go"
  shows "visited_keys go groups = sort (map fst groups)"
proof -
  let ?ks = "iter_keys go (map fst groups)"
  let ?byKind = "fold (\<lambda>k out. group_add (Kind k) k out) ?ks []"
  let ?kinds = "sort (iter_kinds go (map fst ?byKind))"
  let ?ch = "\<lambda>kind. sort_keys go key_less (filter (\<lambda>k. Kind k = kind) ?ks)"
  from assms have srt: "sorts_by key_less (sort_keys go)"
    and ik: "mset ?ks = mset (map fst groups)" and ikk: "mset (iter_kinds go (map fst ?byKind)) = mset (map fst ?byKind)"
    by (auto simp: go_ok_def)
  have get: "group_get ?byKind kind = filter (\<lambda>k. Kind k = kind) ?ks" for kind
    by (simp add: fold_group_get)
  have "distinct (map fst ?byKind)" by (rule fold_group_distinct) simp
  then have "distinct (iter_kinds go (map fst ?byKind))" using mset_eq_imp_distinct_iff [OF ikk] by blast
  then have dk: "distinct ?kinds" by (simp only: distinct_sort)
  have sk: "set ?kinds = Kind ` set ?ks"
    using mset_eq_setD [OF ikk] fold_group_keys [of Kind ?ks "[]"] by simp
  have ch: "sorted (?ch kind) \<and> (\<forall>k \<in> set (?ch kind). Kind k = kind)" "mset (?ch kind) = mset (filter (\<lambda>k. Kind k = kind) ?ks)"
    for kind using sort_keys_same_kind [OF srt, of "filter (\<lambda>k. Kind k = kind) ?ks" kind] by auto
  have v: "visited_keys go groups = concat (map ?ch ?kinds)"
    by (simp add: visited_keys_def Let_def get)
  have "mset (concat (map ?ch ?kinds)) = mset (concat (map (\<lambda>kind. filter (\<lambda>k. Kind k = kind) ?ks) ?kinds))"
    by (simp add: mset_concat ch(2) comp_def)
  also have "\<dots> = mset ?ks" by (rule mset_concat_filter) (use dk sk in auto)
  finally have m: "mset (visited_keys go groups) = mset (map fst groups)" using ik v by simp
  have "sorted (visited_keys go groups)"
    unfolding v by (rule sorted_concat_kinds [OF sorted_sort dk ch(1)])
  from properties_for_sort [OF m this] show ?thesis by (rule sym)
qed

subsection \<open>Sampling one stratum\<close>

lemma mset_swap: "i < length xs \<Longrightarrow> j < length xs \<Longrightarrow> mset (xs[i := xs ! j, j := xs ! i]) = mset xs"
  using mset_swap [of j xs i] by (simp add: list_update_swap)

lemma partial_shuffle_mset:
  assumes "\<And>r n. 0 < n \<Longrightarrow> fst (draw r n) < n" and "i + k \<le> length pool"
  shows "mset (fst (partial_shuffle draw k i pool rng)) = mset pool"
  using assms(2)
proof (induction k arbitrary: i pool rng)
  case (Suc k)
  obtain d r where d: "draw rng (length pool - i) = (d, r)" by (cases "draw rng (length pool - i)")
  with assms(1) [of "length pool - i" rng] Suc.prems have "d < length pool - i" by simp
  then show ?case using Suc.prems Suc.IH [of "Suc i" "pool[i := pool ! (i + d), i + d := pool ! i]" r]
    by (simp add: d mset_swap Let_def)
qed simp

lemma sampleN_sub:
  assumes "\<And>r n. 0 < n \<Longrightarrow> fst (draw r n) < n"
  shows "mset (fst (sampleN draw xs n rng)) \<subseteq># mset xs
    \<and> length (fst (sampleN draw xs n rng)) = min (nat n) (length xs)"
proof (cases "n \<le> 0 \<or> xs = [] \<or> n \<ge> int (length xs)")
  case True
  then show ?thesis by (auto simp: sampleN_def)
next
  case False
  obtain pool r where p: "partial_shuffle draw (nat n) 0 xs rng = (pool, r)"
    by (cases "partial_shuffle draw (nat n) 0 xs rng")
  from False have "nat n \<le> length xs" by linarith
  with partial_shuffle_mset [of draw 0 "nat n" xs rng] assms p have m: "mset pool = mset xs" by simp
  have "mset (take (nat n) pool) \<subseteq># mset pool" by (metis append_take_drop_id mset_append mset_subset_eq_add_left)
  with False p m mset_eq_length [OF m] show ?thesis by (auto simp: sampleN_def)
qed

lemma sample_keys_picked:
  "fst (sample_keys go cfg groups picked ks rng) = picked @ fst (sample_keys go cfg groups [] ks rng)
   \<and> snd (sample_keys go cfg groups picked ks rng) = snd (sample_keys go cfg groups [] ks rng)"
proof (induction ks arbitrary: picked rng)
  case (Cons k ks)
  obtain xs r where x: "sampleN (intn go) (group_get groups k) (bucket_want cfg (Bucket k)) rng = (xs, r)"
    by (cases "sampleN (intn go) (group_get groups k) (bucket_want cfg (Bucket k)) rng")
  show ?case using Cons.IH [of "picked @ xs" r] Cons.IH [of xs r] by (simp add: x)
qed simp

lemma sample_keys_append:
  "sample_keys go cfg groups picked (ks @ ls) rng =
     (let (p, r) = sample_keys go cfg groups picked ks rng in sample_keys go cfg groups p ls r)"
  by (induction ks arbitrary: picked rng) (auto split: prod.split)

text \<open>What one pass over the strata picks, when every listing of a stratum has its key.\<close>

lemma sample_keys_strata:
  assumes "go_ok go" and "distinct ks"
    and "\<And>k. group_get groups k = filter (\<lambda>l. f l = k) ls"
  shows "mset (fst (sample_keys go cfg groups [] ks rng)) \<subseteq># mset (filter (\<lambda>l. f l \<in> set ks) ls)
    \<and> (\<forall>k \<in> set ks. length (filter (\<lambda>l. f l = k) (fst (sample_keys go cfg groups [] ks rng)))
         = min (nat (bucket_want cfg (Bucket k))) (length (filter (\<lambda>l. f l = k) ls)))"
  using assms(2)
proof (induction ks arbitrary: rng)
  case (Cons k ks)
  have draw: "\<And>r n. 0 < n \<Longrightarrow> fst (intn go r n) < n" using assms(1) by (simp add: go_ok_def)
  let ?g = "filter (\<lambda>l. f l = k) ls" and ?w = "bucket_want cfg (Bucket k)"
  obtain xs r where x: "sampleN (intn go) ?g ?w rng = (xs, r)" by (cases "sampleN (intn go) ?g ?w rng")
  have xs: "mset xs \<subseteq># mset ?g" "length xs = min (nat ?w) (length ?g)"
    using sampleN_sub [of "intn go" ?g ?w rng] draw x by auto
  let ?ys = "fst (sample_keys go cfg groups [] ks r)"
  have e: "fst (sample_keys go cfg groups [] (k # ks) rng) = xs @ ?ys"
    using sample_keys_picked [of go cfg groups xs ks r] by (simp add: x assms(3))
  have IH: "mset ?ys \<subseteq># mset (filter (\<lambda>l. f l \<in> set ks) ls)"
    "\<forall>k' \<in> set ks. length (filter (\<lambda>l. f l = k') ?ys) = min (nat (bucket_want cfg (Bucket k'))) (length (filter (\<lambda>l. f l = k') ls))"
    using Cons.IH [of r] Cons.prems by auto
  have kxs: "\<forall>l \<in> set xs. f l = k" using set_mset_mono [OF xs(1)] by auto
  have kys: "\<forall>l \<in> set ?ys. f l \<in> set ks" using set_mset_mono [OF IH(1)] by auto
  have "mset ?g + mset (filter (\<lambda>l. f l \<in> set ks) ls) = mset (filter (\<lambda>l. f l \<in> set (k # ks)) ls)"
    using Cons.prems by (induction ls) auto
  then have sub: "mset (xs @ ?ys) \<subseteq># mset (filter (\<lambda>l. f l \<in> set (k # ks)) ls)"
    using subset_mset.add_mono [OF xs(1) IH(1)] by simp
  have "length (filter (\<lambda>l. f l = k) (xs @ ?ys)) = length xs"
    using kxs kys Cons.prems by (auto simp: filter_empty_conv filter_id_conv [THEN iffD2])
  moreover have "filter (\<lambda>l. f l = k') (xs @ ?ys) = filter (\<lambda>l. f l = k') ?ys" if "k' \<in> set ks" for k'
    using kxs that Cons.prems by (auto simp: filter_empty_conv)
  ultimately show ?case using sub xs(2) IH(2) unfolding e by (simp del: filter_append)
qed simp

subsection \<open>The whole selection\<close>

lemma cap_ok: "0 \<le> p \<Longrightarrow> \<not> int n * p < 0"
  by (simp add: not_less)

lemma mset_eq_empty: "mset xs = mset ys \<Longrightarrow> xs = [] \<longleftrightarrow> ys = []"
  by (cases xs; cases ys) auto

lemma go_ok_empty:
  assumes "go_ok go"
  shows "iter_keys go ks = [] \<longleftrightarrow> ks = []" and "iter_kinds go ns = [] \<longleftrightarrow> ns = []"
    and "sort_listings go (\<lambda>x y. Listing_ID x < Listing_ID y) [] = []"
proof -
  have "mset (iter_keys go ks) = mset ks" "mset (iter_kinds go ns) = mset ns"
    and "sorts_by (\<lambda>x y. Listing_ID x < Listing_ID y) (sort_listings go)"
    using assms by (simp_all add: go_ok_def)
  then show "iter_keys go ks = [] \<longleftrightarrow> ks = []" "iter_kinds go ns = [] \<longleftrightarrow> ns = []"
      "sort_listings go (\<lambda>x y. Listing_ID x < Listing_ID y) [] = []"
    using sorts_by_length [of "\<lambda>x y. Listing_ID x < Listing_ID y" "sort_listings go" "[]"]
    by (simp_all add: mset_eq_empty [of "iter_keys go ks"] mset_eq_empty [of "iter_kinds go ns"])
qed

lemma selectFromStrata_empty: "go_ok go \<Longrightarrow> selectFromStrata go cfg [] rng = Ok ([], rng)"
  using go_ok_empty(1) [of go "[]"] go_ok_empty(2) [of go "[]"] go_ok_empty(3) [of go]
  by (simp add: selectFromStrata_def)

lemma select_kinds_concat:
  assumes "0 \<le> Strat_PerKind cfg"
  shows "select_kinds go cfg byKind groups picked kinds rng
    = Ok (sample_keys go cfg groups picked (concat (map (\<lambda>kind. sort_keys go key_less (group_get byKind kind)) kinds)) rng)"
proof (induction kinds arbitrary: picked rng)
  case (Cons kind kinds)
  let ?ks = "sort_keys go key_less (group_get byKind kind)"
  obtain xs r where x: "sample_keys go cfg groups [] ?ks rng = (xs, r)" by (cases "sample_keys go cfg groups [] ?ks rng")
  have "sample_keys go cfg groups picked ?ks rng = (picked @ xs, r)"
    using sample_keys_picked [of go cfg groups picked ?ks rng] x by (simp add: prod_eq_iff)
  then show ?case using Cons.IH [of "picked @ xs" r] assms
    by (simp add: selectForKind_def x sample_keys_append cap_ok)
qed simp

text \<open>
  The selection in canonical form: the strata in their linear order, then the picked listings by
  identifier; nothing of the map orders and the sorting algorithm is left.
\<close>

lemma selectFromStrata_canonical:
  assumes "go_ok go" and "0 \<le> Strat_PerKind cfg"
    and "\<And>k. group_get groups k = filter (\<lambda>l. f l = k) ls" and "distinct (map fst groups)"
    and "distinct (map Listing_ID ls)"
  shows "selectFromStrata go cfg groups rng =
     (let (picked, r) = sample_keys go cfg groups [] (sort (map fst groups)) rng
      in Ok (sort_key Listing_ID picked, r))"
proof -
  obtain picked r where p: "sample_keys go cfg groups [] (sort (map fst groups)) rng = (picked, r)"
    by (cases "sample_keys go cfg groups [] (sort (map fst groups)) rng")
  have "mset picked \<subseteq># mset (filter (\<lambda>l. f l \<in> set (sort (map fst groups))) ls)"
    using sample_keys_strata [OF assms(1) _ assms(3), of "sort (map fst groups)" cfg rng] assms(4) p by simp
  also have "\<dots> \<subseteq># mset ls" by simp
  finally have "set picked \<subseteq> set ls" by (metis set_mset_mono set_mset_mset)
  then have "inj_on Listing_ID (set picked)"
    using assms(5) by (metis distinct_map inj_on_subset)
  moreover have "sorts_by (\<lambda>x y. Listing_ID x < Listing_ID y) (sort_listings go)" using assms(1) by (simp add: go_ok_def)
  ultimately have srt: "sort_listings go (\<lambda>x y. Listing_ID x < Listing_ID y) picked = sort_key Listing_ID picked"
    by (intro sorts_by_key_unique)
  have "sample_keys go cfg groups [] (visited_keys go groups) rng = (picked, r)"
    unfolding visited_keys_sorted [OF assms(1)] by (rule p)
  then show ?thesis
    using assms(2) by (simp add: selectFromStrata_def select_kinds_concat Let_def p visited_keys_def srt cap_ok)
qed

lemma sample_keys_intn:
  "intn go = intn go' \<Longrightarrow> sample_keys go cfg groups picked ks rng = sample_keys go' cfg groups picked ks rng"
  by (induction ks arbitrary: picked rng) (auto split: prod.split)

text \<open>A negative count per kind panics as soon as there is a listing.\<close>

lemma selectFromStrata_negative:
  assumes "go_ok go" and "Strat_PerKind cfg < 0" and "groups \<noteq> []"
  shows "\<exists>m. selectFromStrata go cfg groups rng = Panic m"
proof -
  let ?ks = "iter_keys go (map fst groups)"
  have "?ks \<noteq> []" using assms(3) by (simp add: go_ok_empty [OF assms(1)])
  then obtain k ks where ks: "?ks = k # ks" by (cases ?ks) auto
  have "Kind k \<in> set (map fst (fold (\<lambda>k out. group_add (Kind k) k out) ?ks []))"
    unfolding fold_group_keys ks by simp
  then have "fold (\<lambda>k out. group_add (Kind k) k out) ?ks [] \<noteq> []" by (metis empty_iff list.set(1) list.simps(8))
  then have "sort (iter_kinds go (map fst (fold (\<lambda>k out. group_add (Kind k) k out) ?ks []))) \<noteq> []"
    using go_ok_empty(2) [OF assms(1)] mset_eq_empty [OF mset_sort] by blast
  then show ?thesis using assms(2)
    by (simp add: selectFromStrata_def Let_def mult_less_0_iff)
qed

text \<open>The listings a run works on, and a run on a reader whose listings have different identifiers.\<close>

definition good_reader :: "Reader \<Rightarrow> bool" where
  "good_reader reader \<longleftrightarrow> (\<forall>since ls. ListingsSince reader since = Inr ls \<longrightarrow> distinct (map Listing_ID ls))"

text \<open>
  C17. Sampling is deterministic: with the same generator, two runs agree on everything,
  result, error or panic, whatever the iteration order of the maps and the (unstable) sorting
  algorithm of either run.
\<close>

theorem sampler_deterministic:
  assumes "go_ok go" and "go_ok go'" and "intn go = intn go'" and "good_reader (Sampler_reader s)"
  shows "(case sampler_Run go s of Panic _ \<Rightarrow> (\<exists>m. sampler_Run go' s = Panic m) | res \<Rightarrow> sampler_Run go' s = res)"
proof -
  let ?cfg = "Sampler_cfg s" and ?reader = "Sampler_reader s"
  have sel: "case selectFromStrata go ?cfg (groupByStrata ls comps) rng of
      Panic _ \<Rightarrow> (\<exists>m. selectFromStrata go' ?cfg (groupByStrata ls comps) rng = Panic m)
    | res \<Rightarrow> selectFromStrata go' ?cfg (groupByStrata ls comps) rng = res"
    if "distinct (map Listing_ID ls)" for ls comps rng
  proof (cases "Strat_PerKind ?cfg < 0")
    case True
    show ?thesis
    proof (cases "groupByStrata ls comps = []")
      case True
      then show ?thesis using assms(1,2) by (simp add: selectFromStrata_empty)
    next
      case False
      then show ?thesis using selectFromStrata_negative [OF assms(1) True False, of rng]
          selectFromStrata_negative [OF assms(2) True False, of rng] by auto
    qed
  next
    case False
    then have "selectFromStrata go ?cfg (groupByStrata ls comps) rng = selectFromStrata go' ?cfg (groupByStrata ls comps) rng"
      using selectFromStrata_canonical [OF assms(1) _ groupByStrata_get groupByStrata_keys(2) that]
        selectFromStrata_canonical [OF assms(2) _ groupByStrata_get groupByStrata_keys(2) that]
      by (simp add: sample_keys_intn [OF assms(3)])
    then show ?thesis by (simp split: outcome.split)
  qed
  show ?thesis
  proof (cases "ListingsSince ?reader (Strat_SinceDuration ?cfg)")
    case (Inr ls)
    then have d: "distinct (map Listing_ID ls)" using assms(4) by (auto simp: good_reader_def)
    show ?thesis
    proof (cases "fetch_components ?reader Map.empty ls")
      case (Inr comps)
      show ?thesis using sel [OF d, of comps "Sampler_rng s"] \<open>ListingsSince _ _ = _\<close> Inr
        by (cases "selectFromStrata go ?cfg (groupByStrata ls comps) (Sampler_rng s)")
          (auto simp: sampler_Run_def Let_def split: outcome.split prod.split sum.split)
    qed (use Inr in \<open>simp add: sampler_Run_def Let_def\<close>)
  qed (simp add: sampler_Run_def Let_def)
qed

lemma length_filter_mset: "mset xs = mset ys \<Longrightarrow> length (filter P xs) = length (filter P ys)"
  by (metis mset_filter size_mset)

lemma length_filter_take: "length (filter P (take n xs)) \<le> length (filter P xs)"
  by (metis append_take_drop_id filter_append le_add1 length_append)

lemma mset_sub_distinct: "mset xs \<subseteq># mset ys \<Longrightarrow> distinct ys \<Longrightarrow> distinct xs"
proof -
  assume "mset xs \<subseteq># mset ys"
  then obtain zs where "mset ys = mset (xs @ zs)" by (metis ex_mset mset_append mset_subset_eq_exists_conv)
  moreover assume "distinct ys"
  ultimately have "distinct (xs @ zs)" by (metis mset_eq_imp_distinct_iff)
  then show "distinct xs" by simp
qed

lemma sampler_Run_Ok:
  assumes "sampler_Run go s = Ok (sample, s')"
  obtains ls comps picked r
  where "ListingsSince (Sampler_reader s) (Strat_SinceDuration (Sampler_cfg s)) = Inr ls"
    and "fetch_components (Sampler_reader s) Map.empty ls = Inr comps"
    and "selectFromStrata go (Sampler_cfg s) (groupByStrata ls comps) (Sampler_rng s) = Ok (picked, r)"
    and "Sample_Listings sample = applyTotalCap (Sampler_cfg s) picked"
    and "Sample_Components sample =
      (\<lambda>i. if i \<in> Listing_ID ` set (applyTotalCap (Sampler_cfg s) picked) then Some (comps_of comps i) else None)"
proof (cases "ListingsSince (Sampler_reader s) (Strat_SinceDuration (Sampler_cfg s))")
  case (Inl e)
  with assms show ?thesis by (simp add: sampler_Run_def Let_def)
next
  case ls: (Inr ls)
  show ?thesis
  proof (cases "fetch_components (Sampler_reader s) Map.empty ls")
    case (Inl e)
    with assms ls show ?thesis by (simp add: sampler_Run_def Let_def)
  next
    case comps: (Inr comps)
    show ?thesis
    proof (cases "selectFromStrata go (Sampler_cfg s) (groupByStrata ls comps) (Sampler_rng s)")
      case (Ok pr)
      obtain picked r where "pr = (picked, r)" by (cases pr)
      with assms ls comps Ok that show ?thesis
        by (cases "ScoresForListings (Sampler_reader s) (map Listing_ID (applyTotalCap (Sampler_cfg s) picked))")
          (auto simp: sampler_Run_def Let_def)
    qed (use assms ls comps in \<open>simp_all add: sampler_Run_def Let_def\<close>)
  qed
qed

lemma fetch_components_spec:
  "fetch_components reader out ls = Inr comps \<Longrightarrow>
     (\<forall>l \<in> set ls. \<exists>cs. ComponentsForListing reader (Listing_ID l) = Inr cs \<and> comps (Listing_ID l) = Some cs)
     \<and> (\<forall>i. i \<notin> Listing_ID ` set ls \<longrightarrow> comps i = out i)"
proof (induction ls arbitrary: out)
  case (Cons l ls)
  then obtain cs where cs: "ComponentsForListing reader (Listing_ID l) = Inr cs"
    and rest: "fetch_components reader (out(Listing_ID l \<mapsto> cs)) ls = Inr comps" by (auto split: sum.splits)
  from Cons.IH [OF rest] cs show ?case by (cases "Listing_ID l \<in> Listing_ID ` set ls") auto
qed simp

text \<open>How many listings of a stratum a run is asked for and can deliver.\<close>

definition stratum_quota :: "StratificationConfig \<Rightarrow> (ListingID \<rightharpoonup> Component list) \<Rightarrow> Listing list \<Rightarrow> stratumKey \<Rightarrow> nat" where
  "stratum_quota cfg comps ls k =
     min (nat (bucket_want cfg (Bucket k))) (length (filter (\<lambda>l. stratum_of comps l = k) ls))"

lemma selection_quotas:
  assumes "go_ok go" and "0 \<le> Strat_PerKind cfg" and "distinct (map Listing_ID ls)"
    and sel: "selectFromStrata go cfg (groupByStrata ls comps) rng = Ok (picked, r)"
  shows "mset picked \<subseteq># mset ls \<and> sorted (map Listing_ID picked)
    \<and> (\<forall>k. length (filter (\<lambda>l. stratum_of comps l = k) picked) = stratum_quota cfg comps ls k)"
proof -
  let ?groups = "groupByStrata ls comps" and ?f = "stratum_of comps"
  let ?ks = "sort (map fst ?groups)"
  obtain p q where p: "sample_keys go cfg ?groups [] ?ks rng = (p, q)" by (cases "sample_keys go cfg ?groups [] ?ks rng")
  have pk: "picked = sort_key Listing_ID p"
    using selectFromStrata_canonical [OF assms(1,2) groupByStrata_get groupByStrata_keys(2) assms(3), of comps rng] sel p
    by simp
  have ks: "set ?ks = ?f ` set ls" "distinct ?ks" using groupByStrata_keys [of ls comps] by simp_all
  have st: "mset p \<subseteq># mset (filter (\<lambda>l. ?f l \<in> set ?ks) ls)"
    "\<forall>k \<in> set ?ks. length (filter (\<lambda>l. ?f l = k) p) = min (nat (bucket_want cfg (Bucket k))) (length (filter (\<lambda>l. ?f l = k) ls))"
    using sample_keys_strata [where f = ?f and ls = ls and cfg = cfg and rng = rng, OF assms(1) ks(2) groupByStrata_get] p
    by simp_all
  have sub: "mset p \<subseteq># mset ls" using st(1) by (metis mset_filter multiset_filter_subset subset_mset.order_trans)
  have "length (filter (\<lambda>l. ?f l = k) p) = stratum_quota cfg comps ls k" for k
  proof (cases "k \<in> set ?ks")
    case True
    from bspec [OF st(2) True] show ?thesis by (simp add: stratum_quota_def)
  next
    case False
    then have "filter (\<lambda>l. ?f l = k) ls = []" "filter (\<lambda>l. ?f l = k) p = []"
      using ks(1) set_mset_mono [OF sub] by (auto simp: filter_empty_conv)
    then show ?thesis by (simp add: stratum_quota_def)
  qed
  moreover have "length (filter P picked) = length (filter P p)" for P
    unfolding pk by (rule length_filter_mset) simp
  ultimately show ?thesis using sub pk by (simp add: sorted_sort_key)
qed

text \<open>
  C18. What a run returns: listings of the reader, each once and in the order of their
  identifiers, at most the total cap of them, each with its components. Every stratum (kind,
  confidence bucket and extractor version of the primary component) contributes exactly its
  quota or, when it is smaller, all of its listings, unless the total cap cuts the tail, and then
  at most that.
\<close>

theorem sampler_quotas:
  assumes "go_ok go" and "good_reader (Sampler_reader s)" and "0 \<le> Strat_PerKind (Sampler_cfg s)"
    and "sampler_Run go s = Ok (sample, s')"
  shows "\<exists>ls comps. ListingsSince (Sampler_reader s) (Strat_SinceDuration (Sampler_cfg s)) = Inr ls
    \<and> (\<forall>l \<in> set ls. ComponentsForListing (Sampler_reader s) (Listing_ID l) = Inr (comps_of comps (Listing_ID l)))
    \<and> set (Sample_Listings sample) \<subseteq> set ls
    \<and> sorted (map Listing_ID (Sample_Listings sample)) \<and> distinct (map Listing_ID (Sample_Listings sample))
    \<and> (\<forall>l \<in> set (Sample_Listings sample). Sample_Components sample (Listing_ID l) = Some (comps_of comps (Listing_ID l)))
    \<and> (let cap = Strat_TotalCap (Sampler_cfg s); n = length (Sample_Listings sample);
           quota = stratum_quota (Sampler_cfg s) comps ls
       in (0 < cap \<longrightarrow> int n \<le> cap)
        \<and> (\<forall>k. length (filter (\<lambda>l. stratum_of comps l = k) (Sample_Listings sample)) \<le> quota k)
        \<and> (cap \<le> 0 \<or> int n < cap \<longrightarrow>
             (\<forall>k. length (filter (\<lambda>l. stratum_of comps l = k) (Sample_Listings sample)) = quota k)))"
proof -
  let ?cfg = "Sampler_cfg s"
  obtain ls comps picked r where ls: "ListingsSince (Sampler_reader s) (Strat_SinceDuration ?cfg) = Inr ls"
    and comps: "fetch_components (Sampler_reader s) Map.empty ls = Inr comps"
    and sel: "selectFromStrata go ?cfg (groupByStrata ls comps) (Sampler_rng s) = Ok (picked, r)"
    and sm: "Sample_Listings sample = applyTotalCap ?cfg picked"
      "Sample_Components sample = (\<lambda>i. if i \<in> Listing_ID ` set (applyTotalCap ?cfg picked) then Some (comps_of comps i) else None)"
    by (rule sampler_Run_Ok [OF assms(4)])
  have d: "distinct (map Listing_ID ls)" using assms(2) ls by (auto simp: good_reader_def)
  from selection_quotas [OF assms(1,3) d sel] have q: "mset picked \<subseteq># mset ls" "sorted (map Listing_ID picked)"
    "\<And>k. length (filter (\<lambda>l. stratum_of comps l = k) picked) = stratum_quota ?cfg comps ls k" by auto
  have "mset (map Listing_ID picked) \<subseteq># mset (map Listing_ID ls)" using q(1) by (simp add: image_mset_subseteq_mono)
  with d have dp: "distinct (map Listing_ID picked)" by (rule mset_sub_distinct [rotated])
  have ap: "\<exists>n. applyTotalCap ?cfg picked = take n picked \<and> (0 < Strat_TotalCap ?cfg \<longrightarrow> int (length (take n picked)) \<le> Strat_TotalCap ?cfg)
      \<and> (Strat_TotalCap ?cfg \<le> 0 \<or> int (length (take n picked)) < Strat_TotalCap ?cfg \<longrightarrow> take n picked = picked)"
  proof (cases "Strat_TotalCap ?cfg \<le> 0 \<or> int (length picked) \<le> Strat_TotalCap ?cfg")
    case True
    then show ?thesis by (intro exI [of _ "length picked"]) (auto simp: applyTotalCap_def)
  next
    case False
    then show ?thesis by (intro exI [of _ "nat (Strat_TotalCap ?cfg)"]) (auto simp: applyTotalCap_def)
  qed
  then obtain n where n: "applyTotalCap ?cfg picked = take n picked"
    "0 < Strat_TotalCap ?cfg \<longrightarrow> int (length (take n picked)) \<le> Strat_TotalCap ?cfg"
    "Strat_TotalCap ?cfg \<le> 0 \<or> int (length (take n picked)) < Strat_TotalCap ?cfg \<longrightarrow> take n picked = picked" by blast
  have le: "length (filter (\<lambda>l. stratum_of comps l = k) (take n picked)) \<le> stratum_quota ?cfg comps ls k" for k
    using length_filter_take [of "\<lambda>l. stratum_of comps l = k" n picked] q(3) [of k] by simp
  have sub: "set (take n picked) \<subseteq> set ls" using set_take_subset set_mset_mono [OF q(1)] by fastforce
  have srt: "sorted (map Listing_ID (take n picked))" "distinct (map Listing_ID (take n picked))"
    using q(2) dp by (simp_all add: take_map [symmetric] sorted_wrt_take)
  have cs: "\<forall>l \<in> set ls. ComponentsForListing (Sampler_reader s) (Listing_ID l) = Inr (comps_of comps (Listing_ID l))"
    using fetch_components_spec [OF comps] by (auto simp: comps_of_def)
  show ?thesis
    unfolding sm n(1) Let_def
    by (intro exI [of _ ls] exI [of _ comps] conjI ls cs sub srt) (use n(2,3) le q(3) in auto)
qed

text \<open>A concrete run: three listings in two strata, no randomness left to chance.\<close>

definition demo_listing :: "string \<Rightarrow> Listing" where
  "demo_listing i = \<lparr>Listing_ID = i, Listing_WatchID = ''w'', Listing_EbayItemID = i, Listing_Title = i\<rparr>"

definition demo_reader :: Reader where
  "demo_reader =
     \<lparr>ListingsSince = (\<lambda>d. Inr [demo_listing ''c'', demo_listing ''a'', demo_listing ''b'']),
      ComponentsForListing = (\<lambda>i. Inr (if i = ''b'' then [] else
        [\<lparr>Component_ID = ''x'', Component_ListingID = i, Component_Kind = ''ram'', Component_Confidence = Fin (1/4),
          Component_ExtractorVer = ''1''\<rparr>])),
      ScoresForListings = (\<lambda>ids. Inr Map.empty)\<rparr>"

definition demo_go :: "nat go_choices" where
  "demo_go =
     \<lparr>newPCG = (\<lambda>a b. 0), intn = (\<lambda>r n. (r mod n, Suc r)), iter_keys = rev, iter_kinds = (\<lambda>ns. ns),
      sort_keys = insertion_sort, sort_listings = insertion_sort\<rparr>"

definition demo_sampler :: "nat Sampler" where
  "demo_sampler = NewSampler demo_go
     \<lparr>Strat_SinceDuration = Hour, Strat_PerKind = 1, Strat_PerConfidenceBucket = [''<0.5'' \<mapsto> 2], Strat_TotalCap = 10,
      Strat_Seed = 42, Strat_OutputPath = ''out''\<rparr> demo_reader"

lemma demo_go_ok: "go_ok demo_go"
proof -
  have "sorts_by key_less insertion_sort"
    by (rule insertion_sort_sorts_by) (auto simp: key_less_def split: if_splits)
  moreover have "sorts_by (\<lambda>x y :: Listing. Listing_ID x < Listing_ID y) insertion_sort"
    by (rule insertion_sort_sorts_by) auto
  ultimately show ?thesis by (simp add: go_ok_def demo_go_def)
qed

lemma demo_reader_good: "good_reader demo_reader"
  by (simp add: good_reader_def demo_reader_def demo_listing_def)

lemma demo_sampler_fields:
  "Sampler_reader demo_sampler = demo_reader" "Strat_PerKind (Sampler_cfg demo_sampler) = 1"
  by (simp_all add: demo_sampler_def NewSampler_def)

theorem sampler_deterministic_witness:
  "case sampler_Run demo_go demo_sampler of
     Panic _ \<Rightarrow> (\<exists>m. sampler_Run (demo_go\<lparr>iter_keys := \<lambda>ks. ks\<rparr>) demo_sampler = Panic m)
   | res \<Rightarrow> sampler_Run (demo_go\<lparr>iter_keys := \<lambda>ks. ks\<rparr>) demo_sampler = res"
proof (rule sampler_deterministic)
  show "go_ok demo_go" by (rule demo_go_ok)
  then show "go_ok (demo_go\<lparr>iter_keys := \<lambda>ks. ks\<rparr>)" by (simp add: go_ok_def)
  show "good_reader (Sampler_reader demo_sampler)" using demo_reader_good by (simp add: demo_sampler_fields)
qed simp

lemma demo_sampler_runs: "\<exists>sample s'. sampler_Run demo_go demo_sampler = Ok (sample, s')
    \<and> map Listing_ID (Sample_Listings sample) = [''a'', ''b'', ''c'']"
proof -
  have "case sampler_Run demo_go demo_sampler of
      Ok (sample, s') \<Rightarrow> map Listing_ID (Sample_Listings sample) = [''a'', ''b'', ''c''] | _ \<Rightarrow> False"
    by code_simp
  then show ?thesis by (auto split: outcome.splits)
qed

theorem sampler_quotas_witness:
  "\<exists>sample s'. sampler_Run demo_go demo_sampler = Ok (sample, s') \<and> distinct (map Listing_ID (Sample_Listings sample))"
proof -
  obtain sample s' where r: "sampler_Run demo_go demo_sampler = Ok (sample, s')" using demo_sampler_runs by blast
  have "good_reader (Sampler_reader demo_sampler)" "0 \<le> Strat_PerKind (Sampler_cfg demo_sampler)"
    using demo_reader_good by (simp_all add: demo_sampler_fields)
  from sampler_quotas [OF demo_go_ok this r] r show ?thesis by blast
qed

subsection \<open>The command\<close>

record sampleFlags =
  SFlag_since :: duration
  SFlag_perKind :: int
  SFlag_perBucket :: string
  SFlag_totalCap :: int
  SFlag_seed :: int
  SFlag_out :: string

definition sample_flag_defaults :: sampleFlags where
  "sample_flag_defaults =
     \<lparr>SFlag_since = 30 * 24 * Hour, SFlag_perKind = 10, SFlag_perBucket = ''<0.5:5,0.5-0.8:10,0.8-1.0:10'',
      SFlag_totalCap = 200, SFlag_seed = 42, SFlag_out = ''''\<rparr>"

text \<open>\<open>now\<close> is the time of the call.\<close>

definition buildConfig :: "instant \<Rightarrow> sampleFlags \<Rightarrow> err + StratificationConfig" where
  "buildConfig now f =
     (case parseBuckets (SFlag_perBucket f) of
        Inl e \<Rightarrow> Inl (Errorf ''dataset-bootstrap: %w'' [ArgErr e])
      | Inr buckets \<Rightarrow>
          let out = (if SFlag_out f = '''' then ''regression-'' @ format_stamp now @ ''.json'' else SFlag_out f)
          in Inr \<lparr>Strat_SinceDuration = SFlag_since f, Strat_PerKind = SFlag_perKind f,
                  Strat_PerConfidenceBucket = buckets, Strat_TotalCap = SFlag_totalCap f,
                  Strat_Seed = SFlag_seed f, Strat_OutputPath = out\<rparr>)"

text \<open>The command of this commit stops after the configuration: there is no datastore to read.\<close>

definition sample_RunE :: "instant \<Rightarrow> sampleFlags \<Rightarrow> err" where
  "sample_RunE now f =
     (case buildConfig now f of
        Inl e \<Rightarrow> e
      | Inr cfg \<Rightarrow> Errorf (''dataset-bootstrap: sample run requires a configured Datastore '' @ [CHR 0xE2, CHR 0x80, CHR 0x94] @ '' '' @
          ''the Postgres impl is in the datastore IMPL. '' @
          ''Until then, exercise Sampler via the unit tests against a fake Datastore. '' @
          ''Config parsed OK: '' @ StratificationConfig_String cfg) [])"

subsection \<open>The bucket flag round trips\<close>

text \<open>The names of a flag value that survives it: printable ASCII without blanks and commas.\<close>

definition visible :: "char \<Rightarrow> bool" where
  "visible c = (33 \<le> byte_val c \<and> byte_val c \<le> (126 :: nat))"

definition plain_char :: "char \<Rightarrow> bool" where
  "plain_char c = (visible c \<and> c \<noteq> CHR '','')"

definition print_pair :: "string \<times> nat \<Rightarrow> string" where
  "print_pair p = fst p @ '':'' @ nat_digits (snd p)"

definition print_buckets :: "(string \<times> nat) list \<Rightarrow> string" where
  "print_buckets ps = join_with '','' (map print_pair ps)"

lemma visible_space_len: "visible c \<Longrightarrow> space_len (c # s) = 0"
  by (auto simp: visible_def Let_def)

lemma visible_space_end: "list_all visible s \<Longrightarrow> space_len_end s = 0"
proof (cases "s = []")
  case False
  assume p: "list_all visible s"
  have d: "space_len (drop n s) = 0" for n
  proof (cases "drop n s")
    case (Cons c t)
    then have "c \<in> set s" by (metis in_set_dropD list.set_intros(1))
    then show ?thesis using p Cons by (simp add: list_all_iff visible_space_len del: space_len.simps)
  qed simp
  have "visible (last s)" using p False by (simp add: list_all_iff)
  then show ?thesis using d [of "length s - 2"] d [of "length s - 3"]
    by (simp add: space_len_end_def visible_space_len del: space_len.simps)
qed (simp add: space_len_end_def)

lemma visible_trim: "list_all visible s \<Longrightarrow> trim_space s = s"
proof -
  assume p: "list_all visible s"
  have "trim_left s = s"
    using p by (subst trim_left.simps) (cases s; simp add: visible_space_len del: space_len.simps(2))
  then show ?thesis
    using visible_space_end [OF p] by (simp add: trim_space_def trim_right.simps [of s])
qed

lemma plain_digits: "list_all plain_char (nat_digits n) \<and> CHR '':'' \<notin> set (nat_digits n)"
proof -
  have "is_digit c \<Longrightarrow> plain_char c \<and> c \<noteq> CHR '':''" for c
    by (auto simp: is_digit_def plain_char_def visible_def)
  then show ?thesis using nat_digits_spec [of n] by (auto simp: list_all_iff)
qed

lemma plain_pair: "list_all plain_char (fst p) \<Longrightarrow> list_all plain_char (print_pair p)"
  using plain_digits [of "snd p"] by (simp add: print_pair_def plain_char_def visible_def)

lemma plain_trim: "list_all plain_char s \<Longrightarrow> trim_space s = s"
  by (rule visible_trim) (simp add: list_all_iff plain_char_def)

lemma visible_join: "\<forall>q \<in> set qs. list_all visible q \<Longrightarrow> list_all visible (join_with '','' qs)"
  by (induction "'',''" qs rule: join_with.induct) (auto simp: visible_def)

lemma last_index_append: "c \<notin> set t \<Longrightarrow> last_index c (s @ c # t) = Some (length s)"
proof (induction s)
  case Nil
  then have "last_index c t = None" by (induction t) auto
  then show ?case by simp
qed simp

lemma split_on_join:
  assumes "\<forall>p \<in> set ps. c \<notin> set p" and "ps \<noteq> []"
  shows "split_on c (join_with [c] ps) = ps"
  using assms
proof (induction "[c]" ps rule: join_with.induct)
  case (2 s)
  then show ?case by (induction s) auto
next
  case (3 s t ss)
  have "split_on c (s @ [c] @ r) = s # split_on c r" if "c \<notin> set s" for r
    using that by (induction s) auto
  with 3 show ?case by simp
qed simp

lemma parse_pairs_print:
  assumes "\<forall>(name, n) \<in> set ps. name \<noteq> '''' \<and> list_all plain_char name \<and> n < 2 ^ 63"
  shows "\<exists>m. parse_pairs out (map print_pair ps) = Inr m
    \<and> (\<forall>k. m k = (case map_of (rev ps) k of None \<Rightarrow> out k | Some n \<Rightarrow> Some (int n)))"
  using assms
proof (induction ps arbitrary: out)
  case (Cons p ps)
  obtain name n where p: "p = (name, n)" by (cases p)
  with Cons.prems have nm: "name \<noteq> ''''" "list_all plain_char name" "n < 2 ^ 63" by auto
  have tr: "trim_space (print_pair p) = print_pair p" by (rule plain_trim, rule plain_pair) (simp add: p nm)
  have li: "last_index (CHR '':'') (print_pair p) = Some (length name)"
    using plain_digits [of n] last_index_append [of "CHR '':''" "nat_digits n" name] by (simp add: print_pair_def p)
  have num: "atoi (nat_digits n) = Some (int n)"
    using atoi_show_int [of "int n"] nm(3) by (simp add: show_int_def int64_range_def)
  have step: "parse_pairs out (map print_pair (p # ps)) = parse_pairs (out(name \<mapsto> int n)) (map print_pair ps)"
    unfolding list.map parse_pairs.simps tr Let_def li
    using nm plain_digits [of n] by (simp add: print_pair_def p plain_trim num)
  have "\<forall>(name, n) \<in> set ps. name \<noteq> '''' \<and> list_all plain_char name \<and> n < 2 ^ 63" using Cons.prems by simp
  from Cons.IH [OF this, of "out(name \<mapsto> int n)"] obtain m
    where "parse_pairs (out(name \<mapsto> int n)) (map print_pair ps) = Inr m"
      "\<forall>k. m k = (case map_of (rev ps) k of None \<Rightarrow> (out(name \<mapsto> int n)) k | Some n \<Rightarrow> Some (int n))" by blast
  then show ?case unfolding step by (intro exI [of _ m]) (auto simp: p map_add_def fun_eq_iff split: option.splits)
qed simp

text \<open>
  The bucket flag round trips: every non-empty list of \<open>name:count\<close> pairs, printed with
  commas, parses back to exactly these counts, the last one for a repeated name, also when a name
  contains colons.
\<close>

lemma buckets_print_parse:
  assumes "ps \<noteq> []" and "\<forall>(name, n) \<in> set ps. name \<noteq> '''' \<and> list_all plain_char name \<and> n < 2 ^ 63"
  shows "parseBuckets (print_buckets ps) = Inr (map_option int \<circ> map_of (rev ps))"
proof -
  have plain: "\<forall>q \<in> set (map print_pair ps). list_all plain_char q"
    using assms(2) plain_pair by fastforce
  then have "\<forall>q \<in> set (map print_pair ps). CHR '','' \<notin> set q"
    by (auto simp: list_all_iff plain_char_def)
  from split_on_join [OF this] assms(1) have sp: "split_on (CHR '','') (print_buckets ps) = map print_pair ps"
    by (simp add: print_buckets_def)
  have "list_all visible (print_buckets ps)"
    unfolding print_buckets_def by (rule visible_join) (use plain in \<open>auto simp: list_all_iff plain_char_def\<close>)
  moreover have "print_buckets ps \<noteq> ''''"
    using assms by (cases ps; cases "tl ps") (auto simp: print_buckets_def print_pair_def neq_Nil_conv)
  ultimately have ne: "trim_space (print_buckets ps) \<noteq> ''''" by (simp add: visible_trim)
  obtain m where m: "parse_pairs Map.empty (map print_pair ps) = Inr m"
    "\<forall>k. m k = (case map_of (rev ps) k of None \<Rightarrow> None | Some n \<Rightarrow> Some (int n))"
    using parse_pairs_print [OF assms(2), of Map.empty] by auto
  have "m = map_option int \<circ> map_of (rev ps)" using m(2) by (auto simp: fun_eq_iff split: option.split)
  then show ?thesis using ne m(1) by (simp add: parseBuckets_def sp)
qed

lemma buckets_print_parse_example:
  "parseBuckets ''<0.5:5,a:b:10'' = Inr [''<0.5'' \<mapsto> 5, ''a:b'' \<mapsto> 10]"
proof -
  have "print_buckets [(''<0.5'', 5), (''a:b'', 10)] = ''<0.5:5,a:b:10''" by code_simp
  moreover have "\<forall>(name, n) \<in> set [(''<0.5'', 5 :: nat), (''a:b'', 10)]. name \<noteq> '''' \<and> list_all plain_char name \<and> n < 2 ^ 63"
    by (simp add: plain_char_def visible_def)
  ultimately show ?thesis
    using buckets_print_parse [of "[(''<0.5'', 5), (''a:b'', 10)]"] by (auto simp: fun_eq_iff)
qed

text \<open>
  The defaults of the flags are usable: they parse, and every bucket a confidence can fall into
  has its quota.
\<close>

lemma sample_defaults_usable:
  "\<exists>m. buildConfig now sample_flag_defaults
       = Inr \<lparr>Strat_SinceDuration = 30 * 24 * Hour, Strat_PerKind = 10, Strat_PerConfidenceBucket = m,
              Strat_TotalCap = 200, Strat_Seed = 42, Strat_OutputPath = ''regression-'' @ format_stamp now @ ''.json''\<rparr>
     \<and> m (ConfidenceBucketFor conf) \<noteq> None \<and> dom m = {''<0.5'', ''0.5-0.8'', ''0.8-1.0''}
     \<and> show_buckets m = ''map[0.5-0.8:10 0.8-1.0:10 <0.5:5]''"
proof -
  let ?ps = "[(''<0.5'', 5), (''0.5-0.8'', 10), (''0.8-1.0'', 10)] :: (string \<times> nat) list"
  have "print_buckets ?ps = ''<0.5:5,0.5-0.8:10,0.8-1.0:10''" by code_simp
  moreover have "parseBuckets (print_buckets ?ps) = Inr (map_option int \<circ> map_of (rev ?ps))"
    by (rule buckets_print_parse) (auto simp: plain_char_def visible_def)
  moreover have dom: "dom (map_option int \<circ> map_of (rev ?ps)) = {''<0.5'', ''0.5-0.8'', ''0.8-1.0''}"
    by (auto split: if_splits)
  moreover have "show_buckets (map_option int \<circ> map_of (rev ?ps)) = ''map[0.5-0.8:10 0.8-1.0:10 <0.5:5]''"
    unfolding show_buckets_def dom by (simp add: show_int_def nat_digits.simps char_of_def bit_0)
  ultimately show ?thesis
    by (auto simp: buildConfig_def sample_flag_defaults_def ConfidenceBucketFor_def)
qed

end
