(* ===== verification/Judge_Strategies.thy ===== *)
theory Judge_Strategies
  imports Dataset_Sampler Go_Decimal
begin

text \<open>
  \<^verbatim>\<open>tools/judge-bootstrap\<close>: the candidates, the four strategies that surface them with their
  registry (\<^verbatim>\<open>strategy.go\<close>) and the review filter (\<^verbatim>\<open>main.go\<close>). The datastore is the same
  three-method interface as the sampler's (\<open>Reader\<close>). The algorithm of \<^verbatim>\<open>sort.Slice\<close> is a
  parameter with the contract \<open>slice_sort\<close>, and so is the location of the stored times.
\<close>

record Candidate =
  Cand_ListingID :: ListingID
  Cand_ScoreID :: ScoreID
  Cand_ScoreValue :: f64
  Cand_Components :: "Component list"
  Cand_Reasoning :: string
  Cand_Why :: string
  Cand_Accepted :: bool
  Cand_Notes :: string

definition ErrUnknownStrategy :: err where
  "ErrUnknownStrategy = Sentinel ''judge-bootstrap: unknown strategy''"

type_synonym JudgmentReader = "ScoreID list \<Rightarrow> err + (ScoreID \<rightharpoonup> Judgment list)"

subsection \<open>Shared helpers\<close>

fun collect_candidates :: "Reader \<Rightarrow> (ListingID \<rightharpoonup> Score) \<Rightarrow> Candidate list \<Rightarrow> Listing list \<Rightarrow> err + Candidate list" where
  "collect_candidates reader scores out [] = Inr out"
| "collect_candidates reader scores out (l # ls) =
     (case ComponentsForListing reader (Listing_ID l) of
        Inl e \<Rightarrow> Inl (Errorf ''judge-bootstrap: components for %q: %w'' [ArgQuoted (Listing_ID l), ArgErr e])
      | Inr comps \<Rightarrow>
          (case scores (Listing_ID l) of
             None \<Rightarrow> collect_candidates reader scores out ls
           | Some s \<Rightarrow>
               collect_candidates reader scores
                 (out @ [\<lparr>Cand_ListingID = Listing_ID l, Cand_ScoreID = Score_ID s, Cand_ScoreValue = Score_Value s,
                          Cand_Components = comps, Cand_Reasoning = '''', Cand_Why = '''',
                          Cand_Accepted = False, Cand_Notes = ''''\<rparr>]) ls))"

definition loadAllCandidates :: "Reader \<Rightarrow> duration \<Rightarrow> err + Candidate list" where
  "loadAllCandidates reader window =
     (case ListingsSince reader window of
        Inl e \<Rightarrow> Inl (Errorf ''judge-bootstrap: listings: %w'' [ArgErr e])
      | Inr listings \<Rightarrow>
          (case ScoresForListings reader (map Listing_ID listings) of
             Inl e \<Rightarrow> Inl (Errorf ''judge-bootstrap: scores: %w'' [ArgErr e])
           | Inr scores \<Rightarrow> collect_candidates reader scores [] listings))"

text \<open>\<^verbatim>\<open>sort.Float64s\<close> orders a NaN before every number.\<close>

definition sort_Float64s :: "f64 list \<Rightarrow> f64 list" where
  "sort_Float64s xs = insertion_sort (\<lambda>x y. f64_lt x y \<or> (x = NaN \<and> y \<noteq> NaN)) xs"

definition percentileBoundaries :: "Candidate list \<Rightarrow> f64 list" where
  "percentileBoundaries cs =
     (if cs = [] then []
      else let vals = sort_Float64s (map Cand_ScoreValue cs)
           in [vals ! (length vals div 4), vals ! (length vals div 2), vals ! (3 * length vals div 4)])"

fun nearest_from :: "f64 \<Rightarrow> f64 \<Rightarrow> f64 list \<Rightarrow> f64" where
  "nearest_from best v [] = best"
| "nearest_from best v (m # ms) =
     (let d = f64_abs (f64_sub v m) in nearest_from (if f64_lt d best then d else best) v ms)"

definition distanceToNearest :: "f64 \<Rightarrow> f64 list \<Rightarrow> f64" where
  "distanceToNearest v marks = nearest_from PosInf v marks"

subsection \<open>The strategies\<close>

text \<open>The strategies of the registry with their fields; a nil judgment reader is \<open>None\<close>.\<close>

datatype SurfaceStrategy =
    AmbiguousStrategy duration f64
  | LowConfidenceStrategy duration f64
  | HighStakesStrategy duration
  | DisagreementStrategy duration "JudgmentReader option"

fun strategy_Name :: "SurfaceStrategy \<Rightarrow> string" where
  "strategy_Name (AmbiguousStrategy _ _) = ''ambiguous''"
| "strategy_Name (LowConfidenceStrategy _ _) = ''low-confidence''"
| "strategy_Name (HighStakesStrategy _) = ''high-stakes''"
| "strategy_Name (DisagreementStrategy _ _) = ''disagreement''"

text \<open>\<open>make([]Candidate, 0, n)\<close> panics for a negative \<open>n\<close>.\<close>

definition make_cap :: "int \<Rightarrow> 'a outcome \<Rightarrow> 'a outcome" where
  "make_cap n k = (if n < 0 then Panic ''makeslice: cap out of range'' else k)"

fun take_near :: "int \<Rightarrow> f64 \<Rightarrow> Candidate list \<Rightarrow> (Candidate \<times> f64) list \<Rightarrow> Candidate list" where
  "take_near n band out [] = out"
| "take_near n band out ((c, distance) # scs) =
     (if int (length out) \<ge> n then out
      else if f64_gt distance band then out
      else take_near n band
             (out @ [c\<lparr>Cand_Why := ''within '' @ format_fixed 1 distance @ '' pp of percentile boundary''\<rparr>]) scs)"

type_synonym scored_sort =
  "(Candidate \<times> f64 \<Rightarrow> Candidate \<times> f64 \<Rightarrow> bool) \<Rightarrow> (Candidate \<times> f64) list \<Rightarrow> (Candidate \<times> f64) list"
type_synonym candidate_sort = "(Candidate \<Rightarrow> Candidate \<Rightarrow> bool) \<Rightarrow> Candidate list \<Rightarrow> Candidate list"

definition Ambiguous_Surface :: "scored_sort \<Rightarrow> duration \<Rightarrow> f64 \<Rightarrow> Reader \<Rightarrow> int \<Rightarrow> Candidate list outcome" where
  "Ambiguous_Surface srt window bandPct reader n =
     (case loadAllCandidates reader window of
        Inl e \<Rightarrow> Err e
      | Inr candidates \<Rightarrow>
          if candidates = [] then Ok []
          else
            let values = percentileBoundaries candidates;
                all = srt (\<lambda>x y. f64_lt (snd x) (snd y))
                        (map (\<lambda>c. (c, distanceToNearest (Cand_ScoreValue c) values)) candidates)
            in make_cap n (Ok (take_near n (f64_mul bandPct (Fin 100)) [] all)))"

definition min_confidence :: "Component list \<Rightarrow> f64" where
  "min_confidence comps =
     foldl (\<lambda>minConf comp. if f64_lt (Component_Confidence comp) minConf then Component_Confidence comp else minConf)
       PosInf comps"

fun take_low :: "int \<Rightarrow> f64 \<Rightarrow> Candidate list \<Rightarrow> Candidate list \<Rightarrow> Candidate list" where
  "take_low n threshold out [] = out"
| "take_low n threshold out (c # cs) =
     (if int (length out) \<ge> n then out
      else let minConf = min_confidence (Cand_Components c)
           in if f64_lt minConf threshold
              then take_low n threshold
                     (out @ [c\<lparr>Cand_Why := ''min component confidence='' @ format_fixed 2 minConf @ '' < '' @ format_fixed 2 threshold\<rparr>]) cs
              else take_low n threshold out cs)"

definition LowConfidence_Surface :: "duration \<Rightarrow> f64 \<Rightarrow> Reader \<Rightarrow> int \<Rightarrow> Candidate list outcome" where
  "LowConfidence_Surface window threshold reader n =
     (case loadAllCandidates reader window of
        Inl e \<Rightarrow> Err e
      | Inr candidates \<Rightarrow> make_cap n (Ok (take_low n threshold [] candidates)))"

text \<open>\<open>candidates[:cutoff]\<close> and \<open>out[:n]\<close> panic on a negative bound.\<close>

definition HighStakes_Surface :: "candidate_sort \<Rightarrow> duration \<Rightarrow> Reader \<Rightarrow> int \<Rightarrow> Candidate list outcome" where
  "HighStakes_Surface srt window reader n =
     (case loadAllCandidates reader window of
        Inl e \<Rightarrow> Err e
      | Inr candidates \<Rightarrow>
          let candidates = srt (\<lambda>x y. f64_gt (Cand_ScoreValue x) (Cand_ScoreValue y)) candidates;
              cutoff = int (length candidates div 10);
              cutoff = (if cutoff < n then n else cutoff);
              cutoff = (if cutoff > int (length candidates) then int (length candidates) else cutoff);
              out = take (nat cutoff) candidates
          in if int (length out) > n then
               (if n < 0 then Panic ''slice bounds out of range''
                else Ok (map (\<lambda>c. c\<lparr>Cand_Why := ''top-decile score''\<rparr>) (take (nat n) out)))
             else Ok (map (\<lambda>c. c\<lparr>Cand_Why := ''top-decile score''\<rparr>) out))"

fun first_disagreement :: "Judgment list \<Rightarrow> Judgment option" where
  "first_disagreement [] = None"
| "first_disagreement (j # js) =
     (if Judgment_Verdict j = VerdictDisagrees \<or> Judgment_Verdict j = VerdictUncertain then Some j
      else first_disagreement js)"

fun take_disagreeing :: "(instant \<Rightarrow> int) \<Rightarrow> int \<Rightarrow> (ScoreID \<rightharpoonup> Judgment list) \<Rightarrow> Candidate list \<Rightarrow> Candidate list \<Rightarrow> Candidate list" where
  "take_disagreeing zone n judgments out [] = out"
| "take_disagreeing zone n judgments out (c # cs) =
     (if int (length out) \<ge> n then out
      else case first_disagreement (case judgments (Cand_ScoreID c) of None \<Rightarrow> [] | Some js \<Rightarrow> js) of
        None \<Rightarrow> take_disagreeing zone n judgments out cs
      | Some j \<Rightarrow> take_disagreeing zone n judgments
            (out @ [c\<lparr>Cand_Why := ''prior judgment '' @ Judgment_Verdict j @ '' on ''
               @ format_RFC3339 (zone (Judgment_CreatedAt j)) (Judgment_CreatedAt j)\<rparr>]) cs)"

definition Disagreement_Surface :: "(instant \<Rightarrow> int) \<Rightarrow> duration \<Rightarrow> JudgmentReader option \<Rightarrow> Reader \<Rightarrow> int \<Rightarrow> Candidate list outcome" where
  "Disagreement_Surface zone window judgmentReader reader n =
     (case judgmentReader of
        None \<Rightarrow> Ok []
      | Some jr \<Rightarrow>
          (case loadAllCandidates reader window of
             Inl e \<Rightarrow> Err e
           | Inr candidates \<Rightarrow>
               (case jr (map Cand_ScoreID candidates) of
                  Inl e \<Rightarrow> Err (Errorf ''judge-bootstrap: judgments lookup: %w'' [ArgErr e])
                | Inr judgments \<Rightarrow> make_cap n (Ok (take_disagreeing zone n judgments [] candidates)))))"

text \<open>
  What Go leaves open here: \<^verbatim>\<open>sort.Slice\<close> at its two types. \<open>judge_zone\<close> is the offset of the
  location that a stored time carries.
\<close>

record judge_env =
  sort_scored :: scored_sort
  sort_candidates :: candidate_sort
  judge_zone :: "instant \<Rightarrow> int"

fun Surface :: "judge_env \<Rightarrow> SurfaceStrategy \<Rightarrow> Reader \<Rightarrow> int \<Rightarrow> Candidate list outcome" where
  "Surface env (AmbiguousStrategy window bandPct) reader n = Ambiguous_Surface (sort_scored env) window bandPct reader n"
| "Surface env (LowConfidenceStrategy window threshold) reader n = LowConfidence_Surface window threshold reader n"
| "Surface env (HighStakesStrategy window) reader n = HighStakes_Surface (sort_candidates env) window reader n"
| "Surface env (DisagreementStrategy window jr) reader n = Disagreement_Surface (judge_zone env) window jr reader n"

subsection \<open>Registry and review\<close>

definition strategies :: "(string \<times> SurfaceStrategy) list" where
  "strategies =
     [(''ambiguous'', AmbiguousStrategy (30 * 24 * Hour) (Fin (3602879701896397/72057594037927936))),
      (''disagreement'', DisagreementStrategy (30 * 24 * Hour) None),
      (''high-stakes'', HighStakesStrategy (30 * 24 * Hour)),
      (''low-confidence'', LowConfidenceStrategy (30 * 24 * Hour) (Fin (1/2)))]"

definition StrategyByName :: "string \<Rightarrow> err + SurfaceStrategy" where
  "StrategyByName name =
     (case map_of strategies name of
        None \<Rightarrow> Inl (Errorf ''%w %q (valid: %v)''
          [ArgErr ErrUnknownStrategy, ArgQuoted name, ArgStrs (sort (map fst strategies))])
      | Some s \<Rightarrow> Inr s)"

fun filter_loop :: "string list \<Rightarrow> Candidate list \<Rightarrow> Candidate list \<Rightarrow> string list \<times> Candidate list" where
  "filter_loop missing out [] = (missing, out)"
| "filter_loop missing out (c # cs) =
     (if \<not> Cand_Accepted c then filter_loop missing out cs
      else if Cand_Notes c = '''' then filter_loop (missing @ [Cand_ScoreID c]) out cs
      else filter_loop missing (out @ [c]) cs)"

definition FilterAccepted :: "Candidate list \<Rightarrow> err + Candidate list" where
  "FilterAccepted candidates =
     (let (missing, out) = filter_loop [] [] candidates
      in if 0 < length missing
         then Inl (Errorf ''judge-bootstrap: accepted candidates missing Notes: %v'' [ArgStrs missing])
         else Inr out)"

subsection \<open>The loops as list functions\<close>

definition explain_near :: "Candidate \<times> f64 \<Rightarrow> Candidate" where
  "explain_near cd = (fst cd)\<lparr>Cand_Why := ''within '' @ format_fixed 1 (snd cd) @ '' pp of percentile boundary''\<rparr>"

definition explain_low :: "f64 \<Rightarrow> Candidate \<Rightarrow> Candidate" where
  "explain_low threshold c = c\<lparr>Cand_Why := ''min component confidence='' @ format_fixed 2 (min_confidence (Cand_Components c)) @ '' < ''
     @ format_fixed 2 threshold\<rparr>"

definition prior_disagreement :: "(ScoreID \<rightharpoonup> Judgment list) \<Rightarrow> Candidate \<Rightarrow> Judgment option" where
  "prior_disagreement judgments c =
     first_disagreement (case judgments (Cand_ScoreID c) of None \<Rightarrow> [] | Some js \<Rightarrow> js)"

definition explain_prior :: "(instant \<Rightarrow> int) \<Rightarrow> (ScoreID \<rightharpoonup> Judgment list) \<Rightarrow> Candidate \<Rightarrow> Candidate" where
  "explain_prior zone judgments c = c\<lparr>Cand_Why := ''prior judgment '' @ Judgment_Verdict (the (prior_disagreement judgments c)) @ '' on ''
     @ format_RFC3339 (zone (Judgment_CreatedAt (the (prior_disagreement judgments c))))
         (Judgment_CreatedAt (the (prior_disagreement judgments c)))\<rparr>"

lemma room: "int l < n \<Longrightarrow> nat (n - int l) = Suc (nat (n - (int l + 1)))"
  by linarith

lemma take_near_spec:
  "take_near n band out scs =
     out @ take (nat (n - int (length out))) (map explain_near (takeWhile (\<lambda>cd. \<not> f64_gt (snd cd) band) scs))"
  by (induction n band out scs rule: take_near.induct) (auto simp: explain_near_def room add.commute [of 1])

lemma take_low_spec:
  "take_low n threshold out cs =
     out @ take (nat (n - int (length out)))
       (map (explain_low threshold) (filter (\<lambda>c. f64_lt (min_confidence (Cand_Components c)) threshold) cs))"
  by (induction n threshold out cs rule: take_low.induct) (auto simp: explain_low_def Let_def room add.commute [of 1])

lemma take_disagreeing_spec:
  "take_disagreeing zone n judgments out cs =
     out @ take (nat (n - int (length out)))
       (map (explain_prior zone judgments) (filter (\<lambda>c. prior_disagreement judgments c \<noteq> None) cs))"
  by (induction zone n judgments out cs rule: take_disagreeing.induct)
    (auto simp: explain_prior_def prior_disagreement_def room add.commute [of 1] split: option.splits)

subsection \<open>What every strategy promises\<close>

text \<open>A candidate without its explanation.\<close>

definition bare :: "Candidate \<Rightarrow> Candidate" where
  "bare c = c\<lparr>Cand_Why := ''''\<rparr>"

lemma bare_explained [simp]:
  "bare (explain_near cd) = bare (fst cd)" "bare (explain_low t c) = bare c"
  "bare (explain_prior r js c) = bare c" "bare (c\<lparr>Cand_Why := w\<rparr>) = bare c"
  by (simp_all add: bare_def explain_near_def explain_low_def explain_prior_def)

lemma bare_fields [simp]:
  "Cand_Accepted (bare c) = Cand_Accepted c" "Cand_ScoreID (bare c) = Cand_ScoreID c"
  "Cand_ScoreValue (bare c) = Cand_ScoreValue c" "Cand_ListingID (bare c) = Cand_ListingID c"
  by (simp_all add: bare_def)

lemma filter_loop_spec:
  "filter_loop missing out cs =
     (missing @ map Cand_ScoreID (filter (\<lambda>c. Cand_Accepted c \<and> Cand_Notes c = '''') cs),
      out @ filter (\<lambda>c. Cand_Accepted c \<and> Cand_Notes c \<noteq> '''') cs)"
  by (induction cs arbitrary: missing out) auto

locale surface_strategy =
  fixes surface :: "Reader \<Rightarrow> int \<Rightarrow> Candidate list outcome" and window :: duration
  assumes bounded: "surface reader n = Ok out \<Longrightarrow> 0 \<le> n \<Longrightarrow> int (length out) \<le> n"
    and from_reader: "surface reader n = Ok out \<Longrightarrow> out \<noteq> [] \<Longrightarrow>
          \<exists>cs. loadAllCandidates reader window = Inr cs \<and> mset (map bare out) \<subseteq># mset (map bare cs)"
    and no_panic: "0 \<le> n \<Longrightarrow> surface reader n \<noteq> Panic m"
begin

lemma surfaces_nothing: "surface reader 0 = Ok out \<Longrightarrow> out = []"
  using bounded [of reader 0 out] by simp

lemma surfaced_loaded:
  assumes "surface reader n = Ok out" and "c \<in> set out"
  shows "\<exists>cs c0. loadAllCandidates reader window = Inr cs \<and> c0 \<in> set cs \<and> bare c = bare c0"
proof -
  from assms obtain cs where cs: "loadAllCandidates reader window = Inr cs" "mset (map bare out) \<subseteq># mset (map bare cs)"
    using from_reader by fastforce
  then have "bare c \<in> set (map bare cs)" using assms(2) by (metis image_eqI list.set_map mset_subset_eqD set_mset_mset)
  with cs(1) show ?thesis by auto
qed

text \<open>Different scores stay different: no score is surfaced twice.\<close>

lemma surfaced_once:
  assumes "surface reader n = Ok out"
    and "\<And>cs. loadAllCandidates reader window = Inr cs \<Longrightarrow> distinct (map Cand_ScoreID cs)"
  shows "distinct (map Cand_ScoreID out)"
proof (cases "out = []")
  case False
  then obtain cs where cs: "loadAllCandidates reader window = Inr cs" "mset (map bare out) \<subseteq># mset (map bare cs)"
    using from_reader [OF assms(1)] by blast
  from image_mset_subseteq_mono [OF cs(2), of Cand_ScoreID]
  have "mset (map Cand_ScoreID out) \<subseteq># mset (map Cand_ScoreID cs)" by (simp add: multiset.map_comp comp_def)
  then show ?thesis using assms(2) [OF cs(1)] by (rule mset_sub_distinct)
qed simp

end

lemma mset_take_sub: "mset (take k xs) \<subseteq># mset xs"
  by (metis append_take_drop_id mset_append mset_subset_eq_add_left)

lemma mset_takeWhile_sub: "mset (takeWhile P xs) \<subseteq># mset xs"
  by (metis mset_append mset_subset_eq_add_left takeWhile_dropWhile_id)

lemma make_cap_Ok: "make_cap n k = Ok x \<longleftrightarrow> 0 \<le> n \<and> k = Ok x"
  by (auto simp: make_cap_def)

lemma make_cap_Panic: "0 \<le> n \<Longrightarrow> make_cap n k = k"
  by (simp add: make_cap_def)

text \<open>A list cut to \<open>n\<close> elements, each an explained candidate: the shape all strategies share.\<close>

lemma strategy_shape:
  assumes "\<And>c. c \<in> set xs \<Longrightarrow> bare (ex c) = bare (sel c)" and "mset (map sel xs) \<subseteq># mset cs"
  shows "mset (map bare (take k (map ex xs))) \<subseteq># mset (map bare cs)"
proof -
  have "map bare (map ex xs) = map bare (map sel xs)" using assms(1) by simp
  then have eq: "map bare (take k (map ex xs)) = take k (map bare (map sel xs))" by (metis take_map)
  have "mset (map bare (map sel xs)) \<subseteq># mset (map bare cs)"
    unfolding mset_map [of bare] by (rule image_mset_subseteq_mono [OF assms(2)])
  with mset_take_sub show ?thesis unfolding eq by (rule subset_mset.order_trans)
qed

lemma LowConfidence_strategy: "surface_strategy (LowConfidence_Surface window threshold) window"
proof
  fix reader n out
  assume ok: "LowConfidence_Surface window threshold reader n = Ok out"
  then obtain cs where cs: "loadAllCandidates reader window = Inr cs" "0 \<le> n" and out: "out = take_low n threshold [] cs"
    by (auto simp: LowConfidence_Surface_def make_cap_Ok split: sum.splits)
  show "0 \<le> n \<Longrightarrow> int (length out) \<le> n" by (simp add: out take_low_spec)
  have "mset (map bare out) \<subseteq># mset (map bare cs)"
    unfolding out take_low_spec append_Nil by (rule strategy_shape [where sel = "\<lambda>c. c"]) auto
  with cs(1) show "\<exists>cs. loadAllCandidates reader window = Inr cs \<and> mset (map bare out) \<subseteq># mset (map bare cs)" by blast
next
  show "0 \<le> n \<Longrightarrow> LowConfidence_Surface window threshold reader n \<noteq> Panic m" for reader n m
    by (auto simp: LowConfidence_Surface_def make_cap_Panic split: sum.splits)
qed

lemma Disagreement_strategy: "surface_strategy (Disagreement_Surface zone window jr) window"
proof
  fix reader n out
  assume ok: "Disagreement_Surface zone window jr reader n = Ok out"
  then consider "out = []" | cs js where "loadAllCandidates reader window = Inr cs" "0 \<le> n"
      "out = take_disagreeing zone n js [] cs"
    by (auto simp: Disagreement_Surface_def make_cap_Ok split: sum.splits option.splits)
  note sh = this
  show "0 \<le> n \<Longrightarrow> int (length out) \<le> n" by (rule sh) (auto simp: take_disagreeing_spec)
  show "out \<noteq> [] \<Longrightarrow> \<exists>cs. loadAllCandidates reader window = Inr cs \<and> mset (map bare out) \<subseteq># mset (map bare cs)"
  proof (rule sh)
    fix cs js
    assume cs: "loadAllCandidates reader window = Inr cs" and out: "out = take_disagreeing zone n js [] cs"
    have "mset (map bare out) \<subseteq># mset (map bare cs)"
      unfolding out take_disagreeing_spec append_Nil by (rule strategy_shape [where sel = "\<lambda>c. c"]) auto
    with cs show ?thesis by blast
  qed simp
next
  show "0 \<le> n \<Longrightarrow> Disagreement_Surface zone window jr reader n \<noteq> Panic m" for reader n m
    by (auto simp: Disagreement_Surface_def make_cap_Panic split: sum.splits option.splits)
qed

lemma Ambiguous_strategy:
  assumes "slice_sort srt"
  shows "surface_strategy (Ambiguous_Surface srt window band) window"
proof
  fix reader n out
  assume ok: "Ambiguous_Surface srt window band reader n = Ok out"
  then consider "out = []" | cs where "loadAllCandidates reader window = Inr cs" "0 \<le> n"
      "out = take_near n (f64_mul band (Fin 100)) [] (srt (\<lambda>x y. f64_lt (snd x) (snd y))
         (map (\<lambda>c. (c, distanceToNearest (Cand_ScoreValue c) (percentileBoundaries cs))) cs))"
    by (auto simp: Ambiguous_Surface_def make_cap_Ok Let_def split: sum.splits if_splits)
  note sh = this
  show "0 \<le> n \<Longrightarrow> int (length out) \<le> n" by (rule sh) (auto simp: take_near_spec)
  show "out \<noteq> [] \<Longrightarrow> \<exists>cs. loadAllCandidates reader window = Inr cs \<and> mset (map bare out) \<subseteq># mset (map bare cs)"
  proof (rule sh)
    fix cs
    let ?xs = "map (\<lambda>c. (c, distanceToNearest (Cand_ScoreValue c) (percentileBoundaries cs))) cs"
    let ?ys = "srt (\<lambda>x y. f64_lt (snd x) (snd y)) ?xs"
    assume cs: "loadAllCandidates reader window = Inr cs" and out: "out = take_near n (f64_mul band (Fin 100)) [] ?ys"
    have "mset ?ys = mset ?xs" using assms unfolding slice_sort_def by blast
    then have "image_mset fst (mset ?ys) = mset (map fst ?xs)" by (simp only: mset_map)
    then have ys: "image_mset fst (mset ?ys) = mset cs" by (simp add: comp_def del: mset_map)
    have "mset (map fst (takeWhile P ?ys)) \<subseteq># mset cs" for P
      using image_mset_subseteq_mono [OF mset_takeWhile_sub, of fst P ?ys] unfolding ys mset_map .
    then have "mset (map bare out) \<subseteq># mset (map bare cs)"
      unfolding out take_near_spec append_Nil by (intro strategy_shape [where sel = fst]) auto
    with cs show ?thesis by blast
  qed simp
next
  show "0 \<le> n \<Longrightarrow> Ambiguous_Surface srt window band reader n \<noteq> Panic m" for reader n m
    by (auto simp: Ambiguous_Surface_def make_cap_Panic Let_def split: sum.splits)
qed

text \<open>The high-stakes result is the head of the sorted candidates, \<open>n\<close> of them.\<close>

lemma HighStakes_head:
  assumes "0 \<le> n"
  shows "HighStakes_Surface srt window reader n =
    (case loadAllCandidates reader window of
       Inl e \<Rightarrow> Err e
     | Inr cs \<Rightarrow> Ok (map (\<lambda>c. c\<lparr>Cand_Why := ''top-decile score''\<rparr>)
         (take (nat n) (srt (\<lambda>x y. f64_gt (Cand_ScoreValue x) (Cand_ScoreValue y)) cs))))"
proof (cases "loadAllCandidates reader window")
  case (Inr cs)
  define s where "s = srt (\<lambda>x y. f64_gt (Cand_ScoreValue x) (Cand_ScoreValue y)) cs"
  let ?why = "\<lambda>c. c\<lparr>Cand_Why := ''top-decile score''\<rparr>"
  define cut where "cut = min (max (int (length s div 10)) n) (int (length s))"
  have cut: "(if int (length s) < (if int (length s div 10) < n then n else int (length s div 10)) then int (length s)
      else if int (length s div 10) < n then n else int (length s div 10)) = cut"
    by (simp only: cut_def min_def max_def not_less split: if_split) linarith
  have "HighStakes_Surface srt window reader n =
    (if int (length (take (nat cut) s)) > n then Ok (map ?why (take (nat n) (take (nat cut) s)))
     else Ok (map ?why (take (nat cut) s)))"
    using assms unfolding HighStakes_Surface_def Inr sum.case Let_def s_def [symmetric] cut by simp
  moreover have "n \<le> cut \<or> cut = int (length s)" unfolding cut_def by linarith
  moreover have "0 \<le> cut" "cut \<le> int (length s)" unfolding cut_def using assms by linarith+
  ultimately have "HighStakes_Surface srt window reader n = Ok (map ?why (take (nat n) s))"
    by (cases "n \<le> cut") (auto simp: min_def nat_le_iff)
  then show ?thesis by (simp add: Inr s_def)
qed (simp add: HighStakes_Surface_def)

lemma HighStakes_strategy:
  assumes "slice_sort srt"
  shows "surface_strategy (HighStakes_Surface srt window) window"
proof
  fix reader n out
  assume ok: "HighStakes_Surface srt window reader n = Ok out"
  { assume n: "0 \<le> n"
    from ok show "int (length out) \<le> n" unfolding HighStakes_head [OF n] using n by (auto split: sum.splits) }
  from ok obtain cs where cs: "loadAllCandidates reader window = Inr cs"
    by (cases "loadAllCandidates reader window") (simp_all add: HighStakes_Surface_def)
  let ?s = "srt (\<lambda>x y. f64_gt (Cand_ScoreValue x) (Cand_ScoreValue y)) cs"
  obtain k where k: "out = take k (map (\<lambda>c. c\<lparr>Cand_Why := ''top-decile score''\<rparr>) ?s)"
  proof -
    from ok cs that that [of "length ?s"] show thesis
      by (auto simp: HighStakes_Surface_def Let_def take_map [symmetric] split: if_splits)
  qed
  have "mset ?s = mset cs" using assms unfolding slice_sort_def by blast
  then have "mset (map bare out) \<subseteq># mset (map bare cs)"
    unfolding k by (intro strategy_shape [where sel = "\<lambda>c. c"]) simp_all
  with cs show "\<exists>cs. loadAllCandidates reader window = Inr cs \<and> mset (map bare out) \<subseteq># mset (map bare cs)" by blast
next
  show "0 \<le> n \<Longrightarrow> HighStakes_Surface srt window reader n \<noteq> Panic m" for reader n m
    by (simp add: HighStakes_head split: sum.splits)
qed


text \<open>Every strategy, dispatched the way the interface value is, is a \<open>surface_strategy\<close>.\<close>

fun strategy_Window :: "SurfaceStrategy \<Rightarrow> duration" where
  "strategy_Window (AmbiguousStrategy window _) = window"
| "strategy_Window (LowConfidenceStrategy window _) = window"
| "strategy_Window (HighStakesStrategy window) = window"
| "strategy_Window (DisagreementStrategy window _) = window"

lemma Surface_strategy:
  assumes "slice_sort (sort_scored env)" and "slice_sort (sort_candidates env)"
  shows "surface_strategy (Surface env s) (strategy_Window s)"
proof -
  have "Surface env s = (case s of
      AmbiguousStrategy w b \<Rightarrow> Ambiguous_Surface (sort_scored env) w b
    | LowConfidenceStrategy w t \<Rightarrow> LowConfidence_Surface w t
    | HighStakesStrategy w \<Rightarrow> HighStakes_Surface (sort_candidates env) w
    | DisagreementStrategy w jr \<Rightarrow> Disagreement_Surface (judge_zone env) w jr)"
    by (intro ext) (cases s; simp)
  then show ?thesis
    using Ambiguous_strategy [OF assms(1)] HighStakes_strategy [OF assms(2)]
      LowConfidence_strategy Disagreement_strategy
    by (cases s) simp_all
qed

text \<open>The standard library's algorithm for a short slice is insertion sort.\<close>

definition go_env :: "(instant \<Rightarrow> int) \<Rightarrow> judge_env" where
  "go_env zone = \<lparr>sort_scored = insertion_sort, sort_candidates = insertion_sort, judge_zone = zone\<rparr>"

interpretation surfaces: surface_strategy "Surface (go_env zone) s" "strategy_Window s" for zone s
  by (rule Surface_strategy) (simp_all add: go_env_def insertion_sort_slice_sort)

lemma FilterAccepted_eq:
  "FilterAccepted cs =
     (let missing = filter (\<lambda>c. Cand_Accepted c \<and> Cand_Notes c = '''') cs
      in if missing = [] then Inr (filter (\<lambda>c. Cand_Accepted c) cs)
         else Inl (Errorf ''judge-bootstrap: accepted candidates missing Notes: %v'' [ArgStrs (map Cand_ScoreID missing)]))"
proof -
  have "filter (\<lambda>c. Cand_Accepted c \<and> Cand_Notes c \<noteq> '''') cs = filter (\<lambda>c. Cand_Accepted c) cs"
    if "filter (\<lambda>c. Cand_Accepted c \<and> Cand_Notes c = '''') cs = []"
    using that by (auto simp: filter_empty_conv intro: filter_cong)
  then show ?thesis by (simp add: FilterAccepted_def filter_loop_spec Let_def)
qed

lemma collected_not_accepted:
  assumes "collect_candidates reader scores out ls = Inr cs" and "\<forall>c\<in>set out. \<not> Cand_Accepted c"
  shows "\<forall>c\<in>set cs. \<not> Cand_Accepted c"
  using assms
proof (induction ls arbitrary: out)
  case (Cons l ls)
  then show ?case by (fastforce split: sum.splits option.splits)
qed simp

lemma loaded_not_accepted: "loadAllCandidates reader w = Inr cs \<Longrightarrow> c \<in> set cs \<Longrightarrow> \<not> Cand_Accepted c"
  by (auto simp: loadAllCandidates_def split: sum.splits dest!: collected_not_accepted)

subsection \<open>What the strategies guarantee\<close>

lemma Surface_errors:
  assumes "Surface env s reader n = Err e"
  shows "loadAllCandidates reader (strategy_Window s) = Inl e
    \<or> (\<exists>jr ids e'. s = DisagreementStrategy (strategy_Window s) (Some jr) \<and> jr ids = Inl e'
         \<and> e = Errorf ''judge-bootstrap: judgments lookup: %w'' [ArgErr e'])"
proof (cases s)
  case (AmbiguousStrategy w b)
  then show ?thesis using assms by (auto simp: Ambiguous_Surface_def make_cap_def Let_def split: sum.splits if_splits)
next
  case (LowConfidenceStrategy w t)
  then show ?thesis using assms by (auto simp: LowConfidence_Surface_def make_cap_def split: sum.splits if_splits)
next
  case (HighStakesStrategy w)
  then show ?thesis using assms by (auto simp: HighStakes_Surface_def Let_def split: sum.splits if_splits)
next
  case (DisagreementStrategy w jr)
  then show ?thesis using assms
    by (auto simp: Disagreement_Surface_def make_cap_def split: sum.splits if_splits option.splits)
qed

lemma mset_bare_not_accepted:
  assumes "mset (map bare out) \<subseteq># mset (map bare cs)" and "\<forall>c\<in>set cs. \<not> Cand_Accepted c"
  shows "filter Cand_Accepted out = []"
proof -
  have "\<not> Cand_Accepted c" if "c \<in> set out" for c
  proof -
    from that have "bare c \<in> set (map bare cs)" using assms(1)
      by (metis image_eqI list.set_map mset_subset_eqD set_mset_mset)
    then obtain c0 where "c0 \<in> set cs" "bare c = bare c0" by auto
    with assms(2) show ?thesis using bare_fields(1) by metis
  qed
  then show ?thesis by (simp add: filter_empty_conv)
qed

text \<open>
  C22. Every strategy, on every reader and every non-negative \<^verbatim>\<open>--n\<close>: it never panics; an error
  is the reader's, or the judgment lookup's for the disagreement strategy; a result has at most
  \<open>n\<close> candidates, each loaded from the reader in the strategy's window and changed in its
  explanation only, none twice, and nothing in it is accepted yet, so that \<^verbatim>\<open>apply\<close> on an
  unreviewed file keeps nothing.
\<close>
theorem Surface_contract:
  assumes "slice_sort (sort_scored env)" and "slice_sort (sort_candidates env)" and "0 \<le> n"
  shows "case Surface env s reader n of
      Panic m \<Rightarrow> False
    | Err e \<Rightarrow> loadAllCandidates reader (strategy_Window s) = Inl e
        \<or> (\<exists>jr ids e'. s = DisagreementStrategy (strategy_Window s) (Some jr) \<and> jr ids = Inl e'
             \<and> e = Errorf ''judge-bootstrap: judgments lookup: %w'' [ArgErr e'])
    | Ok out \<Rightarrow> int (length out) \<le> n
        \<and> (out = [] \<or> (\<exists>cs. loadAllCandidates reader (strategy_Window s) = Inr cs
                          \<and> mset (map bare out) \<subseteq># mset (map bare cs)))
        \<and> FilterAccepted out = Inr []"
proof -
  note strategy = Surface_strategy [OF assms(1,2), of s]
  show ?thesis
  proof (cases "Surface env s reader n")
    case (Ok out)
    have "out \<noteq> [] \<Longrightarrow> \<exists>cs. loadAllCandidates reader (strategy_Window s) = Inr cs \<and> mset (map bare out) \<subseteq># mset (map bare cs)"
      by (rule surface_strategy.from_reader [OF strategy Ok])
    moreover from this have "FilterAccepted out = Inr []"
      using loaded_not_accepted mset_bare_not_accepted
      by (cases "out = []") (fastforce simp: FilterAccepted_eq Let_def filter_empty_conv)+
    ultimately show ?thesis
      using surface_strategy.bounded [OF strategy Ok assms(3)] Ok by auto
  next
    case (Err e)
    then show ?thesis using Surface_errors [OF Err] by simp
  next
    case (Panic m)
    then show ?thesis using surface_strategy.no_panic [OF strategy assms(3)] by simp
  qed
qed

text \<open>Three scored listings, one of them out of reach of a score.\<close>

definition demo_scored :: Reader where
  "demo_scored = demo_reader\<lparr>ScoresForListings := (\<lambda>ids. Inr (
     [''a'' \<mapsto> \<lparr>Score_ID = ''sa'', Score_ListingID = ''a'', Score_Value = Fin 40, Score_Percentile = Fin 20, Score_CreatedAt = 0\<rparr>,
      ''c'' \<mapsto> \<lparr>Score_ID = ''sc'', Score_ListingID = ''c'', Score_Value = Fin 90, Score_Percentile = Fin 99, Score_CreatedAt = 0\<rparr>]))\<rparr>"


definition demo_candidate :: "string \<Rightarrow> string \<Rightarrow> f64 \<Rightarrow> Candidate" where
  "demo_candidate l i v =
     \<lparr>Cand_ListingID = l, Cand_ScoreID = i, Cand_ScoreValue = v,
      Cand_Components = [\<lparr>Component_ID = ''x'', Component_ListingID = l, Component_Kind = ''ram'',
        Component_Confidence = Fin (1/4), Component_ExtractorVer = ''1''\<rparr>],
      Cand_Reasoning = '''', Cand_Why = '''', Cand_Accepted = False, Cand_Notes = ''''\<rparr>"

lemma demo_scored_loaded:
  "loadAllCandidates demo_scored w = Inr [demo_candidate ''c'' ''sc'' (Fin 90), demo_candidate ''a'' ''sa'' (Fin 40)]"
  by (simp add: loadAllCandidates_def demo_scored_def demo_reader_def demo_listing_def demo_candidate_def)

lemma Surface_contract_witness:
  "\<exists>out. Surface (go_env (\<lambda>t. 0)) (HighStakesStrategy Hour) demo_scored 1 = Ok out
    \<and> map Cand_ScoreID out = [''sc''] \<and> FilterAccepted out = Inr []"
proof -
  have srt: "slice_sort (sort_scored (go_env (\<lambda>t. 0)))" "slice_sort (sort_candidates (go_env (\<lambda>t. 0)))"
    by (simp_all add: go_env_def insertion_sort_slice_sort)
  have out: "Surface (go_env (\<lambda>t. 0)) (HighStakesStrategy Hour) demo_scored 1
      = Ok [(demo_candidate ''c'' ''sc'' (Fin 90))\<lparr>Cand_Why := ''top-decile score''\<rparr>]"
    by (simp add: HighStakes_head demo_scored_loaded go_env_def insertion_sort_def demo_candidate_def)
  show ?thesis
    using Surface_contract [OF srt, where n = 1 and s = "HighStakesStrategy Hour" and reader = demo_scored] unfolding out
    by (simp add: demo_candidate_def)
qed

lemma f64_lt_strict_weak: "NaN \<notin> f ` A \<Longrightarrow> strict_weak (\<lambda>x y. f64_lt (f x) (f y)) A"
proof -
  have "f64_lt a c" if "f64_lt a b" "\<not> f64_lt c b" "c \<noteq> NaN" for a b c
    using that by (cases a; cases b; cases c) auto
  moreover assume "NaN \<notin> f ` A"
  ultimately show ?thesis unfolding strict_weak_def by (metis f64_lt_asym imageI)
qed

lemma f64_gt_strict_weak: "NaN \<notin> f ` A \<Longrightarrow> strict_weak (\<lambda>x y. f64_gt (f x) (f y)) A"
proof -
  have "f64_gt a c" if "f64_gt a b" "\<not> f64_gt c b" "c \<noteq> NaN" for a b c
    using that by (cases a; cases b; cases c) (auto simp: f64_gt_def)
  moreover assume "NaN \<notin> f ` A"
  ultimately show ?thesis unfolding strict_weak_def by (metis f64_gt_def f64_lt_asym imageI)
qed

lemma sorted_wrt_take_drop:
  "sorted_wrt P xs \<Longrightarrow> x \<in> set (take k xs) \<Longrightarrow> y \<in> set (drop k xs) \<Longrightarrow> P x y"
  by (metis append_take_drop_id sorted_wrt_append)

text \<open>
  C23. The high-stakes strategy surfaces the \<open>n\<close> best candidates (all of them if there are
  fewer), best first: what it leaves out scores no higher than anything it surfaces. There is no
  cut at the top decile.
\<close>
theorem HighStakes_best:
  assumes "slice_sort srt" and "0 \<le> n"
    and "loadAllCandidates reader window = Inr cs" and "\<forall>c\<in>set cs. Cand_ScoreValue c \<noteq> NaN"
  shows "\<exists>out rest. HighStakes_Surface srt window reader n = Ok out
    \<and> length out = min (nat n) (length cs)
    \<and> mset (map bare (out @ rest)) = mset (map bare cs)
    \<and> sorted_wrt (\<lambda>x y. \<not> f64_lt (Cand_ScoreValue x) (Cand_ScoreValue y)) (out @ rest)"
proof -
  define s where "s = srt (\<lambda>x y. f64_gt (Cand_ScoreValue x) (Cand_ScoreValue y)) cs"
  let ?why = "\<lambda>c. c\<lparr>Cand_Why := ''top-decile score''\<rparr>"
  let ?out = "map ?why (take (nat n) s)" and ?rest = "map ?why (drop (nat n) s)"
  have "strict_weak (\<lambda>x y. f64_gt (Cand_ScoreValue x) (Cand_ScoreValue y)) (set cs)"
    by (rule f64_gt_strict_weak) (use assms(4) in force)
  with assms(1) have s: "mset s = mset cs" "sorted_wrt (\<lambda>x y. \<not> f64_gt (Cand_ScoreValue y) (Cand_ScoreValue x)) s"
    unfolding s_def slice_sort_def by blast+
  have "?out @ ?rest = map ?why s" by (metis append_take_drop_id map_append)
  moreover have "sorted_wrt (\<lambda>x y. \<not> f64_lt (Cand_ScoreValue x) (Cand_ScoreValue y)) (map ?why s)"
    using s(2) by (simp add: sorted_wrt_map f64_gt_def)
  moreover have "mset (map bare (map ?why s)) = mset (map bare cs)" using s(1) by (simp add: comp_def)
  moreover have "HighStakes_Surface srt window reader n = Ok ?out"
    unfolding HighStakes_head [OF assms(2)] s_def using assms(3) by simp
  moreover have "length ?out = min (nat n) (length cs)" using mset_eq_length [OF s(1)] by simp
  ultimately show ?thesis by metis
qed

lemma HighStakes_best_witness:
  "\<exists>out. HighStakes_Surface insertion_sort Hour demo_scored 1 = Ok out \<and> length out = 1"
proof -
  have "\<forall>c\<in>set [demo_candidate ''c'' ''sc'' (Fin 90), demo_candidate ''a'' ''sa'' (Fin 40)]. Cand_ScoreValue c \<noteq> NaN"
    by (simp add: demo_candidate_def)
  from HighStakes_best [OF insertion_sort_slice_sort _ demo_scored_loaded this, of 1 Hour]
  show ?thesis by auto
qed


lemma nearest_not_NaN: "best \<noteq> NaN \<Longrightarrow> nearest_from best v ms \<noteq> NaN"
proof (induction best v ms rule: nearest_from.induct)
  case (2 best v m ms)
  moreover have "f64_lt (f64_abs (f64_sub v m)) best \<Longrightarrow> f64_abs (f64_sub v m) \<noteq> NaN" by auto
  ultimately show ?case by (simp add: Let_def)
qed simp

lemma distance_not_NaN: "distanceToNearest v ms \<noteq> NaN"
  by (simp add: distanceToNearest_def nearest_not_NaN)

lemma takeWhile_sorted_rest:
  assumes "sorted_wrt (\<lambda>x y. \<not> f64_lt (snd y) (snd x)) ys" and "NaN \<notin> snd ` set ys"
    and "y \<in> set (dropWhile (\<lambda>cd. \<not> f64_gt (snd cd) band) ys)"
  shows "f64_gt (snd y) band"
  using assms
proof (induction ys)
  case (Cons x ys)
  show ?case
  proof (cases "f64_gt (snd x) band")
    case True
    then have "y = x \<or> \<not> f64_lt (snd y) (snd x)" using Cons.prems by auto
    moreover have "snd y \<noteq> NaN" using Cons.prems(2,3) set_dropWhileD [OF Cons.prems(3)] by force
    ultimately show ?thesis using True by (cases "snd x"; cases "snd y"; cases band) (auto simp: f64_gt_def)
  next
    case False
    with Cons show ?thesis by simp
  qed
qed simp

definition boundary_distance :: "Candidate list \<Rightarrow> Candidate \<Rightarrow> f64" where
  "boundary_distance cs c = distanceToNearest (Cand_ScoreValue c) (percentileBoundaries cs)"

text \<open>
  What that distance is, without the code's loop and sort: the least of the distances to the three
  quartile marks of the scores, and infinite when none of these is a number below infinity.
\<close>

definition distance_to_marks :: "f64 \<Rightarrow> f64 list \<Rightarrow> f64 \<Rightarrow> bool" where
  "distance_to_marks v marks d \<longleftrightarrow>
     d \<in> insert PosInf ((\<lambda>m. f64_abs (f64_sub v m)) ` set marks) \<and> d \<noteq> NaN
   \<and> (\<forall>m\<in>set marks. \<not> f64_lt (f64_abs (f64_sub v m)) d)"

definition quartile_marks :: "f64 list \<Rightarrow> f64 list \<Rightarrow> bool" where
  "quartile_marks scores marks \<longleftrightarrow>
     (\<exists>vals. mset vals = mset scores \<and> sorted_wrt (\<lambda>x y. \<not> f64_lt y x) vals
        \<and> marks = (if scores = [] then []
            else [vals ! (length scores div 4), vals ! (length scores div 2), vals ! (3 * length scores div 4)]))"

lemma nearest_from_least:
  "best \<noteq> NaN \<Longrightarrow> nearest_from best v ms \<in> insert best ((\<lambda>m. f64_abs (f64_sub v m)) ` set ms)
   \<and> \<not> f64_lt best (nearest_from best v ms)
   \<and> (\<forall>m\<in>set ms. \<not> f64_lt (f64_abs (f64_sub v m)) (nearest_from best v ms))"
proof (induction ms arbitrary: best)
  case (Cons m ms)
  let ?d = "f64_abs (f64_sub v m)"
  show ?case
  proof (cases "f64_lt ?d best")
    case True
    then have "?d \<noteq> NaN" by auto
    then show ?thesis using True Cons.IH [of ?d] by (auto simp: Let_def dest: f64_lt_trans)
  next
    case False
    have "f64_lt ?d (nearest_from best v ms) \<Longrightarrow> f64_lt ?d best \<or> f64_lt best (nearest_from best v ms)"
      using nearest_not_NaN [of best v ms] False Cons.prems
      by (cases ?d; cases best; cases "nearest_from best v ms") auto
    then show ?thesis using Cons.IH [of best] Cons.prems False by (auto simp: Let_def)
  qed
qed simp

lemma distanceToNearest_marks: "distance_to_marks v marks (distanceToNearest v marks)"
  using nearest_from_least [of PosInf v marks] distance_not_NaN [of v marks]
  by (simp add: distance_to_marks_def distanceToNearest_def)

lemma percentileBoundaries_marks: "quartile_marks (map Cand_ScoreValue cs) (percentileBoundaries cs)"
proof -
  let ?lt = "\<lambda>x y. f64_lt x y \<or> (x = NaN \<and> y \<noteq> NaN)"
  let ?vals = "sort_Float64s (map Cand_ScoreValue cs)"
  have "?lt a c" if "?lt a b" "\<not> ?lt c b" for a b c :: f64 using that by (cases a; cases b; cases c) auto
  moreover have "\<not> ?lt b a" if "?lt a b" for a b :: f64 using that by (cases a; cases b) auto
  ultimately have "strict_weak ?lt (set (map Cand_ScoreValue cs))" unfolding strict_weak_def by meson
  with insertion_sort_slice_sort have s: "mset ?vals = mset (map Cand_ScoreValue cs)" "sorted_wrt (\<lambda>x y. \<not> ?lt y x) ?vals"
    unfolding slice_sort_def sort_Float64s_def by blast+
  have "sorted_wrt (\<lambda>x y. \<not> f64_lt y x) ?vals" by (rule sorted_wrt_mono_rel [OF _ s(2)]) simp
  moreover have "length ?vals = length cs" using mset_eq_length [OF s(1)] by simp
  ultimately show ?thesis unfolding quartile_marks_def
    by (intro exI [of _ ?vals]) (simp add: s(1) percentileBoundaries_def Let_def)
qed

text \<open>What the loop of the strategy keeps of its sorted list: the first \<open>m\<close> elements.\<close>

lemma sorted_prefix_within:
  fixes ys :: "('a \<times> f64) list"
  assumes srt: "sorted_wrt (\<lambda>x y. \<not> f64_lt (snd y) (snd x)) ys" and nan: "NaN \<notin> snd ` set ys" and n: "0 \<le> n"
  obtains m where "take (nat n) (takeWhile (\<lambda>cd. \<not> f64_gt (snd cd) band) ys) = take m ys"
    and "int m \<le> n" and "m \<le> length ys"
    and "\<And>y. y \<in> set (take m ys) \<Longrightarrow> \<not> f64_gt (snd y) band"
    and "\<And>y r. y \<in> set (take m ys) \<Longrightarrow> r \<in> set (drop m ys) \<Longrightarrow> \<not> f64_lt (snd r) (snd y)"
    and "\<And>r. int m < n \<Longrightarrow> r \<in> set (drop m ys) \<Longrightarrow> f64_gt (snd r) band"
proof -
  define near where "near = takeWhile (\<lambda>cd. \<not> f64_gt (snd cd) band) ys"
  define m where "m = min (nat n) (length near)"
  have len: "length near \<le> length ys" unfolding near_def by (rule length_takeWhile_le)
  have "near = take (length near) ys" unfolding near_def by (metis takeWhile_eq_take length_takeWhile_le)
  then have taken: "take (nat n) near = take m ys" unfolding m_def by (metis take_take min.commute)
  show thesis
  proof (rule that [of m])
    show "take (nat n) (takeWhile (\<lambda>cd. \<not> f64_gt (snd cd) band) ys) = take m ys" using taken unfolding near_def .
    show "int m \<le> n" "m \<le> length ys" using n len by (simp_all add: m_def)
    show "\<not> f64_gt (snd y) band" if "y \<in> set (take m ys)" for y
      using that unfolding taken [symmetric] near_def by (metis in_set_takeD set_takeWhileD)
    show "\<not> f64_lt (snd r) (snd y)" if "y \<in> set (take m ys)" "r \<in> set (drop m ys)" for y r
      by (rule sorted_wrt_take_drop [OF srt that])
    show "f64_gt (snd r) band" if "int m < n" "r \<in> set (drop m ys)" for r
    proof -
      have "m = length near" using that(1) by (auto simp: m_def min_def split: if_splits)
      then have dw: "dropWhile (\<lambda>cd. \<not> f64_gt (snd cd) band) ys = drop m ys"
        unfolding near_def by (simp add: dropWhile_eq_drop)
      show ?thesis by (rule takeWhile_sorted_rest [OF srt, of r band, unfolded dw]) (use nan that in auto)
    qed
  qed
qed

lemma Ambiguous_run:
  assumes "slice_sort srt" and "0 \<le> n" and "loadAllCandidates reader window = Inr cs"
  obtains ys where "mset ys = mset (map (\<lambda>c. (c, boundary_distance cs c)) cs)"
    and "sorted_wrt (\<lambda>x y. \<not> f64_lt (snd y) (snd x)) ys" and "NaN \<notin> snd ` set ys"
    and "Ambiguous_Surface srt window bandPct reader n
      = Ok (map explain_near (take (nat n) (takeWhile (\<lambda>cd. \<not> f64_gt (snd cd) (f64_mul bandPct (Fin 100))) ys)))"
proof -
  let ?xs = "map (\<lambda>c. (c, boundary_distance cs c)) cs"
  define ys where "ys = srt (\<lambda>x y. f64_lt (snd x) (snd y)) ?xs"
  have nan: "NaN \<notin> snd ` set ?xs" using distance_not_NaN by (auto simp: boundary_distance_def) metis
  have "strict_weak (\<lambda>x y. f64_lt (snd x) (snd y)) (set ?xs)" by (rule f64_lt_strict_weak) (rule nan)
  with assms(1) have ys: "mset ys = mset ?xs" "sorted_wrt (\<lambda>x y. \<not> f64_lt (snd y) (snd x)) ys"
    unfolding ys_def slice_sort_def by blast+
  have "Ambiguous_Surface srt window bandPct reader n
      = Ok (map explain_near (take (nat n) (takeWhile (\<lambda>cd. \<not> f64_gt (snd cd) (f64_mul bandPct (Fin 100))) ys)))"
  proof (cases "cs = []")
    case True
    with ys(1) assms(3) show ?thesis by (simp add: Ambiguous_Surface_def)
  next
    case False
    then have "Ambiguous_Surface srt window bandPct reader n = Ok (take_near n (f64_mul bandPct (Fin 100)) [] ys)"
      using assms(2,3) by (simp add: Ambiguous_Surface_def make_cap_Panic ys_def boundary_distance_def)
    then show ?thesis by (simp add: take_near_spec take_map)
  qed
  moreover have "NaN \<notin> snd ` set ys" using nan unfolding mset_eq_setD [OF ys(1)] .
  ultimately show thesis using that ys by blast
qed

lemma bare_split:
  assumes "mset ys = mset (map (\<lambda>c. (c, d c)) cs)"
  shows "mset (map bare (map explain_near (take m ys) @ map fst (drop m ys))) = mset (map bare cs)"
proof -
  have "map bare (map explain_near (take m ys) @ map fst (drop m ys)) = map (bare \<circ> fst) ys"
    by (simp add: comp_def) (metis append_take_drop_id map_append)
  then have "mset (map bare (map explain_near (take m ys) @ map fst (drop m ys))) = image_mset (bare \<circ> fst) (mset ys)"
    by (simp only: mset_map)
  then show ?thesis unfolding assms by (simp add: comp_def multiset.map_comp)
qed

text \<open>
  C24. The ambiguous strategy surfaces the candidates nearest to a percentile boundary: every one
  surfaced is within the band, none left out is nearer than one surfaced, and when fewer than
  \<open>n\<close> are surfaced, everything left out is outside the band. The boundaries are the elements of the
  sorted scores at a quarter, half and three quarters of their number, and the distance is the least
  one to these.
\<close>
theorem Ambiguous_nearest:
  assumes "slice_sort srt" and "0 \<le> n" and "loadAllCandidates reader window = Inr cs"
  shows "\<exists>out rest. Ambiguous_Surface srt window bandPct reader n = Ok out
    \<and> int (length out) \<le> n
    \<and> mset (map bare (out @ rest)) = mset (map bare cs)
    \<and> (\<forall>c\<in>set out. \<not> f64_gt (boundary_distance cs c) (f64_mul bandPct (Fin 100)))
    \<and> (\<forall>c\<in>set out. \<forall>r\<in>set rest. \<not> f64_lt (boundary_distance cs r) (boundary_distance cs c))
    \<and> (int (length out) < n \<longrightarrow> (\<forall>r\<in>set rest. f64_gt (boundary_distance cs r) (f64_mul bandPct (Fin 100))))
    \<and> (\<exists>marks. quartile_marks (map Cand_ScoreValue cs) marks
         \<and> (\<forall>c. distance_to_marks (Cand_ScoreValue c) marks (boundary_distance cs c)))"
proof -
  let ?band = "f64_mul bandPct (Fin 100)"
  from Ambiguous_run [OF assms] obtain ys where ys: "mset ys = mset (map (\<lambda>c. (c, boundary_distance cs c)) cs)"
    "sorted_wrt (\<lambda>x y. \<not> f64_lt (snd y) (snd x)) ys" "NaN \<notin> snd ` set ys"
    "Ambiguous_Surface srt window bandPct reader n
      = Ok (map explain_near (take (nat n) (takeWhile (\<lambda>cd. \<not> f64_gt (snd cd) ?band) ys)))" by blast
  from sorted_prefix_within [OF ys(2,3) assms(2), of ?band] obtain m where
      m: "take (nat n) (takeWhile (\<lambda>cd. \<not> f64_gt (snd cd) ?band) ys) = take m ys" "int m \<le> n" "m \<le> length ys"
    and near: "\<And>y. y \<in> set (take m ys) \<Longrightarrow> \<not> f64_gt (snd y) ?band"
    and order: "\<And>y r. y \<in> set (take m ys) \<Longrightarrow> r \<in> set (drop m ys) \<Longrightarrow> \<not> f64_lt (snd r) (snd y)"
    and far: "\<And>r. int m < n \<Longrightarrow> r \<in> set (drop m ys) \<Longrightarrow> f64_gt (snd r) ?band" by blast
  have bd: "boundary_distance cs (explain_near y) = snd y" "boundary_distance cs (fst y) = snd y" if "y \<in> set ys" for y
    using that mset_eq_setD [OF ys(1)] by (auto simp: boundary_distance_def explain_near_def)
  note bd_take = bd(1) [OF in_set_takeD] and bd_drop = bd(2) [OF in_set_dropD]
  have "Ambiguous_Surface srt window bandPct reader n = Ok (map explain_near (take m ys))" unfolding ys(4) m(1) ..
  moreover have "int (length (map explain_near (take m ys))) \<le> n" using m(2) by simp
  moreover note bare_split [OF ys(1), of m]
  moreover have "\<forall>c\<in>set (map explain_near (take m ys)). \<not> f64_gt (boundary_distance cs c) ?band"
    using near bd_take by simp
  moreover have "\<forall>c\<in>set (map explain_near (take m ys)). \<forall>r\<in>set (map fst (drop m ys)).
      \<not> f64_lt (boundary_distance cs r) (boundary_distance cs c)"
    using order bd_take bd_drop by simp
  moreover have "int (length (map explain_near (take m ys))) < n \<longrightarrow>
      (\<forall>r\<in>set (map fst (drop m ys)). f64_gt (boundary_distance cs r) ?band)"
    using far m(3) bd_drop by (simp add: min_def)
  moreover have "\<exists>marks. quartile_marks (map Cand_ScoreValue cs) marks
      \<and> (\<forall>c. distance_to_marks (Cand_ScoreValue c) marks (boundary_distance cs c))"
    unfolding boundary_distance_def using percentileBoundaries_marks distanceToNearest_marks by blast
  ultimately show ?thesis by blast
qed

lemma Ambiguous_nearest_witness:
  "\<exists>out rest. Ambiguous_Surface insertion_sort Hour (Fin (1/20)) demo_scored 1 = Ok out \<and> int (length out) \<le> 1
    \<and> mset (map bare (out @ rest)) = mset (map bare [demo_candidate ''c'' ''sc'' (Fin 90), demo_candidate ''a'' ''sa'' (Fin 40)])"
  using Ambiguous_nearest [OF insertion_sort_slice_sort _ demo_scored_loaded, of 1 Hour "Fin (1/20)"] by auto

end
