(* ===== verification/Domain_Json.thy ===== *)
theory Domain_Json
  imports Go_Json Domain_Types
begin

text \<open>
  The JSON of the shared data types, as encoding/json writes and reads them: a struct is an object
  with a member per field, in the order of the fields; a map has its keys in order; a time is its
  RFC 3339 text. A slice is a list here: whether an empty one is nil, which Go writes as null, is
  not kept, and it is written as an empty array.
\<close>

subsection \<open>Writing\<close>

definition encode_Listing :: "Listing \<Rightarrow> json" where
  "encode_Listing l = JObj [(''ID'', JStr (Listing_ID l)), (''WatchID'', JStr (Listing_WatchID l)),
     (''EbayItemID'', JStr (Listing_EbayItemID l)), (''Title'', JStr (Listing_Title l))]"

definition encode_Component :: "Component \<Rightarrow> json" where
  "encode_Component c = JObj [(''ID'', JStr (Component_ID c)), (''ListingID'', JStr (Component_ListingID c)),
     (''Kind'', JStr (Component_Kind c)), (''Confidence'', JFloat (Component_Confidence c)),
     (''ExtractorVer'', JStr (Component_ExtractorVer c))]"

text \<open>\<open>offset\<close> is that of the location the time carries, in seconds; \<open>zone\<close> gives it for every time of the store.\<close>

definition encode_time :: "int \<Rightarrow> instant \<Rightarrow> json" where
  "encode_time offset t = JStr (format_RFC3339Nano offset t)"

definition encode_Score :: "(instant \<Rightarrow> int) \<Rightarrow> Score \<Rightarrow> json" where
  "encode_Score zone s = JObj [(''ID'', JStr (Score_ID s)), (''ListingID'', JStr (Score_ListingID s)),
     (''Value'', JFloat (Score_Value s)), (''Percentile'', JFloat (Score_Percentile s)),
     (''CreatedAt'', encode_time (zone (Score_CreatedAt s)) (Score_CreatedAt s))]"

definition encode_map :: "('v \<Rightarrow> json) \<Rightarrow> (string \<rightharpoonup> 'v) \<Rightarrow> json" where
  "encode_map enc m = JObj (map (\<lambda>k. (k, enc (the (m k)))) (sorted_list_of_set (dom m)))"

subsection \<open>Reading\<close>

text \<open>
  Decoding into a struct: each member in turn, into what the earlier ones left; null changes
  nothing. The elements of an array are decoded into fresh zero values (Go does so unless the
  same member occurs twice in an object).
\<close>

fun decode_into :: "(json \<Rightarrow> 'a \<Rightarrow> 'a option) \<Rightarrow> 'a \<Rightarrow> json list \<Rightarrow> 'a option" where
  "decode_into dec x [] = Some x"
| "decode_into dec x (v # vs) =
     (if v = JNull then decode_into dec x vs
      else case dec v x of None \<Rightarrow> None | Some y \<Rightarrow> decode_into dec y vs)"

fun dec_array :: "(json \<Rightarrow> 'a option) \<Rightarrow> json \<Rightarrow> 'a list option" where
  "dec_array dec (JArr js) = those (map dec js)"
| "dec_array dec _ = None"

text \<open>A slice field: null makes it nil.\<close>

fun decode_slice :: "(json \<Rightarrow> 'a option) \<Rightarrow> 'a list \<Rightarrow> json list \<Rightarrow> 'a list option" where
  "decode_slice dec xs [] = Some xs"
| "decode_slice dec xs (v # vs) =
     (if v = JNull then decode_slice dec [] vs
      else case dec_array dec v of None \<Rightarrow> None | Some ys \<Rightarrow> decode_slice dec ys vs)"

definition zero_Listing :: Listing where
  "zero_Listing = \<lparr>Listing_ID = '''', Listing_WatchID = '''', Listing_EbayItemID = '''', Listing_Title = ''''\<rparr>"

definition dec_Listing :: "json \<Rightarrow> Listing \<Rightarrow> Listing option" where
  "dec_Listing j l =
     (case json_object j of
        None \<Rightarrow> None
      | Some kvs \<Rightarrow>
          (case (decode_field dec_string (Listing_ID l) (json_members ''ID'' kvs),
                 decode_field dec_string (Listing_WatchID l) (json_members ''WatchID'' kvs),
                 decode_field dec_string (Listing_EbayItemID l) (json_members ''EbayItemID'' kvs),
                 decode_field dec_string (Listing_Title l) (json_members ''Title'' kvs)) of
             (Some i, Some w, Some e, Some t) \<Rightarrow>
               Some \<lparr>Listing_ID = i, Listing_WatchID = w, Listing_EbayItemID = e, Listing_Title = t\<rparr>
           | _ \<Rightarrow> None))"

definition zero_Component :: Component where
  "zero_Component = \<lparr>Component_ID = '''', Component_ListingID = '''', Component_Kind = '''',
     Component_Confidence = Fin 0, Component_ExtractorVer = ''''\<rparr>"

definition dec_Component :: "json \<Rightarrow> Component option" where
  "dec_Component j =
     (case json_object j of
        None \<Rightarrow> None
      | Some kvs \<Rightarrow>
          (case (decode_field dec_string '''' (json_members ''ID'' kvs),
                 decode_field dec_string '''' (json_members ''ListingID'' kvs),
                 decode_field dec_string '''' (json_members ''Kind'' kvs),
                 decode_field dec_float (Fin 0) (json_members ''Confidence'' kvs),
                 decode_field dec_string '''' (json_members ''ExtractorVer'' kvs)) of
             (Some i, Some l, Some k, Some c, Some v) \<Rightarrow>
               Some \<lparr>Component_ID = i, Component_ListingID = l, Component_Kind = k,
                     Component_Confidence = c, Component_ExtractorVer = v\<rparr>
           | _ \<Rightarrow> None))"

subsection \<open>Documents with binary64 floats\<close>

fun json_binary64 :: "json \<Rightarrow> bool" where
  "json_binary64 (JFloat x) = is_binary64 x"
| "json_binary64 (JArr xs) = list_all json_binary64 xs"
| "json_binary64 (JObj kvs) = list_all (\<lambda>(k, v). json_binary64 v) kvs"
| "json_binary64 (JRaw s) = False"
| "json_binary64 _ = True"

lemma json_plain_iff: "json_plain j \<longleftrightarrow> json_binary64 j \<and> json_error j = None"
proof (induction j rule: json_plain.induct)
  case (1 x)
  show ?case by (cases x) (simp_all add: is_binary64_def)
next
  case (2 xs)
  then show ?case by (auto simp: list_all_iff first_some_None)
next
  case (3 kvs)
  have "json_plain v \<longleftrightarrow> json_binary64 v \<and> json_error v = None" if "(k, v) \<in> set kvs" for k v
    using 3 that by blast
  then show ?case by (fastforce simp: list_all_iff first_some_None)
qed simp_all

lemma json_depth_array: "\<forall>x\<in>set xs. json_depth x \<le> k \<Longrightarrow> json_depth (JArr xs) \<le> Suc k"
  by (induction xs) auto

lemma json_depth_object: "\<forall>(n, v)\<in>set kvs. json_depth v \<le> k \<Longrightarrow> json_depth (JObj kvs) \<le> Suc k"
  by (induction kvs) auto

lemma json_depth_map: "(\<And>v. json_depth (enc v) \<le> k) \<Longrightarrow> json_depth (encode_map enc m) \<le> Suc k"
  unfolding encode_map_def by (rule json_depth_object) auto

lemma json_binary64_map: "(\<And>k v. m k = Some v \<Longrightarrow> json_binary64 (enc v)) \<Longrightarrow> json_binary64 (encode_map enc m)"
  by (cases "finite (dom m)") (auto simp: encode_map_def list_all_iff)

subsection \<open>Round trips\<close>

text \<open>Keys that are ASCII stay as they are; a member with the field's own name, and no other of that name, is the field.\<close>

lemma to_valid_literal [simp]: "is_ascii k \<Longrightarrow> to_valid k = k"
  by (rule to_valid_ascii)

lemma those_map_Some: "(\<And>x. x \<in> set xs \<Longrightarrow> f x = Some (g x)) \<Longrightarrow> those (map f xs) = Some (map g xs)"
  by (induction xs) auto

definition valid_Component :: "Component \<Rightarrow> Component" where
  "valid_Component c = c\<lparr>Component_ID := to_valid (Component_ID c), Component_ListingID := to_valid (Component_ListingID c),
     Component_Kind := to_valid (Component_Kind c), Component_ExtractorVer := to_valid (Component_ExtractorVer c)\<rparr>"

lemma component_members:
  "json_members ''ID'' [(''ID'', a), (''ListingID'', b), (''Kind'', c), (''Confidence'', d), (''ExtractorVer'', e)] = [a]"
  "json_members ''ListingID'' [(''ID'', a), (''ListingID'', b), (''Kind'', c), (''Confidence'', d), (''ExtractorVer'', e)] = [b]"
  "json_members ''Kind'' [(''ID'', a), (''ListingID'', b), (''Kind'', c), (''Confidence'', d), (''ExtractorVer'', e)] = [c]"
  "json_members ''Confidence'' [(''ID'', a), (''ListingID'', b), (''Kind'', c), (''Confidence'', d), (''ExtractorVer'', e)] = [d]"
  "json_members ''ExtractorVer'' [(''ID'', a), (''ListingID'', b), (''Kind'', c), (''Confidence'', d), (''ExtractorVer'', e)] = [e]"
  by (simp_all add: json_members_def ascii_lower_def)


lemma dec_Component_encoded:
  assumes "Component_Confidence c = Fin q" and "f64_round q = Fin q"
  shows "dec_Component (json_norm (encode_Component c)) = Some (valid_Component c)"
proof -
  have d: "dec_float (number_value (float_text q)) = Some (Fin q)" by (rule dec_float_number [OF assms(2)])
  then have n: "number_value (float_text q) \<noteq> JNull" by auto
  have k: "is_ascii ''ID''" "is_ascii ''ListingID''" "is_ascii ''Kind''" "is_ascii ''Confidence''" "is_ascii ''ExtractorVer''"
    by (simp_all add: is_ascii_def)
  have "json_norm (encode_Component c) = JObj [(''ID'', JStr (to_valid (Component_ID c))),
      (''ListingID'', JStr (to_valid (Component_ListingID c))), (''Kind'', JStr (to_valid (Component_Kind c))),
      (''Confidence'', number_value (float_text q)), (''ExtractorVer'', JStr (to_valid (Component_ExtractorVer c)))]"
    using k assms(1) by (simp add: encode_Component_def del: to_valid.simps)
  then show ?thesis
    using d n assms(1) by (simp add: dec_Component_def component_members valid_Component_def)
qed


text \<open>What is decoded from a document of the parser is valid, and comes back unchanged when it is written.\<close>

definition float_ok :: "f64 \<Rightarrow> bool" where
  "float_ok x = (\<exists>q. x = Fin q \<and> f64_round q = Fin q)"

lemma decode_field_inv:
  assumes "decode_field dec x vs = Some y" and "P x" and "\<And>v y. v \<in> set vs \<Longrightarrow> dec v = Some y \<Longrightarrow> P y"
  shows "P y"
  using assms
proof (induction vs arbitrary: x)
  case (Cons v vs)
  show ?case
  proof (cases "v = JNull")
    case True
    with Cons.prems show ?thesis by (intro Cons.IH [of x]) auto
  next
    case False
    with Cons.prems(1) obtain z where z: "dec v = Some z" "decode_field dec z vs = Some y" by (auto split: option.splits)
    have "P z" using Cons.prems(3) [of v z] z(1) by simp
    with z(2) Cons.prems(3) show ?thesis by (intro Cons.IH [of z]) auto
  qed
qed simp

lemma those_Some_set: "those xs = Some ys \<Longrightarrow> y \<in> set ys \<Longrightarrow> Some y \<in> set xs"
  by (induction xs arbitrary: ys) (auto split: option.splits)

lemma dec_array_inv:
  assumes "dec_array dec v = Some xs" and "json_wf v" and "\<And>j x. json_wf j \<Longrightarrow> dec j = Some x \<Longrightarrow> P x"
  shows "\<forall>x\<in>set xs. P x"
proof
  fix x assume "x \<in> set xs"
  from assms(1) obtain js where js: "v = JArr js" "those (map dec js) = Some xs" by (cases v) auto
  with \<open>x \<in> set xs\<close> have "Some x \<in> set (map dec js)" by (blast intro: those_Some_set)
  then obtain j where "j \<in> set js" "dec j = Some x" by auto
  with assms(2,3) js(1) show "P x" by (auto simp: list_all_iff)
qed

lemma decode_slice_inv:
  assumes "decode_slice dec xs vs = Some ys" and "\<forall>v\<in>set vs. json_wf v" and "\<forall>x\<in>set xs. P x"
    and "\<And>j x. json_wf j \<Longrightarrow> dec j = Some x \<Longrightarrow> P x"
  shows "\<forall>y\<in>set ys. P y"
  using assms(1-3)
proof (induction vs arbitrary: xs)
  case (Cons v vs)
  show ?case
  proof (cases "v = JNull")
    case True
    with Cons.prems show ?thesis by (intro Cons.IH [of "[]"]) auto
  next
    case False
    with Cons.prems(1) obtain zs where z: "dec_array dec v = Some zs" "decode_slice dec zs vs = Some ys" by (auto split: option.splits)
    have "\<forall>z\<in>set zs. P z" by (rule dec_array_inv [OF z(1)]) (use Cons.prems(2) assms(4) in auto)
    with z(2) Cons.prems(2) show ?thesis by (intro Cons.IH [of zs]) simp_all
  qed
qed simp

lemma json_members_wf: "json_wf (JObj kvs) \<Longrightarrow> v \<in> set (json_members n kvs) \<Longrightarrow> json_wf v"
  by (auto simp: json_members_def list_all_iff)

lemma json_object_wf: "json_wf j \<Longrightarrow> json_object j = Some kvs \<Longrightarrow> json_wf (JObj kvs)"
  by (cases j) auto

lemma dec_float_ok: "json_wf v \<Longrightarrow> dec_float v = Some x \<Longrightarrow> float_ok x"
  by (cases v) (auto simp: float_ok_def is_binary64_def f64_of_int_def dest: sym f64_round_idem [OF sym] split: f64.splits)

lemma decode_string_wf:
  assumes "json_wf (JObj kvs)" and "decode_field dec_string x (json_members n kvs) = Some s" and "valid_utf8 x"
  shows "valid_utf8 s"
proof (rule decode_field_inv [where P = valid_utf8, OF assms(2,3)])
  fix v y
  assume "v \<in> set (json_members n kvs)" and "dec_string v = Some y"
  with json_members_wf [OF assms(1), of v n] show "valid_utf8 y" by (cases v) auto
qed

lemma decode_float_wf:
  assumes "json_wf (JObj kvs)" and "decode_field dec_float x (json_members n kvs) = Some y" and "float_ok x"
  shows "float_ok y"
  by (rule decode_field_inv [where P = float_ok, OF assms(2,3)]) (blast intro: dec_float_ok json_members_wf [OF assms(1)])

lemma valid_utf8_Nil [simp]: "valid_utf8 []"
  by (simp add: valid_utf8_def)

lemma float_ok_0 [simp]: "float_ok (Fin 0)"
  by (simp add: float_ok_def f64_round_def)

definition component_ok :: "Component \<Rightarrow> bool" where
  "component_ok c = (valid_utf8 (Component_ID c) \<and> valid_utf8 (Component_ListingID c) \<and> valid_utf8 (Component_Kind c)
     \<and> valid_utf8 (Component_ExtractorVer c) \<and> float_ok (Component_Confidence c))"

lemma dec_Component_ok:
  assumes "json_wf j" and "dec_Component j = Some c"
  shows "component_ok c"
proof -
  obtain kvs where kvs: "json_object j = Some kvs" using assms(2) by (auto simp: dec_Component_def split: option.splits)
  note wf = json_object_wf [OF assms(1) kvs]
  from assms(2) kvs show ?thesis
    by (auto simp: dec_Component_def component_ok_def decode_string_wf [OF wf] decode_float_wf [OF wf]
        simp del: json_wf.simps split: option.splits)
qed

lemma dec_Component_again: "component_ok c \<Longrightarrow> dec_Component (json_norm (encode_Component c)) = Some c"
  using dec_Component_encoded by (auto simp: component_ok_def float_ok_def valid_Component_def valid_utf8_def)

end
