(* ===== verification/Judge_Commands.thy ===== *)
theory Judge_Commands
  imports Judge_Strategies Domain_Json "HOL-Library.Monad_Syntax"
begin

text \<open>
  The commands of \<^verbatim>\<open>tools/judge-bootstrap\<close> (\<^verbatim>\<open>main.go\<close>), with the file format of the candidates
  (\<^verbatim>\<open>candidate.go\<close>): an operator marks candidates in a file, \<^verbatim>\<open>apply\<close> writes the accepted ones.
\<close>

subsection \<open>The file of candidates\<close>

text \<open>The fields with \<^verbatim>\<open>omitempty\<close> are left out when they are empty.\<close>

definition encode_Candidate :: "Candidate \<Rightarrow> json" where
  "encode_Candidate c = JObj
     ([(''listing_id'', JStr (Cand_ListingID c)), (''score_id'', JStr (Cand_ScoreID c)),
       (''score_value'', JFloat (Cand_ScoreValue c)), (''components'', JArr (map encode_Component (Cand_Components c)))]
      @ (if Cand_Reasoning c = '''' then [] else [(''reasoning'', JStr (Cand_Reasoning c))])
      @ [(''why'', JStr (Cand_Why c)), (''accepted'', JBool (Cand_Accepted c))]
      @ (if Cand_Notes c = '''' then [] else [(''notes'', JStr (Cand_Notes c))]))"

definition dec_Candidate :: "json \<Rightarrow> Candidate option" where
  "dec_Candidate j = do {
     kvs \<leftarrow> json_object j;
     l \<leftarrow> decode_field dec_string '''' (json_members ''listing_id'' kvs);
     s \<leftarrow> decode_field dec_string '''' (json_members ''score_id'' kvs);
     v \<leftarrow> decode_field dec_float (Fin 0) (json_members ''score_value'' kvs);
     cs \<leftarrow> decode_slice dec_Component [] (json_members ''components'' kvs);
     r \<leftarrow> decode_field dec_string '''' (json_members ''reasoning'' kvs);
     w \<leftarrow> decode_field dec_string '''' (json_members ''why'' kvs);
     a \<leftarrow> decode_field dec_bool False (json_members ''accepted'' kvs);
     n \<leftarrow> decode_field dec_string '''' (json_members ''notes'' kvs);
     Some \<lparr>Cand_ListingID = l, Cand_ScoreID = s, Cand_ScoreValue = v, Cand_Components = cs,
           Cand_Reasoning = r, Cand_Why = w, Cand_Accepted = a, Cand_Notes = n\<rparr>
   }"
text \<open>\<^verbatim>\<open>json.Unmarshal(raw, &candidates)\<close> into a nil slice.\<close>

definition parse_candidates :: "string \<Rightarrow> err + Candidate list" where
  "parse_candidates raw =
     (case json_Unmarshal raw of
        Inl e \<Rightarrow> Inl e
      | Inr j \<Rightarrow>
          (case decode_slice dec_Candidate [] [j] of
             None \<Rightarrow> Inl (External ''json: cannot unmarshal'')
           | Some cs \<Rightarrow> Inr cs))"

subsection \<open>The commands\<close>

record apply_host =
  apply_ReadFile :: "string \<Rightarrow> err + string"
  apply_WriteFile :: "string \<Rightarrow> string \<Rightarrow> err option"

text \<open>
  \<open>apply\<close>: read, parse, filter, marshal, write. The result is the error, if any, and the file
  written, if the command got that far.
\<close>

definition apply_RunE :: "apply_host \<Rightarrow> string \<Rightarrow> string \<Rightarrow> err option \<times> (string \<times> string) option" where
  "apply_RunE h inp outp =
     (case apply_ReadFile h inp of
        Inl e \<Rightarrow> (Some (Errorf ''judge-bootstrap: read input: %w'' [ArgErr e]), None)
      | Inr raw \<Rightarrow>
          (case parse_candidates raw of
             Inl e \<Rightarrow> (Some (Errorf ''judge-bootstrap: parse input: %w'' [ArgErr e]), None)
           | Inr candidates \<Rightarrow>
               (case FilterAccepted candidates of
                  Inl e \<Rightarrow> (Some e, None)
                | Inr accepted \<Rightarrow>
                    (case json_MarshalIndent (JArr (map encode_Candidate accepted)) of
                       Inl e \<Rightarrow> (Some (Errorf ''judge-bootstrap: marshal output: %w'' [ArgErr e]), None)
                     | Inr out \<Rightarrow>
                         (case apply_WriteFile h outp out of
                            Some e \<Rightarrow> (Some (Errorf ''judge-bootstrap: write output: %w'' [ArgErr e]), None)
                          | None \<Rightarrow> (None, Some (outp, out)))))))"

record applyFlags =
  AFlag_input :: string
  AFlag_output :: string

definition apply_flag_defaults :: applyFlags where
  "apply_flag_defaults = \<lparr>AFlag_input = '''', AFlag_output = ''internal/agent/judge/examples.json''\<rparr>"

record listFlags =
  LFlag_since :: duration
  LFlag_candidates :: int
  LFlag_strategy :: string
  LFlag_out :: string

definition list_flag_defaults :: listFlags where
  "list_flag_defaults =
     \<lparr>LFlag_since = 30 * 24 * Hour, LFlag_candidates = 50, LFlag_strategy = ''ambiguous'', LFlag_out = ''candidates.json''\<rparr>"

definition list_RunE :: "string \<Rightarrow> err" where
  "list_RunE name =
     (case StrategyByName name of
        Inl e \<Rightarrow> e
      | Inr _ \<Rightarrow> Errorf (''judge-bootstrap: list requires a configured Datastore '' @
          ''(Postgres impl lands in the datastore IMPL); '' @
          ''until then, exercise the strategy via the unit tests against a fake Reader'') [])"

subsection \<open>What is applied reads back\<close>

definition candidate_ok :: "Candidate \<Rightarrow> bool" where
  "candidate_ok c = (valid_utf8 (Cand_ListingID c) \<and> valid_utf8 (Cand_ScoreID c) \<and> float_ok (Cand_ScoreValue c)
     \<and> (\<forall>x\<in>set (Cand_Components c). component_ok x) \<and> valid_utf8 (Cand_Reasoning c) \<and> valid_utf8 (Cand_Why c)
     \<and> valid_utf8 (Cand_Notes c))"

lemma dec_Candidate_ok:
  assumes "json_wf j" and "dec_Candidate j = Some c"
  shows "candidate_ok c"
proof -
  obtain kvs l s v comps r w a n where kvs: "json_object j = Some kvs" and d:
    "decode_field dec_string '''' (json_members ''listing_id'' kvs) = Some l"
    "decode_field dec_string '''' (json_members ''score_id'' kvs) = Some s"
    "decode_field dec_float (Fin 0) (json_members ''score_value'' kvs) = Some v"
    "decode_slice dec_Component [] (json_members ''components'' kvs) = Some comps"
    "decode_field dec_string '''' (json_members ''reasoning'' kvs) = Some r"
    "decode_field dec_string '''' (json_members ''why'' kvs) = Some w"
    "decode_field dec_string '''' (json_members ''notes'' kvs) = Some n"
    "decode_field dec_bool False (json_members ''accepted'' kvs) = Some a"
    and c: "c = \<lparr>Cand_ListingID = l, Cand_ScoreID = s, Cand_ScoreValue = v, Cand_Components = comps,
           Cand_Reasoning = r, Cand_Why = w, Cand_Accepted = a, Cand_Notes = n\<rparr>"
    using assms(2) unfolding dec_Candidate_def bind_eq_Some_conv
    by (elim exE conjE) (rule that, assumption+, drule option.inject [THEN iffD1], erule sym)
  note wf = json_object_wf [OF assms(1) kvs]
  have members: "\<forall>v\<in>set (json_members k kvs). json_wf v" for k using json_members_wf [OF wf] by blast
  note cs = decode_slice_inv [OF _ members, where xs = "[]" and P = component_ok and dec = dec_Component, OF _ _ dec_Component_ok, simplified]  note str = decode_string_wf [OF wf _ valid_utf8_Nil]
  show ?thesis
    unfolding candidate_ok_def c Candidate.select_convs
    by (intro conjI str [OF d(1)] str [OF d(2)] decode_float_wf [OF wf d(3) float_ok_0] cs [OF d(4)]
        str [OF d(5)] str [OF d(6)] str [OF d(7)])
qed

lemma parse_candidates_ok:
  assumes "parse_candidates raw = Inr cs"
  shows "\<forall>c\<in>set cs. candidate_ok c"
proof -
  from assms obtain j where j: "json_parse raw = Some j" and cs: "decode_slice dec_Candidate [] [j] = Some cs"
    by (auto simp: parse_candidates_def json_Unmarshal_def split: option.splits simp del: decode_slice.simps)
  show ?thesis
    by (rule decode_slice_inv [OF cs]) (simp_all add: json_parse_wf [OF j] dec_Candidate_ok)qed

text \<open>Keys in lower case match by equality.\<close>

definition lower_key :: "string \<Rightarrow> bool" where
  "lower_key k = list_all (\<lambda>c. byte_val c < 128 \<and> ascii_lower c = c) k"

lemma json_members_lower:
  assumes "lower_key n" and "list_all (\<lambda>kv. lower_key (fst kv)) kvs"
  shows "json_members n kvs = map snd (filter (\<lambda>kv. fst kv = n) kvs)"
proof -
  have "map ascii_lower k = k \<and> is_ascii k" if "lower_key k" for k
    using that by (induction k) (auto simp: lower_key_def is_ascii_def)
  then have "equal_fold n k \<longleftrightarrow> k = n" if "lower_key k" for k
    using that assms(1) equal_fold_ascii [of k n] by simp
  then show ?thesis
    unfolding json_members_def using assms(2) by (intro arg_cong [where f = "map snd"] filter_cong) (auto simp: list_all_iff)
qed

lemma candidate_keys:
  "lower_key ''listing_id''" "lower_key ''score_id''" "lower_key ''score_value''" "lower_key ''components''"
  "lower_key ''reasoning''" "lower_key ''why''" "lower_key ''accepted''" "lower_key ''notes''"
  by code_simp+

lemma candidate_members:
  assumes kvs_def: "kvs = [(''listing_id'', a), (''score_id'', b), (''score_value'', c), (''components'', d)]
    @ (if r = '''' then [] else [(''reasoning'', JStr r)]) @ [(''why'', e), (''accepted'', f)]
    @ (if n = '''' then [] else [(''notes'', JStr n)])"
  shows "json_members ''listing_id'' kvs = [a]" "json_members ''score_id'' kvs = [b]" "json_members ''score_value'' kvs = [c]"
    "json_members ''components'' kvs = [d]" "json_members ''reasoning'' kvs = (if r = '''' then [] else [JStr r])"
    "json_members ''why'' kvs = [e]" "json_members ''accepted'' kvs = [f]"
    "json_members ''notes'' kvs = (if n = '''' then [] else [JStr n])"
proof -
  have "list_all (\<lambda>kv. lower_key (fst kv)) kvs" by (simp add: kvs_def candidate_keys)
  note members = json_members_lower [OF _ this]
  show "json_members ''listing_id'' kvs = [a]" "json_members ''score_id'' kvs = [b]" "json_members ''score_value'' kvs = [c]"
    "json_members ''components'' kvs = [d]" "json_members ''reasoning'' kvs = (if r = '''' then [] else [JStr r])"
    "json_members ''why'' kvs = [e]" "json_members ''accepted'' kvs = [f]"
    "json_members ''notes'' kvs = (if n = '''' then [] else [JStr n])"
    by (simp_all add: members candidate_keys, simp_all add: kvs_def)
qed

lemma dec_Candidate_again:
  assumes "candidate_ok c"
  shows "dec_Candidate (json_norm (encode_Candidate c)) = Some c"
proof -
  obtain q where q: "Cand_ScoreValue c = Fin q" "f64_round q = Fin q" using assms by (auto simp: candidate_ok_def float_ok_def)
  have d: "dec_float (number_value (float_text q)) = Some (Fin q)" by (rule dec_float_number [OF q(2)])
  then have n: "number_value (float_text q) \<noteq> JNull" by auto
  have cs: "those (map dec_Component (map (json_norm \<circ> encode_Component) (Cand_Components c))) = Some (map id (Cand_Components c))"
    unfolding map_map by (rule those_map_Some) (use assms in \<open>simp add: candidate_ok_def dec_Component_again\<close>)
  have v: "to_valid s = s" if "valid_utf8 s" for s using that by (simp add: valid_utf8_def)
  have "json_norm (encode_Candidate c) = JObj
      ([(''listing_id'', JStr (Cand_ListingID c)), (''score_id'', JStr (Cand_ScoreID c)),
        (''score_value'', number_value (float_text q)), (''components'', JArr (map (json_norm \<circ> encode_Component) (Cand_Components c)))]
       @ (if Cand_Reasoning c = '''' then [] else [(''reasoning'', JStr (Cand_Reasoning c))])
       @ [(''why'', JStr (Cand_Why c)), (''accepted'', JBool (Cand_Accepted c))]
       @ (if Cand_Notes c = '''' then [] else [(''notes'', JStr (Cand_Notes c))]))"
    using assms q(1) by (simp add: encode_Candidate_def candidate_ok_def v is_ascii_def del: to_valid.simps)
  then obtain kvs where kvs: "json_norm (encode_Candidate c) = JObj kvs" "kvs =
      [(''listing_id'', JStr (Cand_ListingID c)), (''score_id'', JStr (Cand_ScoreID c)),
        (''score_value'', number_value (float_text q)), (''components'', JArr (map (json_norm \<circ> encode_Component) (Cand_Components c)))]
       @ (if Cand_Reasoning c = '''' then [] else [(''reasoning'', JStr (Cand_Reasoning c))])
       @ [(''why'', JStr (Cand_Why c)), (''accepted'', JBool (Cand_Accepted c))]
       @ (if Cand_Notes c = '''' then [] else [(''notes'', JStr (Cand_Notes c))])" by blast
  show ?thesis
    using d n q(1) cs unfolding dec_Candidate_def kvs(1) by (simp add: candidate_members [OF kvs(2)])
qed


lemma encode_Candidate_plain:
  assumes "candidate_ok c"
  shows "json_plain (encode_Candidate c)" and "json_depth (encode_Candidate c) \<le> 3"
proof -
  have "json_plain (encode_Component x)" if "x \<in> set (Cand_Components c)" for x
    using assms that by (auto simp: candidate_ok_def component_ok_def float_ok_def encode_Component_def)
  then show "json_plain (encode_Candidate c)"
    using assms by (auto simp: encode_Candidate_def candidate_ok_def float_ok_def list_all_iff)
  have "json_depth (JArr (map encode_Component (Cand_Components c))) \<le> Suc 1"
    by (rule json_depth_array) (simp add: encode_Component_def)
  then show "json_depth (encode_Candidate c) \<le> 3"
    by (simp add: encode_Candidate_def)
qed

text \<open>Candidates as they are parsed are written without an error, and read back.\<close>

lemma marshal_candidates:
  assumes "\<forall>c\<in>set cs. candidate_ok c"
  shows "\<exists>out. json_MarshalIndent (JArr (map encode_Candidate cs)) = Inr out \<and> parse_candidates out = Inr cs"
proof -
  let ?j = "JArr (map encode_Candidate cs)"
  have "json_plain ?j" using assms by (simp add: list_all_iff encode_Candidate_plain)
  moreover have "json_depth ?j \<le> Suc 3" using assms by (intro json_depth_array) (simp add: encode_Candidate_plain)
  then have "json_depth ?j \<le> maxNestingDepth" by (simp add: maxNestingDepth_def)
  ultimately obtain out where out: "json_MarshalIndent ?j = Inr out" "json_Unmarshal out = Inr (json_norm ?j)"
    using json_roundtrip(2) by blast
  have "those (map dec_Candidate (map (json_norm \<circ> encode_Candidate) cs)) = Some (map id cs)"
    unfolding map_map by (rule those_map_Some) (use assms in \<open>simp add: dec_Candidate_again\<close>)
  with out show ?thesis by (auto simp: parse_candidates_def)
qed

text \<open>
  C25. The command \<^verbatim>\<open>apply\<close> on a file it can read and parse: an accepted candidate without a note
  fails the command, its error names every such candidate, and nothing is written; otherwise the
  accepted candidates, in order, are what it writes, and the text it writes parses to exactly
  them. Only the write can still fail.
\<close>
theorem apply_RunE_gate:
  assumes "apply_ReadFile h inp = Inr raw" and "parse_candidates raw = Inr candidates"
  shows "let accepted = filter Cand_Accepted candidates;
             missing = filter (\<lambda>c. Cand_Notes c = '''') accepted
         in if missing \<noteq> []
            then apply_RunE h inp outp =
              (Some (Errorf ''judge-bootstrap: accepted candidates missing Notes: %v'' [ArgStrs (map Cand_ScoreID missing)]), None)
            else \<exists>written. parse_candidates written = Inr accepted
              \<and> apply_RunE h inp outp =
                  (case apply_WriteFile h outp written of
                     Some e \<Rightarrow> (Some (Errorf ''judge-bootstrap: write output: %w'' [ArgErr e]), None)
                   | None \<Rightarrow> (None, Some (outp, written)))"
proof -
  let ?accepted = "filter Cand_Accepted candidates"
  have missing: "filter (\<lambda>c. Cand_Notes c = '''') ?accepted = filter (\<lambda>c. Cand_Accepted c \<and> Cand_Notes c = '''') candidates"
    by (simp add: conj_commute)
  have "\<forall>c\<in>set ?accepted. candidate_ok c" using parse_candidates_ok [OF assms(2)] by simp
  then obtain written where "json_MarshalIndent (JArr (map encode_Candidate ?accepted)) = Inr written" "parse_candidates written = Inr ?accepted"
    using marshal_candidates by blast
  then show ?thesis
    unfolding Let_def missing using assms by (auto simp: apply_RunE_def FilterAccepted_eq split: option.split)
qed

lemma apply_RunE_gate_witness:
  "\<exists>raw written. let c = (demo_candidate ''c'' ''sc'' (Fin 90))\<lparr>Cand_Accepted := True, Cand_Notes := ''n''\<rparr>;
       d = demo_candidate ''d'' ''sd'' (Fin 80);
       h = \<lparr>apply_ReadFile = (\<lambda>p. Inr raw), apply_WriteFile = (\<lambda>p t. None)\<rparr>
   in parse_candidates raw = Inr [c, d] \<and> parse_candidates written = Inr [c]
    \<and> apply_RunE h ''in'' ''out'' = (None, Some (''out'', written))"
proof -
  let ?c = "(demo_candidate ''c'' ''sc'' (Fin 90))\<lparr>Cand_Accepted := True, Cand_Notes := ''n''\<rparr>"
  let ?d = "demo_candidate ''d'' ''sd'' (Fin 80)"
  have f: "float_ok (Fin 90)" "float_ok (Fin 80)" "float_ok (Fin (1/4))" unfolding float_ok_def by (rule exI, rule conjI, rule refl, code_simp)+
  have v: "valid_utf8 s" if "is_ascii s" for s using to_valid_ascii [OF that] by (simp add: valid_utf8_def)
  have "\<forall>c\<in>set [?c, ?d]. candidate_ok c" by (simp add: candidate_ok_def component_ok_def demo_candidate_def f v is_ascii_def)
  then obtain raw where raw: "parse_candidates raw = Inr [?c, ?d]" using marshal_candidates by blast
  then show ?thesis
    using apply_RunE_gate [of "\<lparr>apply_ReadFile = (\<lambda>p. Inr raw), apply_WriteFile = (\<lambda>p t. None)\<rparr>" "''in''" raw "[?c, ?d]" "''out''"]
    by (auto simp: Let_def demo_candidate_def)
qed

text \<open>
  The defaults of \<^verbatim>\<open>list\<close> name a strategy that looks back as far as the flag says; every name the
  flag's help lists is known, and no other.
\<close>

lemma list_defaults_known:
  "StrategyByName (LFlag_strategy list_flag_defaults)
     = Inr (AmbiguousStrategy (LFlag_since list_flag_defaults) (Fin (3602879701896397/72057594037927936)))
   \<and> ((\<exists>s. StrategyByName name = Inr s) \<longleftrightarrow> name \<in> {''ambiguous'', ''low-confidence'', ''high-stakes'', ''disagreement''})"
  by (auto simp: StrategyByName_def strategies_def list_flag_defaults_def split: option.splits if_splits)

end
