(* ===== verification/Go_Sha256.thy ===== *)
theory Go_Sha256
  imports "HOL-Library.Word" "HOL-Library.Char_ord"
begin

text \<open>
  Package crypto/sha256 (FIPS 180-4) on byte strings: the padding, the message schedule and the
  compression of a block, on words of 32 bits.
\<close>

unbundle bit_operations_syntax

type_synonym word32 = "32 word"

definition rotr :: "nat \<Rightarrow> word32 \<Rightarrow> word32" where
  "rotr n x = drop_bit n x OR push_bit (32 - n) x"

text \<open>
  The constants: the first 32 bits of the fractional part of the cube roots of the first 64 primes
  and of the square roots of the first eight. \<open>int_root k n b r\<close> adds to \<open>r\<close> the \<open>b\<close> lower bits of
  the \<open>k\<close>-th root of \<open>n\<close>.
\<close>

fun int_root :: "nat \<Rightarrow> int \<Rightarrow> nat \<Rightarrow> int \<Rightarrow> int" where
  "int_root k n 0 r = r"
| "int_root k n (Suc b) r = int_root k n b (if (r + 2 ^ b) ^ k \<le> n then r + 2 ^ b else r)"

definition root_bits :: "nat \<Rightarrow> int \<Rightarrow> word32" where
  "root_bits k p = word_of_int (int_root k (p * 2 ^ (32 * k)) 36 0)"

definition small_primes :: "int list" where
  "small_primes = filter (\<lambda>p. list_all (\<lambda>d. d dvd p \<longrightarrow> d = p) [2..17]) [2..311]"

definition sha_K :: "word32 list" where
  "sha_K = map (root_bits 3) small_primes"

definition sha_H0 :: "word32 list" where
  "sha_H0 = map (root_bits 2) [2, 3, 5, 7, 11, 13, 17, 19]"

text \<open>The root is the integer root: the largest number whose power is at most \<open>n\<close>.\<close>

lemma int_root_bounds:
  assumes "r ^ k \<le> n" and "n < (r + 2 ^ b) ^ k"
  shows "int_root k n b r ^ k \<le> n \<and> n < (int_root k n b r + 1) ^ k"
  using assms
proof (induction b arbitrary: r)
  case (Suc b)
  show ?case
  proof (cases "(r + 2 ^ b) ^ k \<le> n")
    case True
    have e: "r + 2 ^ b + 2 ^ b = r + 2 ^ Suc b" by simp
    have "int_root k n b (r + 2 ^ b) ^ k \<le> n \<and> n < (int_root k n b (r + 2 ^ b) + 1) ^ k"
      by (rule Suc.IH [OF True]) (unfold e, rule Suc.prems(2))
    then show ?thesis by (simp only: int_root.simps if_P [OF True])
  next
    case False
    then have "int_root k n b r ^ k \<le> n \<and> n < (int_root k n b r + 1) ^ k"
      by (intro Suc.IH Suc.prems(1)) (simp only: not_le)
    then show ?thesis by (simp only: int_root.simps if_not_P [OF False])
  qed
qed simp

definition be_bytes :: "nat \<Rightarrow> nat \<Rightarrow> string" where
  "be_bytes k n = map (\<lambda>i. char_of (n div 256 ^ i)) (rev [0..<k])"

text \<open>The message with the bit 1, zeros up to eight bytes before a block's end, and its length in bits.\<close>

definition sha_pad :: "string \<Rightarrow> string" where
  "sha_pad msg =
     msg @ [CHR 0x80] @ replicate ((119 - length msg mod 64) mod 64) (CHR 0x00) @ be_bytes 8 (8 * length msg)"

fun be_words :: "string \<Rightarrow> word32 list" where
  "be_words (a # b # c # d # s) =
     word_of_nat (((of_char a * 256 + of_char b) * 256 + of_char c) * 256 + of_char d) # be_words s"
| "be_words _ = []"

text \<open>The schedule: 48 more words, each from those 2, 7, 15 and 16 places before it (the list is reversed).\<close>

fun sha_extend :: "nat \<Rightarrow> word32 list \<Rightarrow> word32 list" where
  "sha_extend 0 ws = ws"
| "sha_extend (Suc k) ws =
     (let x = ws ! 14; y = ws ! 1;
          s0 = rotr 7 x XOR rotr 18 x XOR drop_bit 3 x;
          s1 = rotr 17 y XOR rotr 19 y XOR drop_bit 10 y
      in sha_extend k ((ws ! 15 + s0 + ws ! 6 + s1) # ws))"

fun sha_round :: "word32 \<times> word32 \<Rightarrow> word32 list \<Rightarrow> word32 list" where
  "sha_round (k, w) [a, b, c, d, e, f, g, h] =
     (let S1 = rotr 6 e XOR rotr 11 e XOR rotr 25 e;
          ch = (e AND f) XOR (NOT e AND g);
          t1 = h + S1 + ch + k + w;
          S0 = rotr 2 a XOR rotr 13 a XOR rotr 22 a;
          maj = (a AND b) XOR (a AND c) XOR (b AND c)
      in [t1 + (S0 + maj), a, b, c, d + t1, e, f, g])"
| "sha_round kw hs = hs"

definition sha_block :: "word32 list \<Rightarrow> string \<Rightarrow> word32 list" where
  "sha_block hs block =
     (let ws = rev (sha_extend 48 (rev (be_words block)))
      in map2 (+) hs (fold sha_round (zip sha_K ws) hs))"

function sha_blocks :: "word32 list \<Rightarrow> string \<Rightarrow> word32 list" where
  "sha_blocks hs s = (if s = [] then hs else sha_blocks (sha_block hs (take 64 s)) (drop 64 s))"
  by pat_completeness auto
termination by (relation "measure (\<lambda>(hs, s). length s)") auto

declare sha_blocks.simps [simp del]

definition sha256 :: "string \<Rightarrow> string" where
  "sha256 msg = concat (map (\<lambda>w. be_bytes 4 (unat w)) (sha_blocks sha_H0 (sha_pad msg)))"

subsection \<open>The digest has 32 bytes\<close>

lemma length_sha_round: "length (sha_round kw hs) = length hs"
  by (induction kw hs rule: sha_round.induct) (simp_all add: Let_def)

lemma length_sha_rounds: "length (fold sha_round kws hs) = length hs"
  by (induction kws arbitrary: hs) (simp_all add: length_sha_round)

lemma length_sha_blocks: "length (sha_blocks hs s) = length hs"
proof (induction hs s rule: sha_blocks.induct)
  case (1 hs s)
  then show ?case
    by (subst sha_blocks.simps) (simp add: sha_block_def Let_def length_sha_rounds)
qed

lemma length_sha256 [simp]: "length (sha256 msg) = 32"
proof -
  have "length (concat (map (\<lambda>w. be_bytes 4 (unat w)) hs)) = 4 * length hs" for hs :: "word32 list"
    by (induction hs) (simp_all add: be_bytes_def)
  then show ?thesis by (simp add: sha256_def length_sha_blocks sha_H0_def)
qed

text \<open>A padded message is a whole number of blocks.\<close>

lemma length_sha_pad: "64 dvd length (sha_pad msg)"
proof -
  define q r where "q = length msg div 64" and "r = length msg mod 64"
  have "length (sha_pad msg) = length msg + 9 + (119 - r) mod 64"
    by (simp add: sha_pad_def be_bytes_def r_def)
  also have "length msg = 64 * q + r" by (simp add: q_def r_def)
  finally have l: "length (sha_pad msg) = 64 * q + (r + 9 + (119 - r) mod 64)" by simp
  have "r < 64" by (simp add: r_def)
  show ?thesis
  proof (cases "r \<le> 55")
    case True
    then have "119 - r = 55 - r + 64" by simp
    then have "(119 - r) mod 64 = (55 - r) mod 64" by (simp only: mod_add_self2)
    also have "\<dots> = 55 - r" by simp
    finally have "(119 - r) mod 64 = 55 - r" .
    with True have "r + 9 + (119 - r) mod 64 = 64" by simp
    with l show ?thesis by simp
  next
    case False
    with \<open>r < 64\<close> have "(119 - r) mod 64 = 119 - r" by simp
    with False \<open>r < 64\<close> have "r + 9 + (119 - r) mod 64 = 128" by simp
    with l show ?thesis by simp
  qed
qed

end
