(* ===== verification/Dataset_Upload.thy ===== *)
theory Dataset_Upload
  imports Dataset_Sampler Domain_Json Go_Sha256
begin

text \<open>
  \<^verbatim>\<open>tools/dataset-upload\<close>, with the file it reads: the envelope \<^verbatim>\<open>spt-dataset-bootstrap\<close> writes
  (\<^verbatim>\<open>Sampler.Write\<close>). The Langfuse server, behind net/http's client, is a step on a state \<open>'w\<close>.
\<close>

subsection \<open>The envelope on disk\<close>

definition encode_Config :: "StratificationConfig \<Rightarrow> json" where
  "encode_Config cfg = JObj [(''SinceDuration'', JInt (Strat_SinceDuration cfg)), (''PerKind'', JInt (Strat_PerKind cfg)),
     (''PerConfidenceBucket'', encode_map JInt (Strat_PerConfidenceBucket cfg)), (''TotalCap'', JInt (Strat_TotalCap cfg)),
     (''Seed'', JInt (Strat_Seed cfg)), (''OutputPath'', JStr (Strat_OutputPath cfg))]"

definition encode_Sample :: "(instant \<Rightarrow> int) \<Rightarrow> Sample \<Rightarrow> json" where
  "encode_Sample zone s = JObj [(''listings'', JArr (map encode_Listing (Sample_Listings s))),
     (''scores'', encode_map (encode_Score zone) (Sample_Scores s)),
     (''components'', encode_map (\<lambda>cs. JArr (map encode_Component cs)) (Sample_Components s))]"

text \<open>\<open>zone\<close> is the offset of the location that the times of the store carry; the envelope's own is UTC.\<close>

definition fileEnvelope :: "(instant \<Rightarrow> int) \<Rightarrow> instant \<Rightarrow> StratificationConfig \<Rightarrow> Sample \<Rightarrow> json" where
  "fileEnvelope zone now cfg s = JObj [(''version'', JStr ''v1''), (''generatedAt'', encode_time 0 now),
     (''config'', encode_Config cfg), (''sample'', encode_Sample zone s)]"

definition sample_times_ok :: "(instant \<Rightarrow> int) \<Rightarrow> instant \<Rightarrow> Sample \<Rightarrow> bool" where
  "sample_times_ok zone now s =
     (time_json_ok 0 now \<and>
      list_all (\<lambda>k. let t = Score_CreatedAt (the (Sample_Scores s k)) in time_json_ok (zone t) t)
        (sorted_list_of_set (dom (Sample_Scores s))))"

text \<open>
  The encoder hands the whole document to the writer at once, or fails before it: on a time that has
  no RFC 3339 form, or a float that is no number. The writer is a step on a state \<open>'w\<close>.
\<close>

definition sampler_Write :: "(instant \<Rightarrow> int) \<Rightarrow> instant \<Rightarrow> (string \<Rightarrow> 'w \<Rightarrow> err option \<times> 'w) \<Rightarrow> 'r Sampler \<Rightarrow> Sample
    \<Rightarrow> 'w \<Rightarrow> err option \<times> 'w" where
  "sampler_Write zone now write s sample w =
     (let envelope = fileEnvelope zone now (Sampler_cfg s) sample;
          encoded = (if sample_times_ok zone now sample then json_EncodeIndent envelope
                     else Inl (External ''json: error calling MarshalJSON for type time.Time''))
      in case (case encoded of Inl e \<Rightarrow> (Some e, w) | Inr t \<Rightarrow> write t w) of
           (Some e, w) \<Rightarrow> (Some (Errorf ''dataset-bootstrap: encode envelope: %w'' [ArgErr e]), w)
         | (None, w) \<Rightarrow> (None, w))"
subsection \<open>Items\<close>

record DatasetItem =
  Item_Title :: string
  Item_Content :: string

definition hex_encode :: "string \<Rightarrow> string" where
  "hex_encode bs = concat (map (\<lambda>c. [hex_digit (of_char c div 16), hex_digit (of_char c mod 16)]) bs)"

definition IDFor :: "string \<Rightarrow> string" where
  "IDFor content = hex_encode (take 8 (sha256 content))"

text \<open>The anonymous structs of \<open>ParseItems\<close>: a listing is its ID and title.\<close>

definition dec_item :: "json \<Rightarrow> (string \<times> string) option" where
  "dec_item j =
     (case json_object j of
        None \<Rightarrow> None
      | Some kvs \<Rightarrow>
          (case decode_field dec_string '''' (json_members ''ID'' kvs) of
             None \<Rightarrow> None
           | Some i \<Rightarrow> map_option (Pair i) (decode_field dec_string '''' (json_members ''Title'' kvs))))"

fun dec_sample :: "json \<Rightarrow> (string \<times> string) list \<Rightarrow> (string \<times> string) list option" where
  "dec_sample (JObj kvs) old = decode_slice dec_item old (json_members ''listings'' kvs)"
| "dec_sample _ old = None"

definition dec_envelope :: "json \<Rightarrow> (string \<times> (string \<times> string) list) option" where
  "dec_envelope j =
     (case json_object j of
        None \<Rightarrow> None
      | Some kvs \<Rightarrow>
          (case decode_field dec_string '''' (json_members ''version'' kvs) of
             None \<Rightarrow> None
           | Some v \<Rightarrow> map_option (Pair v) (decode_into dec_sample [] (json_members ''sample'' kvs))))"

text \<open>The loop that marshals the listings into items.\<close>

definition listing_json :: "string \<Rightarrow> string \<Rightarrow> json" where
  "listing_json i t = JObj [(''ID'', JStr i), (''Title'', JStr t)]"

fun marshal_items :: "DatasetItem list \<Rightarrow> (string \<times> string) list \<Rightarrow> err + DatasetItem list" where
  "marshal_items items [] = Inr items"
| "marshal_items items ((i, t) # ls) =
     (case json_Marshal (listing_json i t) of
        Inl e \<Rightarrow> Inl (Errorf ''dataset-upload: marshal listing %q: %w'' [ArgQuoted i, ArgErr e])
      | Inr content \<Rightarrow> marshal_items (items @ [\<lparr>Item_Title = t, Item_Content = content\<rparr>]) ls)"

definition ParseItems :: "string \<Rightarrow> err + DatasetItem list" where
  "ParseItems raw =
     (case (case json_Unmarshal raw of
              Inl e \<Rightarrow> Inl e
            | Inr j \<Rightarrow> (case dec_envelope j of None \<Rightarrow> Inl (External ''json: cannot unmarshal'') | Some x \<Rightarrow> Inr x)) of
        Inl e \<Rightarrow> Inl (Errorf ''dataset-upload: parse envelope: %w'' [ArgErr e])
      | Inr (version, listings) \<Rightarrow>
          if version = '''' then Inl (Errorf ''dataset-upload: missing version field'' [])
          else marshal_items [] listings)"
subsection \<open>The Langfuse client\<close>

definition ErrMissingCredentials :: err where
  "ErrMissingCredentials = Sentinel ''dataset-upload: missing Langfuse credentials''"

text \<open>
  net/http's client. A request object holds the announced length, the body reader
  (\<open>Hreq_Unread\<close> is what has not been read of it yet) and the copy of the body that \<^verbatim>\<open>GetBody\<close>
  gives out. \<^verbatim>\<open>Do\<close> is a step on the state \<open>'w\<close> that gets the request object: whether it
  sends a body that is shorter than announced, refuses it or takes a new copy is the
  transport's; it answers, and leaves the reader somewhere, as the rest of the body tells.
\<close>

record http_request =
  Hreq_URL :: string
  Hreq_Auth :: "string \<times> string"
  Hreq_Headers :: "string \<rightharpoonup> string"
  Hreq_ContentLength :: nat
  Hreq_GetBody :: string
  Hreq_Unread :: string

record http_response =
  Hresp_StatusCode :: int
  Hresp_Body :: "err + string"

type_synonym 'w exchange = "http_request \<Rightarrow> 'w \<Rightarrow> (err + http_response) \<times> string \<times> 'w"

definition client_Do :: "'w exchange \<Rightarrow> http_request \<Rightarrow> 'w \<Rightarrow> (err + http_response) \<times> http_request \<times> 'w" where
  "client_Do exchange req w =
     (case exchange req w of (r, rest, w') \<Rightarrow> (r, req\<lparr>Hreq_Unread := rest\<rparr>, w'))"

record 'w httpClient =
  Client_host :: string
  Client_publicKey :: string
  Client_secretKey :: string
  Client_exchange :: "'w exchange"

record 'w ClientOptions =
  Copt_Host :: string
  Copt_PublicKey :: string
  Copt_SecretKey :: string
  Copt_HTTPClient :: "'w exchange option"

text \<open>\<open>default_client\<close> is the client with the timeout of 30 seconds.\<close>

definition NewHTTPClient :: "'w exchange \<Rightarrow> 'w ClientOptions \<Rightarrow> err + 'w httpClient" where
  "NewHTTPClient default_client opts =
     (if Copt_Host opts = '''' \<or> Copt_PublicKey opts = '''' \<or> Copt_SecretKey opts = ''''
      then Inl ErrMissingCredentials
      else
        let hc = (case Copt_HTTPClient opts of None \<Rightarrow> default_client | Some hc \<Rightarrow> hc)
        in Inr \<lparr>Client_host = Copt_Host opts, Client_publicKey = Copt_PublicKey opts,
                Client_secretKey = Copt_SecretKey opts, Client_exchange = hc\<rparr>)"

definition doWithRetry :: "'w httpClient \<Rightarrow> http_request \<Rightarrow> 'w \<Rightarrow> (err + http_response) \<times> 'w" where
  "doWithRetry c req w =
     (case client_Do (Client_exchange c) req w of
        (Inl e, req, w) \<Rightarrow> (Inl (Errorf ''dataset-upload: do request: %w'' [ArgErr e]), w)
      | (Inr resp, req, w) \<Rightarrow>
          if Hresp_StatusCode resp < 500 then (Inr resp, w)
          else (case client_Do (Client_exchange c) req w of
             (Inl e, req, w) \<Rightarrow> (Inl (Errorf ''dataset-upload: retry request: %w'' [ArgErr e]), w)
           | (Inr resp, req, w) \<Rightarrow> (Inr resp, w)))"

definition upsert_body :: "string \<Rightarrow> string \<Rightarrow> string \<Rightarrow> json" where
  "upsert_body datasetID itemID content =
     JObj [(''datasetName'', JStr datasetID), (''id'', JStr itemID), (''input'', JRaw content)]"

text \<open>\<open>url_error\<close> is net/url's verdict on the address, as \<^verbatim>\<open>NewRequestWithContext\<close> asks for it.\<close>

definition UpsertDatasetItem :: "(string \<Rightarrow> err option) \<Rightarrow> 'w httpClient \<Rightarrow> string \<Rightarrow> string \<Rightarrow> string \<Rightarrow> 'w \<Rightarrow> err option \<times> 'w" where
  "UpsertDatasetItem url_error c datasetID itemID content w =
     (case json_Marshal (upsert_body datasetID itemID content) of
        Inl e \<Rightarrow> (Some (Errorf ''dataset-upload: marshal body: %w'' [ArgErr e]), w)
      | Inr body \<Rightarrow>
          let url = Client_host c @ ''/api/public/dataset-items''
          in case url_error url of
               Some e \<Rightarrow> (Some (Errorf ''dataset-upload: build request: %w'' [ArgErr e]), w)
             | None \<Rightarrow>
                 let req = \<lparr>Hreq_URL = url, Hreq_Auth = (Client_publicKey c, Client_secretKey c),
                            Hreq_Headers = [''Content-Type'' \<mapsto> ''application/json''],
                            Hreq_ContentLength = length body, Hreq_GetBody = body, Hreq_Unread = body\<rparr>
                 in case doWithRetry c req w of
                      (Inl e, w') \<Rightarrow> (Some e, w')
                    | (Inr resp, w') \<Rightarrow>
                        if Hresp_StatusCode resp \<ge> 400
                        then (case Hresp_Body resp of
                                Inl e \<Rightarrow> (Some (Errorf ''dataset-upload: upsert %q: HTTP %d (body read failed: %w)''
                                  [ArgQuoted itemID, ArgInt (Hresp_StatusCode resp), ArgErr e]), w')
                              | Inr msg \<Rightarrow> (Some (Errorf ''dataset-upload: upsert %q: HTTP %d: %s''
                                  [ArgQuoted itemID, ArgInt (Hresp_StatusCode resp), ArgStr msg]), w'))
                        else (None, w'))"

subsection \<open>The uploader and its command\<close>

text \<open>The interface \<open>Client\<close> is its one method; the sink of a dry run accepts everything.\<close>

type_synonym 'w Client = "string \<Rightarrow> string \<Rightarrow> string \<Rightarrow> 'w \<Rightarrow> err option \<times> 'w"

definition dryRunSink :: "'w Client" where
  "dryRunSink datasetID itemID content w = (None, w)"

record 'w Uploader =
  Up_Client :: "'w Client"
  Up_DatasetID :: string
  Up_DryRun :: bool

text \<open>The result: the first error, the (id, title) pairs logged as planned, and the state.\<close>

fun uploader_Upsert :: "'w Uploader \<Rightarrow> DatasetItem list \<Rightarrow> (string \<times> string) list \<Rightarrow> 'w
    \<Rightarrow> err option \<times> (string \<times> string) list \<times> 'w" where
  "uploader_Upsert u [] logged w = (None, logged, w)"
| "uploader_Upsert u (it # items) logged w =
     (let i = IDFor (Item_Content it)
      in if Up_DryRun u then uploader_Upsert u items (logged @ [(i, Item_Title it)]) w
         else case Up_Client u (Up_DatasetID u) i (Item_Content it) w of
           (Some e, w') \<Rightarrow> (Some (Errorf ''dataset-upload: upsert %s: %w'' [ArgStr i, ArgErr e]), logged, w')
         | (None, w') \<Rightarrow> uploader_Upsert u items logged w')"

record uploadFlags =
  UFlag_datasetID :: string
  UFlag_input :: string
  UFlag_dryRun :: bool

definition upload_flag_defaults :: uploadFlags where
  "upload_flag_defaults = \<lparr>UFlag_datasetID = '''', UFlag_input = '''', UFlag_dryRun = False\<rparr>"

definition upload_RunE :: "(string \<Rightarrow> err option) \<Rightarrow> (string \<Rightarrow> err + string) \<Rightarrow> (string \<Rightarrow> string) \<Rightarrow> 'w exchange \<Rightarrow> uploadFlags \<Rightarrow> 'w
    \<Rightarrow> err option \<times> (string \<times> string) list \<times> 'w" where
  "upload_RunE url_error ReadFile Getenv default_client f w =
     (case ReadFile (UFlag_input f) of
        Inl e \<Rightarrow> (Some (Errorf ''dataset-upload: read input: %w'' [ArgErr e]), [], w)
      | Inr rawJSON \<Rightarrow>
          (case ParseItems rawJSON of
             Inl e \<Rightarrow> (Some e, [], w)
           | Inr items \<Rightarrow>
               (case (if UFlag_dryRun f then Inr dryRunSink
                      else case NewHTTPClient default_client
                          \<lparr>Copt_Host = Getenv ''LANGFUSE_HOST'', Copt_PublicKey = Getenv ''LANGFUSE_PUBLIC_KEY'',
                           Copt_SecretKey = Getenv ''LANGFUSE_SECRET_KEY'', Copt_HTTPClient = None\<rparr> of
                        Inl e \<Rightarrow> Inl e
                      | Inr c \<Rightarrow> Inr (UpsertDatasetItem url_error c)) of
                  Inl e \<Rightarrow> (Some e, [], w)
                | Inr client \<Rightarrow>
                    uploader_Upsert
                      \<lparr>Up_Client = client, Up_DatasetID = UFlag_datasetID f, Up_DryRun = UFlag_dryRun f\<rparr> items [] w)))"

subsection \<open>What the upload promises\<close>

text \<open>An item of the upload: the title, and the JSON of ID and title as content.\<close>

definition upload_item :: "string \<Rightarrow> string \<Rightarrow> DatasetItem" where
  "upload_item i t = \<lparr>Item_Title = t, Item_Content = compact_text (json_tokens (listing_json i t))\<rparr>"

lemma marshal_listing: "json_Marshal (listing_json i t) = Inr (compact_text (json_tokens (listing_json i t)))"
  by (simp add: json_Marshal_def listing_json_def)

lemma marshal_items_spec: "marshal_items items ls = Inr (items @ map (\<lambda>(i, t). upload_item i t) ls)"
  by (induction items ls rule: marshal_items.induct) (simp_all add: marshal_listing upload_item_def)

text \<open>The floats of a sample are binary64 values, as every float of Go is.\<close>

definition sample_binary64 :: "Sample \<Rightarrow> bool" where
  "sample_binary64 s \<longleftrightarrow>
     (\<forall>k sc. Sample_Scores s k = Some sc \<longrightarrow> is_binary64 (Score_Value sc) \<and> is_binary64 (Score_Percentile sc))
   \<and> (\<forall>k cs. Sample_Components s k = Some cs \<longrightarrow> (\<forall>c\<in>set cs. is_binary64 (Component_Confidence c)))"

lemma envelope_binary64:
  assumes "sample_binary64 s"
  shows "json_binary64 (fileEnvelope zone now cfg s)"
proof -
  have "json_binary64 (encode_map (encode_Score zone) (Sample_Scores s))"
    using assms by (intro json_binary64_map) (auto simp: sample_binary64_def encode_Score_def encode_time_def)
  moreover have "json_binary64 (encode_map (\<lambda>cs. JArr (map encode_Component cs)) (Sample_Components s))"
    using assms by (intro json_binary64_map) (auto simp: sample_binary64_def encode_Component_def list_all_iff)
  moreover have "json_binary64 (encode_map JInt (Strat_PerConfidenceBucket cfg))" by (intro json_binary64_map) simp
  ultimately show ?thesis
    by (simp add: fileEnvelope_def encode_Sample_def encode_Config_def encode_time_def encode_Listing_def list_all_iff)
qed

lemma envelope_depth: "json_depth (fileEnvelope zone now cfg s) \<le> 5"
proof -
  have "json_depth (encode_map (encode_Score zone) (Sample_Scores s)) \<le> Suc 1"
    by (rule json_depth_map) (simp add: encode_Score_def encode_time_def)
  moreover have "json_depth (encode_map (\<lambda>cs. JArr (map encode_Component cs)) (Sample_Components s)) \<le> Suc 2"
    by (rule json_depth_map) (rule le_trans [OF json_depth_array [where k = 1]], auto simp: encode_Component_def)
  moreover have "json_depth (JArr (map encode_Listing (Sample_Listings s))) \<le> Suc 1"
    by (rule json_depth_array) (simp add: encode_Listing_def)
  moreover have "json_depth (encode_map JInt (Strat_PerConfidenceBucket cfg)) \<le> Suc 0" by (rule json_depth_map) simp
  ultimately show ?thesis
    by (simp add: fileEnvelope_def encode_Sample_def encode_Config_def encode_time_def)
qed

text \<open>The field names of the envelope, as the decoder compares them.\<close>

lemma envelope_keys:
  "json_members ''version'' [(''version'', a), (''generatedAt'', b), (''config'', c), (''sample'', d)] = [a]"
  "json_members ''sample'' [(''version'', a), (''generatedAt'', b), (''config'', c), (''sample'', d)] = [d]"
  "json_members ''listings'' [(''listings'', a), (''scores'', b), (''components'', c)] = [a]"
  "json_members ''ID'' [(''ID'', a), (''WatchID'', b), (''EbayItemID'', c), (''Title'', d)] = [a]"
  "json_members ''Title'' [(''ID'', a), (''WatchID'', b), (''EbayItemID'', c), (''Title'', d)] = [d]"
  by (simp_all add: json_members_def ascii_lower_def)

lemma dec_item_encoded:
  "dec_item (json_norm (encode_Listing l)) = Some (to_valid (Listing_ID l), to_valid (Listing_Title l))"
proof -
  have "json_norm (encode_Listing l) = JObj [(''ID'', JStr (to_valid (Listing_ID l))), (''WatchID'', JStr (to_valid (Listing_WatchID l))),
      (''EbayItemID'', JStr (to_valid (Listing_EbayItemID l))), (''Title'', JStr (to_valid (Listing_Title l)))]"
    by (simp add: encode_Listing_def is_ascii_def del: to_valid.simps)
  then show ?thesis by (simp add: dec_item_def envelope_keys)
qed

lemma dec_envelope_encoded:
  "dec_envelope (json_norm (fileEnvelope time now cfg s))
     = Some (''v1'', map (\<lambda>l. (to_valid (Listing_ID l), to_valid (Listing_Title l))) (Sample_Listings s))"
proof -
  have "\<exists>b c x y. json_norm (fileEnvelope time now cfg s) = JObj [(''version'', JStr ''v1''), (''generatedAt'', b), (''config'', c),
      (''sample'', JObj [(''listings'', JArr (map (json_norm \<circ> encode_Listing) (Sample_Listings s))), (''scores'', x), (''components'', y)])]"
    by (simp add: fileEnvelope_def encode_Sample_def is_ascii_def del: to_valid.simps)
  moreover have "those (map dec_item (map (json_norm \<circ> encode_Listing) (Sample_Listings s)))
      = Some (map (\<lambda>l. (to_valid (Listing_ID l), to_valid (Listing_Title l))) (Sample_Listings s))"
    unfolding map_map by (rule those_map_Some) (simp add: dec_item_encoded)
  ultimately show ?thesis by (auto simp: dec_envelope_def envelope_keys)
qed

text \<open>
  C19. What the bootstrap tool writes, the upload tool reads: the text \<^verbatim>\<open>Sampler.Write\<close> puts into a
  file parses to one item per listing, in the order of the sample, with the listing's title, and the
  JSON of its ID and title as content. (A byte of a title that is no UTF-8 comes back as U+FFFD.)
\<close>
theorem written_sample_parses:
  assumes "sampler_Write zone now (\<lambda>t buf. (None, buf @ t)) s sample [] = (None, raw)" and "sample_binary64 sample"
  shows "ParseItems raw
    = Inr (map (\<lambda>l. upload_item (to_valid (Listing_ID l)) (to_valid (Listing_Title l))) (Sample_Listings sample))"
proof -
  let ?j = "fileEnvelope zone now (Sampler_cfg s) sample"
  have w: "json_EncodeIndent ?j = Inr raw"
    using assms(1) by (auto simp: sampler_Write_def Let_def split: sum.splits if_splits option.splits)
  then have "json_error ?j = None" by (simp add: json_EncodeIndent_def json_MarshalIndent_def split: option.splits)
  then have "json_plain ?j" using envelope_binary64 [OF assms(2)] by (simp add: json_plain_iff)
  moreover have "json_depth ?j \<le> maxNestingDepth"
    using envelope_depth [of zone now "Sampler_cfg s" sample] by (simp add: maxNestingDepth_def)
  ultimately have "json_Unmarshal raw = Inr (json_norm ?j)" using json_roundtrip(3) w by fastforce
  then show ?thesis
    by (simp add: ParseItems_def dec_envelope_encoded marshal_items_spec comp_def)
qed

lemma written_sample_parses_witness:
  "\<exists>raw. sampler_Write (\<lambda>t. 0) 0 (\<lambda>t buf. (None, buf @ t)) demo_sampler
      \<lparr>Sample_Listings = [demo_listing ''a'', demo_listing ''b''], Sample_Scores = Map.empty, Sample_Components = Map.empty\<rparr> [] = (None, raw)
    \<and> ParseItems raw = Inr [upload_item ''a'' ''a'', upload_item ''b'' ''b'']"
proof -
  let ?s = "\<lparr>Sample_Listings = [demo_listing ''a'', demo_listing ''b''], Sample_Scores = Map.empty, Sample_Components = Map.empty\<rparr>"
  have b: "sample_binary64 ?s" by (simp add: sample_binary64_def)
  have "time_json_ok 0 0" by code_simp
  moreover have "json_error (fileEnvelope (\<lambda>t. 0) 0 (Sampler_cfg demo_sampler) ?s) = None"
    by (auto simp: fileEnvelope_def encode_Sample_def encode_Config_def encode_time_def encode_Listing_def encode_map_def first_some_None)
  ultimately obtain raw where w: "sampler_Write (\<lambda>t. 0) 0 (\<lambda>t buf. (None, buf @ t)) demo_sampler ?s [] = (None, raw)"
    by (auto simp: sampler_Write_def sample_times_ok_def json_EncodeIndent_def json_MarshalIndent_def)
  show ?thesis
    using written_sample_parses [OF w b] w by (auto simp: demo_listing_def is_ascii_def simp del: to_valid.simps)
qed
text \<open>The state after uploading items in turn, and that each upload succeeds in its turn.\<close>

fun after_uploads :: "'w Uploader \<Rightarrow> DatasetItem list \<Rightarrow> 'w \<Rightarrow> 'w" where
  "after_uploads u [] w = w"
| "after_uploads u (it # items) w =
     after_uploads u items (snd (Up_Client u (Up_DatasetID u) (IDFor (Item_Content it)) (Item_Content it) w))"

fun uploads_ok :: "'w Uploader \<Rightarrow> DatasetItem list \<Rightarrow> 'w \<Rightarrow> bool" where
  "uploads_ok u [] w = True"
| "uploads_ok u (it # items) w =
     (case Up_Client u (Up_DatasetID u) (IDFor (Item_Content it)) (Item_Content it) w of
        (e, w') \<Rightarrow> e = None \<and> uploads_ok u items w')"

lemma Upsert_dry:
  "Up_DryRun u \<Longrightarrow> uploader_Upsert u items logged w
     = (None, logged @ map (\<lambda>it. (IDFor (Item_Content it), Item_Title it)) items, w)"
  by (induction items arbitrary: logged) (simp_all add: Let_def)

text \<open>
  C21. An upload goes through the items in order and stops at the first that fails: everything
  before it is uploaded under its content's ID, nothing after it is, and the error names the ID.
  A dry run calls no client and logs the ID and the title of every item.
\<close>
theorem Upsert_in_order:
  "if Up_DryRun u
   then uploader_Upsert u items [] w
          = (None, map (\<lambda>it. (IDFor (Item_Content it), Item_Title it)) items, w)
   else (\<exists>up rest. items = up @ rest \<and> uploads_ok u up w
     \<and> (case rest of
          [] \<Rightarrow> uploader_Upsert u items [] w = (None, [], after_uploads u up w)
        | it # _ \<Rightarrow> \<exists>e w'. Up_Client u (Up_DatasetID u) (IDFor (Item_Content it)) (Item_Content it)
              (after_uploads u up w) = (Some e, w')
            \<and> uploader_Upsert u items [] w
              = (Some (Errorf ''dataset-upload: upsert %s: %w'' [ArgStr (IDFor (Item_Content it)), ArgErr e]), [], w')))"
proof (cases "Up_DryRun u")
  case True
  then show ?thesis by (simp add: Upsert_dry)
next
  case False
  have "\<exists>up rest. items = up @ rest \<and> uploads_ok u up w
     \<and> (case rest of
          [] \<Rightarrow> uploader_Upsert u items [] w = (None, [], after_uploads u up w)
        | it # _ \<Rightarrow> \<exists>e w'. Up_Client u (Up_DatasetID u) (IDFor (Item_Content it)) (Item_Content it)
              (after_uploads u up w) = (Some e, w')
            \<and> uploader_Upsert u items [] w
              = (Some (Errorf ''dataset-upload: upsert %s: %w'' [ArgStr (IDFor (Item_Content it)), ArgErr e]), [], w'))"
  proof (induction items arbitrary: w)
    case (Cons it items)
    obtain r w1 where r: "Up_Client u (Up_DatasetID u) (IDFor (Item_Content it)) (Item_Content it) w = (r, w1)" by fastforce
    show ?case
    proof (cases r)
      case (Some e)
      with r False show ?thesis by (intro exI [of _ "[]"] exI [of _ "it # items"]) (simp add: Let_def)
    next
      case None
      obtain up rest where ih: "items = up @ rest" "uploads_ok u up w1"
        "case rest of
          [] \<Rightarrow> uploader_Upsert u items [] w1 = (None, [], after_uploads u up w1)
        | it # _ \<Rightarrow> \<exists>e w'. Up_Client u (Up_DatasetID u) (IDFor (Item_Content it)) (Item_Content it)
              (after_uploads u up w1) = (Some e, w')
            \<and> uploader_Upsert u items [] w1
              = (Some (Errorf ''dataset-upload: upsert %s: %w'' [ArgStr (IDFor (Item_Content it)), ArgErr e]), [], w')"
        using Cons.IH [of w1] by blast
      have "uploader_Upsert u (it # items) [] w = uploader_Upsert u items [] w1"
        using r None False by (simp add: Let_def)
      with ih r None show ?thesis
        by (intro exI [of _ "it # up"] exI [of _ rest]) (cases rest; simp)
    qed
  qed simp
  with False show ?thesis by simp
qed

lemma of_char_hex_digit: "n < 16 \<Longrightarrow> (of_char (hex_digit n) :: nat) = (if n < 10 then 48 + n else 87 + n)"
  by (simp add: hex_digit_def of_char_of)

lemma hex_digit_inj:
  assumes "m < 16" and "n < 16" and "hex_digit m = hex_digit n"
  shows "m = n"
proof -
  have "(if m < 10 then 48 + m else 87 + m) = (if n < 10 then 48 + n else 87 + n)"
    using of_char_hex_digit [OF assms(1)] of_char_hex_digit [OF assms(2)] assms(3) by simp
  then show ?thesis by (simp split: if_splits)
qed

lemma char_div_16: "(of_char c :: nat) div 16 < 16"
proof (rule less_mult_imp_div_less)
  have "(of_char c :: nat) mod 256 < 256" by simp
  then show "(of_char c :: nat) < 16 * 16" unfolding of_char_mod_256 by simp
qed

lemma hex_encode_Cons: "hex_encode (c # cs) = [hex_digit (of_char c div 16), hex_digit (of_char c mod 16)] @ hex_encode cs"
  by (simp add: hex_encode_def)

lemma hex_encode_inj: "hex_encode xs = hex_encode ys \<longleftrightarrow> xs = ys"
proof (induction xs arbitrary: ys)
  case Nil
  then show ?case by (cases ys) (simp_all add: hex_encode_def)
next
  case (Cons x xs)
  show ?case
  proof (cases ys)
    case (Cons y ys')
    have "x = y" if "hex_digit (of_char x div 16) = hex_digit (of_char y div 16)"
        "hex_digit (of_char x mod 16) = hex_digit (of_char y mod 16)"
    proof -
      have "(of_char x :: nat) div 16 = of_char y div 16" "(of_char x :: nat) mod 16 = of_char y mod 16"
        using that by (auto intro: hex_digit_inj char_div_16)
      then have "(of_char x :: nat) = of_char y" by (metis div_mult_mod_eq)
      then show ?thesis by simp
    qed
    with Cons.IH Cons show ?thesis by (auto simp: hex_encode_Cons)
  qed (simp add: hex_encode_def)
qed

lemma length_hex_encode: "length (hex_encode xs) = 2 * length xs"
  by (induction xs) (simp_all add: hex_encode_Cons, simp add: hex_encode_def)

lemma hex_digits: "n < 16 \<Longrightarrow> hex_digit n \<in> set ''0123456789abcdef''"
proof -
  have "\<forall>n\<in>set [0..<16]. hex_digit n \<in> set ''0123456789abcdef''" by code_simp
  then show "n < 16 \<Longrightarrow> hex_digit n \<in> set ''0123456789abcdef''" by (metis atLeastLessThan_iff set_upt zero_le)
qed

lemma hex_encode_chars: "set (hex_encode xs) \<subseteq> set ''0123456789abcdef''"
proof (induction xs)
  case (Cons x xs)
  have "hex_digit (of_char x div 16) \<in> set ''0123456789abcdef''" "hex_digit (of_char x mod 16) \<in> set ''0123456789abcdef''"
    by (intro hex_digits char_div_16, intro hex_digits, simp)
  with Cons show ?case unfolding hex_encode_Cons by simp
qed (simp add: hex_encode_def)

text \<open>
  An item's ID is sixteen lower-case hexadecimal digits, and two contents share an ID exactly
  when the first eight bytes of their digests agree: equal contents always do, so a repeated
  upload updates in place.
\<close>
lemma IDFor_exact:
  "length (IDFor c) = 16 \<and> set (IDFor c) \<subseteq> set ''0123456789abcdef''
    \<and> (IDFor c = IDFor d \<longleftrightarrow> take 8 (sha256 c) = take 8 (sha256 d))"
  by (simp add: IDFor_def length_hex_encode hex_encode_inj hex_encode_chars del: set_simps list.set)
text \<open>A client that keeps the requests it was given, in their order.\<close>

definition recorded :: "'w exchange \<Rightarrow> ('w \<times> http_request list) exchange" where
  "recorded exchange req s =
     (case exchange req (fst s) of (r, rest, w') \<Rightarrow> (r, rest, (w', snd s @ [req])))"

definition upsert_request :: "'w httpClient \<Rightarrow> string \<Rightarrow> http_request" where
  "upsert_request c body =
     \<lparr>Hreq_URL = Client_host c @ ''/api/public/dataset-items'', Hreq_Auth = (Client_publicKey c, Client_secretKey c),
      Hreq_Headers = [''Content-Type'' \<mapsto> ''application/json''],
      Hreq_ContentLength = length body, Hreq_GetBody = body, Hreq_Unread = body\<rparr>"

definition succeeded :: "(err + http_response) \<Rightarrow> bool" where
  "succeeded r = (case r of Inl e \<Rightarrow> False | Inr resp \<Rightarrow> Hresp_StatusCode resp < 400)"

definition server_error :: "(err + http_response) \<Rightarrow> bool" where
  "server_error r = (case r of Inl e \<Rightarrow> False | Inr resp \<Rightarrow> 500 \<le> Hresp_StatusCode resp)"

text \<open>
  C20. What an upsert asks of the transport: nothing, with an error, when the body has no JSON or
  the address does not parse; else one request with the complete body, and a second one exactly
  when the first was answered with a 5xx. The second is the same request object: its announced
  length is still that of the whole body, but its reader is where the first attempt left it, so
  that nothing is left to send once the first attempt has read the body to its end. The result is
  nil iff the last answer is below 400.
\<close>
theorem upsert_exchanges:
  assumes "Client_exchange c = recorded exchange"
    and "UpsertDatasetItem url_error c ds i content (w, []) = (e, w', reqs)"
  shows "case (json_Marshal (upsert_body ds i content), url_error (Client_host c @ ''/api/public/dataset-items'')) of
      (Inr body, None) \<Rightarrow>
        (let req = upsert_request c body; (r, rest, w1) = exchange req w;
             again = req\<lparr>Hreq_Unread := rest\<rparr>; (r', _, w2) = exchange again w1
         in (if server_error r then reqs = [req, again] \<and> w' = w2 \<and> (e = None \<longleftrightarrow> succeeded r')
             else reqs = [req] \<and> w' = w1 \<and> (e = None \<longleftrightarrow> succeeded r)))
    | _ \<Rightarrow> reqs = [] \<and> w' = w \<and> e \<noteq> None"
proof (cases "json_Marshal (upsert_body ds i content)")
  case (Inl x)
  with assms show ?thesis by (auto simp: UpsertDatasetItem_def)
next
  case body: (Inr body)
  show ?thesis
  proof (cases "url_error (Client_host c @ ''/api/public/dataset-items'')")
    case None
    obtain r rest w1 where x: "exchange (upsert_request c body) w = (r, rest, w1)" by (metis prod_cases3)
    obtain r' rest' w2 where y: "exchange ((upsert_request c body)\<lparr>Hreq_Unread := rest\<rparr>) w1 = (r', rest', w2)" by (metis prod_cases3)
    show ?thesis
      using assms body None x y
      by (auto simp: UpsertDatasetItem_def doWithRetry_def client_Do_def recorded_def upsert_request_def Let_def
          succeeded_def server_error_def split: sum.splits if_splits)
  next
    case (Some x)
    with assms body show ?thesis by (auto simp: UpsertDatasetItem_def Let_def)
  qed
qed

text \<open>A server that is down for the first request; the transport reads every body to its end.\<close>

definition flaky_exchange :: "nat exchange" where
  "flaky_exchange req n =
     (if n = 0 then (Inr \<lparr>Hresp_StatusCode = 503, Hresp_Body = Inr ''''\<rparr>, '''', 1)
      else if length (Hreq_Unread req) \<noteq> Hreq_ContentLength req
      then (Inl (External ''http: ContentLength=2 with Body length 0''), '''', n)
      else (Inr \<lparr>Hresp_StatusCode = 200, Hresp_Body = Inr ''''\<rparr>, '''', Suc n))"

lemma upsert_exchanges_witness:
  "let c = \<lparr>Client_host = ''https://langfuse'', Client_publicKey = ''p'', Client_secretKey = ''s'',
            Client_exchange = recorded flaky_exchange\<rparr>;
       (e, n, reqs) = UpsertDatasetItem (\<lambda>u. None) c ''ds'' ''id'' ''{}'' (0, [])
   in e \<noteq> None \<and> n = 1
      \<and> map Hreq_Unread reqs = [compact_text (json_tokens (upsert_body ''ds'' ''id'' ''{}'')), '''']"
proof -
  let ?c = "\<lparr>Client_host = ''https://langfuse'', Client_publicKey = ''p'', Client_secretKey = ''s'',
      Client_exchange = recorded flaky_exchange\<rparr>"
  let ?body = "compact_text (json_tokens (upsert_body ''ds'' ''id'' ''{}''))"
  have ok: "json_Marshal (upsert_body ''ds'' ''id'' ''{}'') = Inr ?body"
  proof -
    have "json_error (upsert_body ''ds'' ''id'' ''{}'') = None" by code_simp
    then show ?thesis by (simp add: json_Marshal_def)
  qed
  have ne: "?body \<noteq> []" by (simp add: compact_text_def upsert_body_def)
  obtain e n reqs where u: "UpsertDatasetItem (\<lambda>u. None) ?c ''ds'' ''id'' ''{}'' (0, []) = (e, n, reqs)" by (metis prod_cases3)
  show ?thesis
    unfolding Let_def u using upsert_exchanges [where exchange = flaky_exchange, OF _ u] ne
    by (auto simp: ok flaky_exchange_def upsert_request_def Let_def succeeded_def server_error_def)
qed

end
