(* ===== verification/Regression_Runner.thy ===== *)
theory Regression_Runner
  imports Dataset_Sampler Domain_Json Go_Tabwriter "HOL-Library.Monad_Syntax"
begin

text \<open>
  \<^verbatim>\<open>tools/regression-runner\<close>: the dataset of expected components, the backends, the matcher, the
  run over every backend and its report. The clock and the output are steps on a state \<open>'w\<close>; the
  environment and the files are functions.
\<close>

subsection \<open>Data\<close>

datatype MatchOutcome = NoMatch | PartialMatch | ExactMatch

record Result =
  Res_Backend :: string
  Res_ListingID :: ListingID
  Res_Outcome :: MatchOutcome
  Res_Latency :: duration
  Res_Got :: "Component list"
  Res_Expected :: "Component list"

record OutcomeCounts =
  Count_NoMatch :: int
  Count_PartialMatch :: int
  Count_ExactMatch :: int

record BackendReport =
  BR_Name :: string
  BR_Accuracy :: f64
  BR_PerKindAccuracy :: "string \<rightharpoonup> f64"
  BR_LatencyP50 :: duration
  BR_LatencyP95 :: duration
  BR_Counts :: OutcomeCounts
  BR_Results :: "Result list"

record Report =
  Rep_GeneratedAt :: instant
  Rep_Dataset :: string
  Rep_Backends :: "BackendReport list"

record DatasetEntry =
  Entry_Listing :: Listing
  Entry_Expected :: "Component list"

subsection \<open>Backends\<close>

definition ErrBackendUnconfigured :: err where
  "ErrBackendUnconfigured = Sentinel ''regression-runner: backend unconfigured''"

text \<open>The three backends with their fields: the endpoint and the model.\<close>

datatype Backend = OllamaBackend string string | AnthropicBackend string | OpenAIBackend string

fun backend_Name :: "Backend \<Rightarrow> string" where
  "backend_Name (OllamaBackend _ _) = ''ollama''"
| "backend_Name (AnthropicBackend _) = ''anthropic''"
| "backend_Name (OpenAIBackend _) = ''openai''"

definition stub_component :: "Listing \<Rightarrow> f64 \<Rightarrow> Component" where
  "stub_component l confidence =
     \<lparr>Component_ID = '''', Component_ListingID = Listing_ID l, Component_Kind = ''CPU'',
      Component_Confidence = confidence, Component_ExtractorVer = ''''\<rparr>"

definition Ollama_Extract :: "(string \<Rightarrow> string) \<Rightarrow> string \<Rightarrow> Listing \<Rightarrow> err + Component list" where
  "Ollama_Extract Getenv endpoint l =
     (if Getenv ''OLLAMA_HOST'' = '''' \<and> endpoint = ''''
      then Inl (Errorf ''%w: OllamaBackend needs --endpoint or $OLLAMA_HOST'' [ArgErr ErrBackendUnconfigured])
      else Inr [stub_component l (Fin (8106479329266893 / 9007199254740992))])"

definition Anthropic_Extract :: "(string \<Rightarrow> string) \<Rightarrow> Listing \<Rightarrow> err + Component list" where
  "Anthropic_Extract Getenv l =
     (if Getenv ''ANTHROPIC_API_KEY'' = ''''
      then Inl (Errorf ''%w: AnthropicBackend needs $ANTHROPIC_API_KEY'' [ArgErr ErrBackendUnconfigured])
      else Inr [stub_component l (Fin (8556839292003942 / 9007199254740992))])"

definition OpenAI_Extract :: "(string \<Rightarrow> string) \<Rightarrow> Listing \<Rightarrow> err + Component list" where
  "OpenAI_Extract Getenv l =
     (if Getenv ''OPENAI_API_KEY'' = ''''
      then Inl (Errorf ''%w: OpenAIBackend needs $OPENAI_API_KEY'' [ArgErr ErrBackendUnconfigured])
      else Inr [stub_component l (Fin (7656119366529843 / 9007199254740992))])"

fun Extract :: "(string \<Rightarrow> string) \<Rightarrow> Backend \<Rightarrow> Listing \<Rightarrow> err + Component list" where
  "Extract Getenv (OllamaBackend endpoint _) l = Ollama_Extract Getenv endpoint l"
| "Extract Getenv (AnthropicBackend _) l = Anthropic_Extract Getenv l"
| "Extract Getenv (OpenAIBackend _) l = OpenAI_Extract Getenv l"

text \<open>The loop of \<open>resolveBackends\<close> over the names of the list.\<close>

fun resolve_names :: "Backend list \<Rightarrow> string list \<Rightarrow> err + Backend list" where
  "resolve_names out [] = Inr out"
| "resolve_names out (n # ns) =
     (let name = trim_space n
      in if name = '''' then resolve_names out ns
         else if name = ''ollama'' then resolve_names (out @ [OllamaBackend '''' '''']) ns
         else if name = ''anthropic'' then resolve_names (out @ [AnthropicBackend '''']) ns
         else if name = ''openai'' then resolve_names (out @ [OpenAIBackend '''']) ns
         else Inl (Errorf ''regression-runner: unknown backend %q'' [ArgQuoted name]))"

definition resolveBackends :: "string \<Rightarrow> err + Backend list" where
  "resolveBackends spec =
     (case resolve_names [] (split_on (CHR '','') spec) of
        Inl e \<Rightarrow> Inl e
      | Inr out \<Rightarrow>
          if length out = 0 then Inl (Errorf ''regression-runner: --backend list resolved to zero backends'' [])
          else Inr out)"

subsection \<open>Matching and running\<close>

text \<open>The flags \<open>exact\<close> and \<open>partial\<close> of the loop over two lists of the same length.\<close>

fun match_kinds :: "bool \<Rightarrow> bool \<Rightarrow> (Component \<times> Component) list \<Rightarrow> bool \<times> bool" where
  "match_kinds exact partial [] = (exact, partial)"
| "match_kinds exact partial ((g, e) # ps) =
     (if Component_Kind g \<noteq> Component_Kind e then match_kinds False False ps else match_kinds exact partial ps)"

definition MatchComponents :: "Component list \<Rightarrow> Component list \<Rightarrow> MatchOutcome" where
  "MatchComponents got expected =
     (if length got \<noteq> length expected then NoMatch
      else case match_kinds True True (zip got expected) of
        (exact, partial) \<Rightarrow> if exact then ExactMatch else if partial then PartialMatch else NoMatch)"

text \<open>The clock is read before and after each extraction; the latency saturates.\<close>

fun executeBackend :: "(string \<Rightarrow> string) \<Rightarrow> ('w \<Rightarrow> instant \<times> 'w) \<Rightarrow> Backend \<Rightarrow> DatasetEntry list \<Rightarrow> Result list \<Rightarrow> 'w
    \<Rightarrow> Result list \<times> 'w" where
  "executeBackend Getenv clock b [] out w = (out, w)"
| "executeBackend Getenv clock b (entry # entries) out w =
     (let (start, w) = clock w;
          r = Extract Getenv b (Entry_Listing entry);
          (stop, w) = clock w;
          latency = sat64 (stop - start)
      in case r of
           Inl e \<Rightarrow> executeBackend Getenv clock b entries
             (out @ [\<lparr>Res_Backend = backend_Name b, Res_ListingID = Listing_ID (Entry_Listing entry),
                      Res_Outcome = NoMatch, Res_Latency = latency, Res_Got = [], Res_Expected = Entry_Expected entry\<rparr>]) w
         | Inr got \<Rightarrow> executeBackend Getenv clock b entries
             (out @ [\<lparr>Res_Backend = backend_Name b, Res_ListingID = Listing_ID (Entry_Listing entry),
                      Res_Outcome = MatchComponents got (Entry_Expected entry), Res_Latency = latency,
                      Res_Got = got, Res_Expected = Entry_Expected entry\<rparr>]) w)"

subsection \<open>The report\<close>

text \<open>\<open>p\<close> is 50 or 95 in all calls. A latency is an integer, so every sorting algorithm gives the same.\<close>

definition percentile :: "duration list \<Rightarrow> nat \<Rightarrow> duration" where
  "percentile xs p =
     (if xs = [] then 0
      else
        let dup = sort xs;
            idx = p * length dup div 100;
            idx = (if idx \<ge> length dup then length dup - 1 else idx)
        in dup ! idx)"

text \<open>The loop of \<open>Aggregate\<close>: counts, correct and total per kind, all correct ones, latencies.\<close>

type_synonym tally = "OutcomeCounts \<times> (string \<rightharpoonup> int \<times> int) \<times> int \<times> duration list"

definition result_kind :: "Result \<Rightarrow> string" where
  "result_kind res = (case Res_Expected res of [] \<Rightarrow> ''<no-kind>'' | e # _ \<Rightarrow> Component_Kind e)"

definition tally_result :: "Result \<Rightarrow> tally \<Rightarrow> tally" where
  "tally_result res t =
     (let (counts, perKind, totalCorrect, latencies) = t;
          latencies = latencies @ [Res_Latency res];
          kind = result_kind res;
          (correct, n_all) = (case perKind kind of None \<Rightarrow> (0, 0) | Some k \<Rightarrow> k);
          n_all = n_all + 1
      in case Res_Outcome res of
           ExactMatch \<Rightarrow> (counts\<lparr>Count_ExactMatch := Count_ExactMatch counts + 1\<rparr>,
             perKind(kind \<mapsto> (correct + 1, n_all)), totalCorrect + 1, latencies)
         | PartialMatch \<Rightarrow> (counts\<lparr>Count_PartialMatch := Count_PartialMatch counts + 1\<rparr>,
             perKind(kind \<mapsto> (correct, n_all)), totalCorrect, latencies)
         | NoMatch \<Rightarrow> (counts\<lparr>Count_NoMatch := Count_NoMatch counts + 1\<rparr>,
             perKind(kind \<mapsto> (correct, n_all)), totalCorrect, latencies))"

definition no_counts :: OutcomeCounts where
  "no_counts = \<lparr>Count_NoMatch = 0, Count_PartialMatch = 0, Count_ExactMatch = 0\<rparr>"

definition Aggregate :: "string \<Rightarrow> Result list \<Rightarrow> BackendReport" where
  "Aggregate name results =
     (let r = \<lparr>BR_Name = name, BR_Accuracy = Fin 0, BR_PerKindAccuracy = Map.empty, BR_LatencyP50 = 0,
               BR_LatencyP95 = 0, BR_Counts = no_counts, BR_Results = results\<rparr>
      in if length results = 0 then r
         else
           let (counts, perKind, totalCorrect, latencies) = fold tally_result results (no_counts, Map.empty, 0, [])
           in r\<lparr>BR_Counts := counts,
                BR_Accuracy := f64_div (f64_of_int totalCorrect) (f64_of_int (int (length results))),
                BR_PerKindAccuracy := (\<lambda>kind. case perKind kind of
                    None \<Rightarrow> None
                  | Some (correct, n_all) \<Rightarrow>
                      if n_all = 0 then None else Some (f64_div (f64_of_int correct) (f64_of_int n_all))),
                BR_LatencyP50 := percentile latencies 50, BR_LatencyP95 := percentile latencies 95\<rparr>)"

fun execute_backends :: "(string \<Rightarrow> string) \<Rightarrow> ('w \<Rightarrow> instant \<times> 'w) \<Rightarrow> DatasetEntry list \<Rightarrow> BackendReport list
    \<Rightarrow> Backend list \<Rightarrow> 'w \<Rightarrow> BackendReport list \<times> 'w" where
  "execute_backends Getenv clock entries out [] w = (out, w)"
| "execute_backends Getenv clock entries out (b # bs) w =
     (let (results, w) = executeBackend Getenv clock b entries [] w
      in execute_backends Getenv clock entries (out @ [Aggregate (backend_Name b) results]) bs w)"

definition executeAll :: "(string \<Rightarrow> string) \<Rightarrow> ('w \<Rightarrow> instant \<times> 'w) \<Rightarrow> string \<Rightarrow> DatasetEntry list \<Rightarrow> Backend list \<Rightarrow> 'w
    \<Rightarrow> Report \<times> 'w" where
  "executeAll Getenv clock datasetName entries backends w =
     (let (now, w) = clock w;
          (reports, w) = execute_backends Getenv clock entries [] backends w
      in (\<lparr>Rep_GeneratedAt = now, Rep_Dataset = datasetName, Rep_Backends = reports\<rparr>, w))"

text \<open>
  The JSON of the report. Only a backend that failed leaves \<open>Got\<close> empty, and then it is nil; the
  results are left out when there are none.
\<close>

fun outcome_code :: "MatchOutcome \<Rightarrow> int" where
  "outcome_code NoMatch = 0"
| "outcome_code PartialMatch = 1"
| "outcome_code ExactMatch = 2"

definition encode_Result :: "Result \<Rightarrow> json" where
  "encode_Result r = JObj [(''Backend'', JStr (Res_Backend r)), (''ListingID'', JStr (Res_ListingID r)),
     (''Outcome'', JInt (outcome_code (Res_Outcome r))), (''Latency'', JInt (Res_Latency r)),
     (''Got'', if Res_Got r = [] then JNull else JArr (map encode_Component (Res_Got r))),
     (''Expected'', JArr (map encode_Component (Res_Expected r)))]"

definition encode_BackendReport :: "BackendReport \<Rightarrow> json" where
  "encode_BackendReport b = JObj
     ([(''name'', JStr (BR_Name b)), (''accuracy'', JFloat (BR_Accuracy b)),
       (''per_kind_accuracy'', encode_map JFloat (BR_PerKindAccuracy b)),
       (''latency_p50'', JInt (BR_LatencyP50 b)), (''latency_p95'', JInt (BR_LatencyP95 b)),
       (''counts'', JObj [(''no_match'', JInt (Count_NoMatch (BR_Counts b))),
          (''partial_match'', JInt (Count_PartialMatch (BR_Counts b))), (''exact_match'', JInt (Count_ExactMatch (BR_Counts b)))])]
      @ (if BR_Results b = [] then [] else [(''results'', JArr (map encode_Result (BR_Results b)))]))"

definition encode_Report :: "Report \<Rightarrow> json" where
  "encode_Report r = JObj [(''generated_at'', encode_time 0 (Rep_GeneratedAt r)), (''dataset'', JStr (Rep_Dataset r)),
     (''backends'', JArr (map encode_BackendReport (Rep_Backends r)))]"

text \<open>
  The text report through the tabwriter, each print one write to it; \<open>out\<close> may refuse a write. The
  deferred flush drops its error.
\<close>

definition report_row :: "BackendReport \<Rightarrow> string list" where
  "report_row b = [BR_Name b, format_fixed 2 (BR_Accuracy b), show_int (Count_ExactMatch (BR_Counts b)),
     show_int (Count_PartialMatch (BR_Counts b)), show_int (Count_NoMatch (BR_Counts b)),
     duration_string (BR_LatencyP50 b), duration_string (BR_LatencyP95 b)]"

definition report_columns :: "string list" where
  "report_columns = [''BACKEND'', ''ACCURACY'', ''EXACT'', ''PARTIAL'', ''NONE'', ''P50'', ''P95'']"

definition report_header :: "Report \<Rightarrow> string" where
  "report_header report =
     ''Regression report '' @ [CHR 0xE2, CHR 0x80, CHR 0x94] @ '' dataset='' @ Rep_Dataset report
       @ '' '' @ [CHR 0xE2, CHR 0x80, CHR 0x94] @ '' generated='' @ format_RFC3339 0 (Rep_GeneratedAt report) @ [CHR 0x0A, CHR 0x0A]"

fun write_rows :: "(string \<Rightarrow> 'w \<Rightarrow> err option \<times> 'w) \<Rightarrow> BackendReport list \<Rightarrow> tab_writer \<Rightarrow> 'w \<Rightarrow> err option \<times> tab_writer \<times> 'w" where
  "write_rows out [] tw w = (None, tw, w)"
| "write_rows out (b # bs) tw w =
     (case tab_Write out (tab_row (report_row b)) tw w of
        (Some e, tw, w) \<Rightarrow> (Some (Errorf ''regression-runner: write text row: %w'' [ArgErr e]), tw, w)
      | (None, tw, w) \<Rightarrow> write_rows out bs tw w)"

definition writeTextReport :: "(string \<Rightarrow> 'w \<Rightarrow> err option \<times> 'w) \<Rightarrow> Report \<Rightarrow> 'w \<Rightarrow> err option \<times> 'w" where
  "writeTextReport out report w =
     (case (case tab_Write out (report_header report) tab_new w of
              (Some e, tw, w) \<Rightarrow> (Some (Errorf ''regression-runner: write text header: %w'' [ArgErr e]), tw, w)
            | (None, tw, w) \<Rightarrow>
                (case tab_Write out (tab_row report_columns) tw w of
                   (Some e, tw, w) \<Rightarrow> (Some (Errorf ''regression-runner: write text columns: %w'' [ArgErr e]), tw, w)
                 | (None, tw, w) \<Rightarrow> write_rows out (Rep_Backends report) tw w)) of
        (result, tw, w) \<Rightarrow> (result, snd (tab_Flush out tw w)))"

definition FormatText :: string where "FormatText = ''text''"
definition FormatJSON :: string where "FormatJSON = ''json''"

definition WriteReport :: "(string \<Rightarrow> 'w \<Rightarrow> err option \<times> 'w) \<Rightarrow> Report \<Rightarrow> string \<Rightarrow> 'w \<Rightarrow> err option \<times> 'w" where
  "WriteReport out report format w =
     (if format = FormatJSON then
        let encoded = (if time_json_ok 0 (Rep_GeneratedAt report) then json_EncodeIndent (encode_Report report)
                       else Inl (External ''json: error calling MarshalJSON for type time.Time''))
        in case (case encoded of Inl e \<Rightarrow> (Some e, w) | Inr t \<Rightarrow> out t w) of
             (Some e, w) \<Rightarrow> (Some (Errorf ''regression-runner: encode JSON: %w'' [ArgErr e]), w)
           | (None, w) \<Rightarrow> (None, w)
      else if format = FormatText then writeTextReport out report w
      else (Some (Errorf ''regression-runner: unknown format %q'' [ArgQuoted format]), w))"

subsection \<open>The dataset\<close>

definition ErrLangfuseDatasetNotWired :: err where
  "ErrLangfuseDatasetNotWired = Sentinel (''regression-runner: langfuse:// dataset URLs not yet wired '' @
     ''(use a local --dataset path until the agent IMPL lands)'')"

text \<open>\<^verbatim>\<open>json.Unmarshal\<close> of a file into a zero entry.\<close>

definition dec_DatasetEntry :: "json \<Rightarrow> DatasetEntry option" where
  "dec_DatasetEntry j = do {
     kvs \<leftarrow> json_object j;
     l \<leftarrow> decode_into dec_Listing zero_Listing (json_members ''listing'' kvs);
     cs \<leftarrow> decode_slice dec_Component [] (json_members ''expected'' kvs);
     Some \<lparr>Entry_Listing = l, Entry_Expected = cs\<rparr>
   }"

definition parse_entry :: "string \<Rightarrow> err + DatasetEntry" where
  "parse_entry raw =
     (case json_Unmarshal raw of
        Inl e \<Rightarrow> Inl e
      | Inr j \<Rightarrow> (case dec_DatasetEntry j of None \<Rightarrow> Inl (External ''json: cannot unmarshal'') | Some entry \<Rightarrow> Inr entry))"

text \<open>A directory: its entries in name order, as \<^verbatim>\<open>fs.ReadDir\<close> gives them, and its files.\<close>

record dataset_fs =
  ds_ReadDir :: "err + DirEntry list"
  ds_ReadFile :: "string \<Rightarrow> err + string"

text \<open>\<^verbatim>\<open>filepath.Ext\<close>: from the last dot of the last element, which a directory entry is.\<close>

definition file_ext :: "string \<Rightarrow> string" where
  "file_ext name = (case last_index (CHR ''.'') name of None \<Rightarrow> '''' | Some i \<Rightarrow> drop i name)"

fun load_dataset_files :: "dataset_fs \<Rightarrow> DatasetEntry list \<Rightarrow> DirEntry list \<Rightarrow> err + DatasetEntry list" where
  "load_dataset_files fs out [] = Inr out"
| "load_dataset_files fs out (e # es) =
     (if Entry_IsDir e \<or> file_ext (Entry_Name e) \<noteq> ''.json'' then load_dataset_files fs out es
      else case ds_ReadFile fs (Entry_Name e) of
        Inl x \<Rightarrow> Inl (Errorf ''regression-runner: read %s: %w'' [ArgStr (Entry_Name e), ArgErr x])
      | Inr raw \<Rightarrow>
          (case parse_entry raw of
             Inl x \<Rightarrow> Inl (Errorf ''regression-runner: parse %s: %w'' [ArgStr (Entry_Name e), ArgErr x])
           | Inr entry \<Rightarrow> load_dataset_files fs (out @ [entry]) es))"

definition loadLocalDataset :: "dataset_fs \<Rightarrow> err + DatasetEntry list" where
  "loadLocalDataset fs =
     (case ds_ReadDir fs of
        Inl e \<Rightarrow> Inl (Errorf ''regression-runner: read dataset dir: %w'' [ArgErr e])
      | Inr entries \<Rightarrow> load_dataset_files fs [] entries)"

definition LoadDataset :: "(string \<Rightarrow> dataset_fs) \<Rightarrow> string \<Rightarrow> err + DatasetEntry list" where
  "LoadDataset os_DirFS path =
     (if has_prefix path ''langfuse://'' then Inl ErrLangfuseDatasetNotWired
      else loadLocalDataset (os_DirFS path))"


subsection \<open>The command\<close>

record runFlags =
  NFlag_backends :: string
  NFlag_dataset :: string
  NFlag_format :: string
  NFlag_out :: string
  NFlag_langfuse :: bool

definition run_flag_defaults :: runFlags where
  "run_flag_defaults = \<lparr>NFlag_backends = ''ollama'', NFlag_dataset = ''tools/regression-runner/testdata/baseline'',
     NFlag_format = FormatText, NFlag_out = '''', NFlag_langfuse = False\<rparr>"

text \<open>Where the report goes: \<open>None\<close> is standard output, a name the created file.\<close>

record 'w run_host =
  run_DirFS :: "string \<Rightarrow> dataset_fs"
  run_Getenv :: "string \<Rightarrow> string"
  run_clock :: "'w \<Rightarrow> instant \<times> 'w"
  run_Create :: "string \<Rightarrow> 'w \<Rightarrow> err option \<times> 'w"
  run_write :: "string option \<Rightarrow> string \<Rightarrow> 'w \<Rightarrow> err option \<times> 'w"

definition run_RunE :: "'w run_host \<Rightarrow> runFlags \<Rightarrow> 'w \<Rightarrow> err option \<times> 'w" where
  "run_RunE h f w =
     (case LoadDataset (run_DirFS h) (NFlag_dataset f) of
        Inl e \<Rightarrow> (Some e, w)
      | Inr entries \<Rightarrow>
          (case resolveBackends (NFlag_backends f) of
             Inl e \<Rightarrow> (Some e, w)
           | Inr backends \<Rightarrow>
               let (report, w) = executeAll (run_Getenv h) (run_clock h) (NFlag_dataset f) entries backends w
               in if NFlag_out f \<noteq> '''' then
                    (case run_Create h (NFlag_out f) w of
                       (Some e, w) \<Rightarrow> (Some (Errorf ''regression-runner: create %s: %w'' [ArgStr (NFlag_out f), ArgErr e]), w)
                     | (None, w) \<Rightarrow> WriteReport (run_write h (Some (NFlag_out f))) report (NFlag_format f) w)
                  else WriteReport (run_write h None) report (NFlag_format f) w))"

subsection \<open>What a backend promises, and the runs that follow\<close>

text \<open>
  The contract of the interface \<open>Backend\<close>: components belong to the listing they were extracted
  from, and the only error is a backend that is not configured.
\<close>

locale extractor =
  fixes extr :: "Listing \<Rightarrow> err + Component list"
  assumes own_listing: "extr l = Inr cs \<Longrightarrow> c \<in> set cs \<Longrightarrow> Component_ListingID c = Listing_ID l"
    and configured: "extr l = Inl e \<Longrightarrow> errors_is e ErrBackendUnconfigured"
    and uniform: "extr l = Inl e \<Longrightarrow> \<exists>e'. extr l' = Inl e'"
begin

lemma all_or_none: "(\<forall>l. \<exists>cs. extr l = Inr cs) \<or> (\<forall>l. \<exists>e. extr l = Inl e \<and> errors_is e ErrBackendUnconfigured)"
proof (cases "\<exists>l e. extr l = Inl e")
  case True
  then obtain l0 e0 where "extr l0 = Inl e0" by blast
  then have "\<exists>e. extr l = Inl e" for l by (rule uniform)
  then show ?thesis using configured by blast
next
  case False
  then have "\<exists>cs. extr l = Inr cs" for l by (cases "extr l") auto
  then show ?thesis by blast
qed

end

fun unconfigured :: "(string \<Rightarrow> string) \<Rightarrow> Backend \<Rightarrow> bool" where
  "unconfigured Getenv (OllamaBackend endpoint _) = (Getenv ''OLLAMA_HOST'' = '''' \<and> endpoint = '''')"
| "unconfigured Getenv (AnthropicBackend _) = (Getenv ''ANTHROPIC_API_KEY'' = '''')"
| "unconfigured Getenv (OpenAIBackend _) = (Getenv ''OPENAI_API_KEY'' = '''')"

lemma Extract_unconfigured:
  "unconfigured Getenv b \<Longrightarrow> \<exists>f. Extract Getenv b l = Inl (Errorf f [ArgErr ErrBackendUnconfigured])"
  by (cases b) (simp_all add: Ollama_Extract_def Anthropic_Extract_def OpenAI_Extract_def)

lemma Extract_configured:
  "\<not> unconfigured Getenv b \<Longrightarrow> \<exists>x. Extract Getenv b l = Inr [stub_component l x]"
  by (cases b) (simp_all add: Ollama_Extract_def Anthropic_Extract_def OpenAI_Extract_def, blast+)

interpretation backends: extractor "Extract Getenv b" for Getenv b
proof
  show "Component_ListingID c = Listing_ID l" if "Extract Getenv b l = Inr cs" "c \<in> set cs" for l cs c
    using that Extract_unconfigured [of Getenv b l] Extract_configured [of Getenv b l]
    by (cases "unconfigured Getenv b") (auto simp: stub_component_def)
  show "errors_is e ErrBackendUnconfigured" if "Extract Getenv b l = Inl e" for l e
    using that Extract_unconfigured [of Getenv b l] Extract_configured [of Getenv b l]
    by (cases "unconfigured Getenv b") (auto simp: ErrBackendUnconfigured_def)
  show "\<exists>e'. Extract Getenv b l' = Inl e'" if "Extract Getenv b l = Inl e" for l l' e
    using that Extract_unconfigured [of Getenv b l'] Extract_configured [of Getenv b l]
    by (cases "unconfigured Getenv b") auto
qed

text \<open>The result for one entry, up to its latency.\<close>

definition result_of :: "(string \<Rightarrow> string) \<Rightarrow> Backend \<Rightarrow> DatasetEntry \<Rightarrow> duration \<Rightarrow> Result" where
  "result_of Getenv b entry latency =
     \<lparr>Res_Backend = backend_Name b, Res_ListingID = Listing_ID (Entry_Listing entry),
      Res_Outcome = (case Extract Getenv b (Entry_Listing entry) of
          Inl e \<Rightarrow> NoMatch | Inr got \<Rightarrow> MatchComponents got (Entry_Expected entry)),
      Res_Latency = latency,
      Res_Got = (case Extract Getenv b (Entry_Listing entry) of Inl e \<Rightarrow> [] | Inr got \<Rightarrow> got),
      Res_Expected = Entry_Expected entry\<rparr>"

lemma executeBackend_results:
  "\<exists>ds. length ds = length entries
     \<and> fst (executeBackend Getenv clock b entries out w) = out @ map2 (result_of Getenv b) entries ds"
proof (induction entries arbitrary: out w)
  case (Cons entry entries)
  obtain t w1 where c1: "clock w = (t, w1)" by fastforce
  obtain u w2 where c2: "clock w1 = (u, w2)" by fastforce
  let ?r = "result_of Getenv b entry (sat64 (u - t))"
  have step: "executeBackend Getenv clock b (entry # entries) out w = executeBackend Getenv clock b entries (out @ [?r]) w2"
    by (simp add: c1 c2 Let_def result_of_def split: sum.split)
  obtain ds where "length ds = length entries"
      "fst (executeBackend Getenv clock b entries (out @ [?r]) w2) = (out @ [?r]) @ map2 (result_of Getenv b) entries ds"
    using Cons.IH by blast
  then show ?case unfolding step by (intro exI [of _ "sat64 (u - t) # ds"]) simp
qed simp

lemma match_kinds_spec:
  "match_kinds exact partial ps =
     (exact \<and> (\<forall>(g, e)\<in>set ps. Component_Kind g = Component_Kind e),
      partial \<and> (\<forall>(g, e)\<in>set ps. Component_Kind g = Component_Kind e))"
  by (induction exact partial ps rule: match_kinds.induct) auto

text \<open>
  The matcher as the program stands: \<open>ExactMatch\<close> exactly when the kinds agree position by position;
  \<open>PartialMatch\<close> is never the outcome.
\<close>

lemma MatchComponents_kinds:
  "MatchComponents got expected =
     (if map Component_Kind got = map Component_Kind expected then ExactMatch else NoMatch)"
proof (cases "length got = length expected")
  case True
  then have "(\<forall>(g, e)\<in>set (zip got expected). Component_Kind g = Component_Kind e)
      \<longleftrightarrow> map Component_Kind got = map Component_Kind expected"
    by (induction rule: list_induct2) auto
  then show ?thesis using True by (auto simp: MatchComponents_def match_kinds_spec)
next
  case False
  then have "map Component_Kind got \<noteq> map Component_Kind expected" by (metis length_map)
  with False show ?thesis by (simp add: MatchComponents_def)
qed


text \<open>What one backend of this commit gives for an entry, and the columns of the reports.\<close>

definition outcome_of :: "(string \<Rightarrow> string) \<Rightarrow> Backend \<Rightarrow> DatasetEntry \<Rightarrow> MatchOutcome" where
  "outcome_of Getenv b en =
     (if \<not> unconfigured Getenv b \<and> map Component_Kind (Entry_Expected en) = [''CPU''] then ExactMatch else NoMatch)"

lemma Aggregate_fields [simp]: "BR_Name (Aggregate n rs) = n" "BR_Results (Aggregate n rs) = rs"
  by (simp_all add: Aggregate_def Let_def split: prod.splits)

lemma result_of_fields:
  "Res_ListingID (result_of Getenv b en d) = Listing_ID (Entry_Listing en)"
  "Res_Outcome (result_of Getenv b en d) = outcome_of Getenv b en"
  using Extract_unconfigured [of Getenv b "Entry_Listing en"] Extract_configured [of Getenv b "Entry_Listing en"]
  by (cases "unconfigured Getenv b"; auto simp: result_of_def MatchComponents_kinds stub_component_def outcome_of_def)+

lemma executeBackend_columns:
  assumes "executeBackend Getenv clock b entries [] v = (rs, v')"
  shows "map Res_ListingID rs = map (\<lambda>en. Listing_ID (Entry_Listing en)) entries"
    and "map Res_Outcome rs = map (outcome_of Getenv b) entries"
proof -
  obtain ds where ds: "length ds = length entries" "rs = map2 (result_of Getenv b) entries ds"
    using executeBackend_results [of entries Getenv clock b "[]" v] assms by auto
  show "map Res_ListingID rs = map (\<lambda>en. Listing_ID (Entry_Listing en)) entries"
    "map Res_Outcome rs = map (outcome_of Getenv b) entries"
    using ds(1) [symmetric] unfolding ds(2)
    by (induction entries ds rule: list_induct2; simp add: result_of_fields)+
qed

lemma execute_backends_columns:
  "execute_backends Getenv clock entries out backends v = (reps, v') \<Longrightarrow>
     map BR_Name reps = map BR_Name out @ map backend_Name backends
   \<and> map (\<lambda>r. map Res_ListingID (BR_Results r)) reps
       = map (\<lambda>r. map Res_ListingID (BR_Results r)) out @ map (\<lambda>b. map (\<lambda>en. Listing_ID (Entry_Listing en)) entries) backends
   \<and> map (\<lambda>r. map Res_Outcome (BR_Results r)) reps
       = map (\<lambda>r. map Res_Outcome (BR_Results r)) out @ map (\<lambda>b. map (outcome_of Getenv b) entries) backends"
proof (induction backends arbitrary: out v)
  case (Cons b bs)
  obtain rs v1 where r: "executeBackend Getenv clock b entries [] v = (rs, v1)" by fastforce
  with Cons.prems have "execute_backends Getenv clock entries (out @ [Aggregate (backend_Name b) rs]) bs v1 = (reps, v')" by simp
  from Cons.IH [OF this] executeBackend_columns [OF r] show ?case by simp
qed simp

text \<open>
  C26. A run reports on every backend it was given, in order, configured or not: each report has
  one result per entry of the dataset, in order, and an entry counts as matched exactly when
  its backend is configured and the one component expected is a CPU. A backend that is not
  configured is not skipped: all its results are \<open>NoMatch\<close>.
\<close>
theorem executeAll_reports:
  "let (report, w') = executeAll Getenv clock name entries backends w
   in map BR_Name (Rep_Backends report) = map backend_Name backends
    \<and> map (\<lambda>r. map Res_ListingID (BR_Results r)) (Rep_Backends report)
        = map (\<lambda>b. map (\<lambda>en. Listing_ID (Entry_Listing en)) entries) backends
    \<and> map (\<lambda>r. map Res_Outcome (BR_Results r)) (Rep_Backends report)
        = map (\<lambda>b. map (\<lambda>en. if \<not> unconfigured Getenv b \<and> map Component_Kind (Entry_Expected en) = [''CPU'']
                              then ExactMatch else NoMatch) entries) backends"
proof -
  obtain now w1 where c: "clock w = (now, w1)" by fastforce
  obtain reps w2 where r: "execute_backends Getenv clock entries [] backends w1 = (reps, w2)" by fastforce
  show ?thesis using execute_backends_columns [OF r] by (simp add: executeAll_def Let_def c r outcome_of_def)
qed

text \<open>The tallies of \<open>Aggregate\<close>.\<close>

definition outcomes :: "MatchOutcome \<Rightarrow> Result list \<Rightarrow> int" where
  "outcomes m rs = int (length (filter (\<lambda>r. Res_Outcome r = m) rs))"

lemma fold_tally:
  "fold tally_result rs (c, pk, t, ls) =
     (\<lparr>Count_NoMatch = Count_NoMatch c + outcomes NoMatch rs, Count_PartialMatch = Count_PartialMatch c + outcomes PartialMatch rs,
       Count_ExactMatch = Count_ExactMatch c + outcomes ExactMatch rs\<rparr>,
      (\<lambda>k. let rk = filter (\<lambda>r. result_kind r = k) rs
           in if rk = [] then pk k
              else (case pk k of None \<Rightarrow> Some (outcomes ExactMatch rk, int (length rk))
                    | Some (a, n) \<Rightarrow> Some (a + outcomes ExactMatch rk, n + int (length rk)))),
      t + outcomes ExactMatch rs, ls @ map Res_Latency rs)"
proof (induction rs arbitrary: c pk t ls)
  case Nil
  then show ?case by (simp add: outcomes_def)
next
  case (Cons r rs)
  obtain c' pk' t' ls' where s: "tally_result r (c, pk, t, ls) = (c', pk', t', ls')" by (metis surj_pair)
  have pk': "pk' = pk(result_kind r \<mapsto> (let (a, n) = (case pk (result_kind r) of None \<Rightarrow> (0, 0) | Some k \<Rightarrow> k)
        in (a + outcomes ExactMatch [r], n + 1)))"
    and rest: "c' = c\<lparr>Count_NoMatch := Count_NoMatch c + outcomes NoMatch [r], Count_PartialMatch := Count_PartialMatch c + outcomes PartialMatch [r],
         Count_ExactMatch := Count_ExactMatch c + outcomes ExactMatch [r]\<rparr>"
      "t' = t + outcomes ExactMatch [r]" "ls' = ls @ [Res_Latency r]"
    using s by (auto simp: tally_result_def Let_def outcomes_def split: prod.splits MatchOutcome.splits option.splits)
  have o: "outcomes m (r # rs) = outcomes m [r] + outcomes m rs" for m by (simp add: outcomes_def)
  show ?case
    unfolding fold_simps s Cons.IH
    by (simp add: rest o) (rule ext, simp add: pk' Let_def o [of ExactMatch] outcomes_def split: option.splits prod.splits)
qed

text \<open>
  C27. A backend's report: the three counts are the numbers of results with that outcome, the
  accuracy is the share of exact matches among all results, per kind it is the share among the
  results whose first expected component is of that kind (and nothing for other kinds), and the
  latencies are the percentiles over all results.
\<close>
theorem Aggregate_exact:
  "let r = Aggregate name rs
   in BR_Name r = name \<and> BR_Results r = rs
    \<and> BR_Counts r = \<lparr>Count_NoMatch = outcomes NoMatch rs, Count_PartialMatch = outcomes PartialMatch rs,
                    Count_ExactMatch = outcomes ExactMatch rs\<rparr>
    \<and> outcomes NoMatch rs + outcomes PartialMatch rs + outcomes ExactMatch rs = int (length rs)
    \<and> BR_Accuracy r = (if rs = [] then Fin 0 else f64_div (f64_of_int (outcomes ExactMatch rs)) (f64_of_int (int (length rs))))
    \<and> BR_PerKindAccuracy r = (\<lambda>k. let rk = filter (\<lambda>x. result_kind x = k) rs
         in if rk = [] then None else Some (f64_div (f64_of_int (outcomes ExactMatch rk)) (f64_of_int (int (length rk)))))
    \<and> BR_LatencyP50 r = percentile (map Res_Latency rs) 50 \<and> BR_LatencyP95 r = percentile (map Res_Latency rs) 95"
proof (cases "rs = []")
  case True
  then show ?thesis by (simp add: Aggregate_def Let_def outcomes_def no_counts_def percentile_def)
next
  case False
  have "outcomes NoMatch rs + outcomes PartialMatch rs + outcomes ExactMatch rs = int (length rs)"
  proof (induction rs)
    case (Cons r rs)
    then show ?case by (cases "Res_Outcome r") (simp_all add: outcomes_def)
  qed (simp add: outcomes_def)
  with False show ?thesis
    unfolding Aggregate_def Let_def fold_tally
    by (auto simp: no_counts_def fun_eq_iff Let_def)
qed


lemma filter_sort_length: "length (filter P (sort xs)) = length (filter P xs)"
  by (metis mset_filter mset_sort size_mset)

lemma sorted_at_most:
  assumes "sorted (ds :: int list)" and "i < length ds"
  shows "Suc i \<le> length (filter (\<lambda>x. x \<le> ds ! i) ds)" and "length (filter (\<lambda>x. x < ds ! i) ds) \<le> i"
proof -
  have le: "x \<le> ds ! i" if "x \<in> set (take (Suc i) ds)" for x
  proof -
    from that obtain j where "j < Suc i" "x = ds ! j" using assms(2) by (auto simp: in_set_conv_nth)
    then show ?thesis using sorted_nth_mono [OF assms(1), of j i] assms(2) by simp
  qed
  have "filter (\<lambda>x. x \<le> ds ! i) (take (Suc i) ds) = take (Suc i) ds" using le by (simp add: filter_id_conv)
  then have "length (filter (\<lambda>x. x \<le> ds ! i) (take (Suc i) ds @ drop (Suc i) ds)) \<ge> Suc i"
    using assms(2) unfolding filter_append by simp
  then show "Suc i \<le> length (filter (\<lambda>x. x \<le> ds ! i) ds)" by simp
  have ge: "\<not> x < ds ! i" if "x \<in> set (drop i ds)" for x
  proof -
    from that obtain j where j: "j < length ds - i" "x = ds ! (i + j)" by (auto simp: in_set_conv_nth)
    then have "i + j < length ds" by linarith
    then show ?thesis using sorted_nth_mono [OF assms(1), of i "i + j"] j(2) by simp
  qed
  have "filter (\<lambda>x. x < ds ! i) (drop i ds) = []" using ge by (simp add: filter_empty_conv)
  then have "length (filter (\<lambda>x. x < ds ! i) (take i ds @ drop i ds)) \<le> i"
    unfolding filter_append using length_filter_le [of _ "take i ds"] by (simp add: le_trans)
  then show "length (filter (\<lambda>x. x < ds ! i) ds) \<le> i" by simp
qed

lemma percentile_nth:
  assumes "xs \<noteq> []" and "p < 100"
  shows "percentile xs p = sort xs ! (p * length xs div 100)" and "p * length xs div 100 < length xs"
proof -
  have "p * length xs < 100 * length xs" using assms by simp
  then show "p * length xs div 100 < length xs" by (simp add: less_mult_imp_div_less mult.commute)
  with assms show "percentile xs p = sort xs ! (p * length xs div 100)" by (simp add: percentile_def Let_def)
qed

text \<open>
  C28. A percentile \<open>p\<close> below 100 of a non-empty sample is one of its values, grows with \<open>p\<close>, and
  lies so that strictly more than \<open>p\<close> per cent of the sample are at most it and at most \<open>p\<close>
  per cent are below it. (The nearest-rank method asks for at least \<open>p\<close> per cent: where \<open>p\<close> per
  cent is a whole number of values, the program takes the next one up.)
\<close>
theorem percentile_rank:
  assumes "xs \<noteq> []" and "p \<le> q" and "q < 100"
  shows "percentile xs p \<in> set xs \<and> percentile xs p \<le> percentile xs q
    \<and> p * length xs < 100 * length (filter (\<lambda>x. x \<le> percentile xs p) xs)
    \<and> 100 * length (filter (\<lambda>x. x < percentile xs p) xs) \<le> p * length xs"
proof -
  let ?i = "p * length xs div 100" and ?j = "q * length xs div 100"
  have p: "p < 100" using assms by simp
  note n = percentile_nth [OF assms(1) p] percentile_nth [OF assms(1,3)]
  have ij: "?i \<le> ?j" using assms(2) by (simp add: div_le_mono)
  have len: "?i < length (sort xs)" "?j < length (sort xs)" using n by simp_all
  have "percentile xs p \<in> set xs" unfolding n(1) using nth_mem [OF len(1)] by simp
  moreover have "percentile xs p \<le> percentile xs q"
    unfolding n(1,3) by (rule sorted_nth_mono [OF _ ij len(2)]) simp
  moreover have "Suc ?i \<le> length (filter (\<lambda>x. x \<le> percentile xs p) xs)" "length (filter (\<lambda>x. x < percentile xs p) xs) \<le> ?i"
    using sorted_at_most [OF sorted_sort len(1)] unfolding n(1) filter_sort_length by blast+
  moreover have "p * length xs < 100 * Suc ?i" "100 * ?i \<le> p * length xs"
    by presburger+
  ultimately show ?thesis by (meson less_le_trans le_trans mult_le_mono2)
qed

lemma percentile_rank_witness:
  "percentile [1, 2] 50 = 2 \<and> percentile [1, 2] 50 \<le> percentile [1, 2] 95"
proof -
  have "percentile [1, 2] 50 = 2" by (simp add: percentile_def Let_def)
  then show ?thesis using percentile_rank [of "[1, 2]" 50 95] by simp
qed

end
