(* ===== verification/Regression_Report.thy ===== *)
theory Regression_Report
  imports Regression_Runner
begin

text \<open>
  The text report of \<^verbatim>\<open>tools/regression-runner\<close>: what it looks like, and which failures to write it
  the tool notices.
\<close>

text \<open>Nothing the report prints has a control character, except what its names bring along.\<close>

lemma plain_digit: "is_digit c \<Longrightarrow> plain_cell [c]"
  by (auto simp: plain_cell_def is_digit_def)

lemma plain_append [simp]: "plain_cell (s @ t) \<longleftrightarrow> plain_cell s \<and> plain_cell t"
  by (auto simp: plain_cell_def)


lemma plain_Cons [simp]: "NO_MATCH '''' s \<Longrightarrow> plain_cell (c # s) \<longleftrightarrow> plain_cell [c] \<and> plain_cell s"
  by (auto simp: plain_cell_def)

lemma plain_set: "plain_cell s \<longleftrightarrow> (\<forall>c\<in>set s. plain_cell [c])"
  by (auto simp: plain_cell_def)

lemma plain_nat_digits [simp]: "plain_cell (nat_digits n)"
  using plain_show_int [of "int n"] by (simp add: show_int_def)

lemma plain_literals [simp]:
  "plain_cell ''''" "plain_cell [CHR 0xC2]" "plain_cell [CHR 0xB5]" "plain_cell ''n''" "plain_cell ''-''" "plain_cell ''.''" "plain_cell ''0s''" "plain_cell ''s''" "plain_cell ''ns''" "plain_cell ''ms''"
  "plain_cell ''h''" "plain_cell ''m''" "plain_cell ''N''" "plain_cell ''a''" "plain_cell ''I''" "plain_cell ''f''"
  "plain_cell '':''" "plain_cell ''Z''" "plain_cell ''+''" "plain_cell ''T''" "plain_cell ''0''" "plain_cell (replicate n (CHR ''0''))"
  by (auto simp: plain_cell_def)

lemma plain_fmt_frac [simp]: "plain_cell (fmt_frac prec u)"
proof -
  have "plain_cell [c]" if "c \<in> set (fraction_digits prec u)" for c
  proof -
    from that obtain k where "c = char_of (48 + k)" "k < (10 :: nat)" by (auto simp: fraction_digits_def)
    then show ?thesis by (intro plain_digit) (simp add: is_digit_def)
  qed
  then have "plain_cell (rev (dropWhile (\<lambda>c. c = CHR ''0'') (rev (fraction_digits prec u))))"
    by (subst plain_set) (auto dest: set_dropWhileD)
  then show ?thesis by (simp add: fmt_frac_def Let_def)
qed

lemma plain_duration: "plain_cell (duration_string d)"
  by (simp add: duration_string_def duration_magnitude_def Let_def)

lemma plain_fixed: "plain_cell (format_fixed prec x)"
  by (cases x) (simp_all add: Let_def)

lemma plain_pad_int: "plain_cell (pad_int w n)"
  by (simp add: pad_int_def Let_def)

lemma plain_RFC3339: "plain_cell (format_RFC3339 offset t)"
  by (simp add: format_RFC3339_def format_with_def zone_text_def Let_def plain_pad_int)


lemma plain_report_row: "plain_cell (BR_Name b) \<Longrightarrow> length (report_row b) = Suc 6 \<and> list_all plain_cell (report_row b)"
  by (simp add: report_row_def plain_duration plain_fixed plain_show_int)

lemma plain_report_columns: "length report_columns = Suc 6 \<and> list_all plain_cell report_columns"
  by (simp add: report_columns_def plain_cell_def)

text \<open>
  The title and the empty line after it are lines of one cell, so the tabwriter passes them on at
  once; the table waits for the flush.
\<close>

definition report_title :: "Report \<Rightarrow> string" where
  "report_title report =
     ''Regression report '' @ [CHR 0xE2, CHR 0x80, CHR 0x94] @ '' dataset='' @ Rep_Dataset report
       @ '' '' @ [CHR 0xE2, CHR 0x80, CHR 0x94] @ '' generated='' @ format_RFC3339 0 (Rep_GeneratedAt report)"

lemma report_header_title: "report_header report = report_title report @ [CHR 0x0A, CHR 0x0A]"
  by (simp add: report_header_def report_title_def)

lemma plain_title: "plain_cell (Rep_Dataset report) \<Longrightarrow> plain_cell (report_title report)"
  by (simp add: report_title_def plain_RFC3339) (simp add: plain_cell_def)

lemma line_writes:
  "tab_writes \<lparr>Tab_lines = [[(s, n)], []], Tab_cell = '''', Tab_width = 0, Tab_pending = '''', Tab_escape = False\<rparr>
     = (if s = '''' then [] else [s]) @ [[CHR 0x0A], '''']"
  by (simp add: tab_writes_def tab_format.simps in_column_def writeLines_def Let_def)

lemma header_buffer:
  assumes "plain_cell (Rep_Dataset report)"
  shows "tab_Write buffer_write (report_header report) tab_new buf = (None, tab_new, buf @ report_header report)"
proof -
  have "report_title report \<noteq> ''''" by (simp add: report_title_def)
  then show ?thesis
    using tab_Write_plain [OF plain_title [OF assms], of tab_new buffer_write "[CHR 0x0A, CHR 0x0A]" buf]
    by (simp add: report_header_title tab_new_def updateWidth_def terminateCell_def addLine_def Let_def line_writes buffer_write_def)
qed

lemma header_keeps:
  assumes "plain_cell (Rep_Dataset report)" and "tab_Write out (report_header report) tab_new w = (None, tw, w')"
  shows "tw = tab_new"
  using assms(2) tab_Write_plain [OF plain_title [OF assms(1)], of tab_new out "[CHR 0x0A, CHR 0x0A]" w]
  by (auto simp: report_header_title tab_new_def updateWidth_def terminateCell_def addLine_def Let_def split: prod.splits option.splits)

lemma write_rows_spec:
  assumes "\<forall>b\<in>set bs. plain_cell (BR_Name b)"
  shows "write_rows out bs (row_start ls []) w = (None, row_start (ls @ map (row_cells \<circ> report_row) bs) [], w)"
  using assms
proof (induction bs arbitrary: ls)
  case (Cons b bs)
  then have row: "report_row b \<noteq> []" "list_all plain_cell (report_row b)" "2 \<le> length ([] :: tab_line) + length (report_row b)"
    using plain_report_row [of b] by auto
  have "tab_Write out (tab_row (report_row b)) (row_start ls []) w = (None, row_start (ls @ [row_cells (report_row b)]) [], w)"
    using tab_Write_row [OF row, of out "[]" ls w] by simp
  moreover have "write_rows out bs (row_start (ls @ [row_cells (report_row b)]) []) w
      = (None, row_start ((ls @ [row_cells (report_row b)]) @ map (row_cells \<circ> report_row) bs) [], w)"
    using Cons.prems by (intro Cons.IH) simp
  ultimately show ?case by simp
qed simp

lemma write_table_spec:
  assumes "\<forall>b\<in>set bs. plain_cell (BR_Name b)"
  shows "\<exists>tw. tab_Write out (tab_row report_columns) tab_new w = (None, tw, w)
    \<and> write_rows out bs tw w = (None, row_start (map row_cells (report_columns # map report_row bs)) [], w)"
proof -
  have row: "report_columns \<noteq> []" "list_all plain_cell report_columns" "2 \<le> length ([] :: tab_line) + length report_columns"
    using plain_report_columns by auto
  have "tab_Write out (tab_row report_columns) tab_new w = (None, row_start [row_cells report_columns] [], w)"
    using tab_Write_row [OF row, of out "[]" "[]" w] by (simp add: tab_new_def)
  with write_rows_spec [OF assms, of out "[row_cells report_columns]" w] show ?thesis by simp
qed

text \<open>
  The text of the report: the title, an empty line, and a table with a row per backend whose
  columns line up.
\<close>

theorem text_report:
  assumes "plain_cell (Rep_Dataset report)" and "\<forall>b\<in>set (Rep_Backends report). plain_cell (BR_Name b)"
  shows "let rows = report_columns # map report_row (Rep_Backends report)
    in writeTextReport buffer_write report buf = (None, buf @ report_header report @ concat (map (table_line (table_widths rows 6)) rows))"
proof -
  let ?rows = "report_columns # map report_row (Rep_Backends report)"
  let ?tw = "row_start (map row_cells ?rows) []"
  have rows: "\<forall>row\<in>set ?rows. length row = Suc 6 \<and> list_all plain_cell row"
    using assms(2) plain_report_row plain_report_columns by auto
  have "tabbed (concat (map tab_row ?rows)) = snd (tab_Flush buffer_write ?tw '''')"
    using tab_Write_rows [of ?rows buffer_write "[]" "''''"] rows by (simp add: tabbed_def tab_new_def)
  then have "snd (tab_Flush buffer_write ?tw b) = b @ concat (map (table_line (table_widths ?rows 6)) ?rows)" for b
    using tabbed_table [OF rows] by (simp add: tab_Flush_def write_all_buffer)
  then show ?thesis
    using write_table_spec [OF assms(2), of buffer_write "buf @ report_header report"]
    by (auto simp: writeTextReport_def header_buffer [OF assms(1)] Let_def)
qed

text \<open>
  Whatever the output does with the table, the tool reports a failure only if the title could not be
  written: the flush that writes the table is deferred, and its error is dropped.
\<close>

theorem table_errors_lost:
  assumes "plain_cell (Rep_Dataset report)" and "\<forall>b\<in>set (Rep_Backends report). plain_cell (BR_Name b)"
    and "fst (tab_Write out (report_header report) tab_new w) = None"
  shows "fst (writeTextReport out report w) = None"
proof -
  obtain tw w' where h: "tab_Write out (report_header report) tab_new w = (None, tw, w')"
    using assms(3) by (metis prod.collapse)
  with header_keeps [OF assms(1) h] write_table_spec [OF assms(2), of out w'] show ?thesis
    by (auto simp: writeTextReport_def)
qed

end
