(* ===== verification/Dashgen_Specs.thy ===== *)
theory Dashgen_Specs
  imports Go_Http
begin

text \<open>
  What \<^verbatim>\<open>spt-dashgen\<close> ships: the Grafana document builder (\<^verbatim>\<open>tools/dashgen/internal/grafana\<close>), the
  four dashboards and the Prometheus rules (\<^verbatim>\<open>dashboards.go\<close>, \<^verbatim>\<open>rules.go\<close>), and the JSON documents
  their struct tags give. The lemmas are on the shape of what is shipped: the layout of the
  panels, their identifiers, and the rules.
\<close>

subsection \<open>The builder\<close>

record GridPos =
  Grid_H :: int
  Grid_W :: int
  Grid_X :: int
  Grid_Y :: int

record Datasource =
  Source_Type :: string
  Source_UID :: string

record Target =
  Target_Expr :: string
  Target_LegendFormat :: string
  Target_RefID :: string

record FieldDefaults =
  Defaults_Unit :: string
  Defaults_Decimals :: int

record FieldConfig =
  Field_Defaults :: FieldDefaults

record Panel =
  Panel_Title :: string
  Panel_Type :: string
  Panel_ID :: int
  Panel_GridPos :: GridPos
  Panel_Datasource :: Datasource
  Panel_Targets :: "Target list"
  Panel_FieldConfig :: FieldConfig

record Dashboard =
  Dash_Title :: string
  Dash_UID :: string
  Dash_Tags :: "string list"
  Dash_Timezone :: string
  Dash_Refresh :: string
  Dash_SchemaVersion :: int
  Dash_Version :: int
  Dash_Panels :: "Panel list"

definition DatasourcePrometheus :: string where
  "DatasourcePrometheus = ''Prometheus''"

definition New_Dashboard :: "string \<Rightarrow> string \<Rightarrow> Dashboard" where
  "New_Dashboard title uid =
     \<lparr>Dash_Title = title, Dash_UID = uid, Dash_Tags = [''spt''], Dash_Timezone = ''browser'',
      Dash_Refresh = ''30s'', Dash_SchemaVersion = 38, Dash_Version = 1, Dash_Panels = []\<rparr>"

definition AddPanel :: "Panel \<Rightarrow> Dashboard \<Rightarrow> Dashboard" where
  "AddPanel p d = d\<lparr>Dash_Panels := Dash_Panels d @ [p]\<rparr>"

definition PromTarget :: "string \<Rightarrow> string \<Rightarrow> Target" where
  "PromTarget expr legend = \<lparr>Target_Expr = expr, Target_LegendFormat = legend, Target_RefID = ''A''\<rparr>"

definition PromDatasource :: Datasource where
  "PromDatasource = \<lparr>Source_Type = ''prometheus'', Source_UID = ''prometheus''\<rparr>"

text \<open>The zero value of a \<^verbatim>\<open>FieldConfig\<close> the caller leaves out, and one that sets the unit only.\<close>

definition no_field_config :: FieldConfig where
  "no_field_config = \<lparr>Field_Defaults = \<lparr>Defaults_Unit = '''', Defaults_Decimals = 0\<rparr>\<rparr>"

definition field_unit :: "string \<Rightarrow> FieldConfig" where
  "field_unit u = \<lparr>Field_Defaults = \<lparr>Defaults_Unit = u, Defaults_Decimals = 0\<rparr>\<rparr>"

subsection \<open>The documents\<close>

text \<open>
  The struct tags: members in field order, \<^verbatim>\<open>omitempty\<close> drops an empty string, a zero number and
  an empty slice; on a struct, as \<^verbatim>\<open>fieldConfig\<close>, it drops nothing.
\<close>

definition omit_empty :: "string \<Rightarrow> string \<Rightarrow> (string \<times> json) list" where
  "omit_empty k s = (if s = '''' then [] else [(k, JStr s)])"

definition gridPos_json :: "GridPos \<Rightarrow> json" where
  "gridPos_json g = JObj [(''h'', JInt (Grid_H g)), (''w'', JInt (Grid_W g)), (''x'', JInt (Grid_X g)), (''y'', JInt (Grid_Y g))]"

definition datasource_json :: "Datasource \<Rightarrow> json" where
  "datasource_json s = JObj [(''type'', JStr (Source_Type s)), (''uid'', JStr (Source_UID s))]"

definition target_json :: "Target \<Rightarrow> json" where
  "target_json t = JObj ([(''expr'', JStr (Target_Expr t))] @ omit_empty ''legendFormat'' (Target_LegendFormat t)
     @ [(''refId'', JStr (Target_RefID t))])"

definition fieldDefaults_json :: "FieldDefaults \<Rightarrow> json" where
  "fieldDefaults_json f = JObj (omit_empty ''unit'' (Defaults_Unit f)
     @ (if Defaults_Decimals f = 0 then [] else [(''decimals'', JInt (Defaults_Decimals f))]))"

definition fieldConfig_json :: "FieldConfig \<Rightarrow> json" where
  "fieldConfig_json f = JObj [(''defaults'', fieldDefaults_json (Field_Defaults f))]"

text \<open>A nil slice is null; the builders give every panel its targets and every dashboard its panels.\<close>

definition slice_json :: "('a \<Rightarrow> json) \<Rightarrow> 'a list \<Rightarrow> json" where
  "slice_json f xs = (if xs = [] then JNull else JArr (map f xs))"

definition panel_json :: "Panel \<Rightarrow> json" where
  "panel_json p = JObj [(''title'', JStr (Panel_Title p)), (''type'', JStr (Panel_Type p)), (''id'', JInt (Panel_ID p)),
     (''gridPos'', gridPos_json (Panel_GridPos p)), (''datasource'', datasource_json (Panel_Datasource p)),
     (''targets'', slice_json target_json (Panel_Targets p)), (''fieldConfig'', fieldConfig_json (Panel_FieldConfig p))]"

definition dashboard_json :: "Dashboard \<Rightarrow> json" where
  "dashboard_json d = JObj ([(''title'', JStr (Dash_Title d)), (''uid'', JStr (Dash_UID d))]
     @ (if Dash_Tags d = [] then [] else [(''tags'', JArr (map JStr (Dash_Tags d)))])
     @ omit_empty ''timezone'' (Dash_Timezone d) @ omit_empty ''refresh'' (Dash_Refresh d)
     @ [(''schemaVersion'', JInt (Dash_SchemaVersion d)), (''version'', JInt (Dash_Version d)),
        (''panels'', slice_json panel_json (Dash_Panels d))])"

subsection \<open>The dashboards\<close>

definition buildAPIOverview :: Dashboard where
  "buildAPIOverview =
     (let d = New_Dashboard (''spt '' @ [CHR 0xE2, CHR 0x80, CHR 0x94] @ '' API overview'') ''spt-api-overview'';
          d = AddPanel
            \<lparr>Panel_Title = ''Request rate (per handler)'', Panel_Type = ''timeseries'', Panel_ID = 1,
             Panel_GridPos = \<lparr>Grid_H = 8, Grid_W = 12, Grid_X = 0, Grid_Y = 0\<rparr>,
             Panel_Datasource = PromDatasource, Panel_Targets =
            [PromTarget ''sum by (handler) (rate(http_requests_total{job=\"spt-api\"}[5m]))'' ''{{ handler }}''],
             Panel_FieldConfig = no_field_config\<rparr> d;
          d = AddPanel
            \<lparr>Panel_Title = ''Latency p50 / p95 / p99'', Panel_Type = ''timeseries'', Panel_ID = 2,
             Panel_GridPos = \<lparr>Grid_H = 8, Grid_W = 12, Grid_X = 12, Grid_Y = 0\<rparr>,
             Panel_Datasource = PromDatasource, Panel_Targets =
            [PromTarget ''histogram_quantile(0.50, sum by (le) (rate(http_request_duration_seconds_bucket{job=\"spt-api\"}[5m])))'' ''p50'',
             PromTarget ''histogram_quantile(0.95, sum by (le) (rate(http_request_duration_seconds_bucket{job=\"spt-api\"}[5m])))'' ''p95'',
             PromTarget ''histogram_quantile(0.99, sum by (le) (rate(http_request_duration_seconds_bucket{job=\"spt-api\"}[5m])))'' ''p99''],
             Panel_FieldConfig = field_unit ''s''\<rparr> d;
          d = AddPanel
            \<lparr>Panel_Title = ''Error rate (5xx)'', Panel_Type = ''timeseries'', Panel_ID = 3,
             Panel_GridPos = \<lparr>Grid_H = 8, Grid_W = 24, Grid_X = 0, Grid_Y = 8\<rparr>,
             Panel_Datasource = PromDatasource, Panel_Targets =
            [PromTarget ''sum by (handler) (rate(http_requests_total{job=\"spt-api\",status=~\"5..\"}[5m]))'' ''{{ handler }}''],
             Panel_FieldConfig = no_field_config\<rparr> d
      in d)"

definition buildWorkerPools :: Dashboard where
  "buildWorkerPools =
     (let d = New_Dashboard (''spt '' @ [CHR 0xE2, CHR 0x80, CHR 0x94] @ '' Worker pools'') ''spt-worker-pools'';
          d = AddPanel
            \<lparr>Panel_Title = ''In-flight tasks (per pool)'', Panel_Type = ''timeseries'', Panel_ID = 1,
             Panel_GridPos = \<lparr>Grid_H = 8, Grid_W = 12, Grid_X = 0, Grid_Y = 0\<rparr>,
             Panel_Datasource = PromDatasource, Panel_Targets =
            [PromTarget ''sum by (pool) (spt_worker_pool_inflight)'' ''{{ pool }}''],
             Panel_FieldConfig = no_field_config\<rparr> d;
          d = AddPanel
            \<lparr>Panel_Title = ''Queue depth (per pool)'', Panel_Type = ''timeseries'', Panel_ID = 2,
             Panel_GridPos = \<lparr>Grid_H = 8, Grid_W = 12, Grid_X = 12, Grid_Y = 0\<rparr>,
             Panel_Datasource = PromDatasource, Panel_Targets =
            [PromTarget ''sum by (pool) (spt_worker_pool_queue_depth)'' ''{{ pool }}''],
             Panel_FieldConfig = no_field_config\<rparr> d;
          d = AddPanel
            \<lparr>Panel_Title = ''Task duration p95'', Panel_Type = ''timeseries'', Panel_ID = 3,
             Panel_GridPos = \<lparr>Grid_H = 8, Grid_W = 24, Grid_X = 0, Grid_Y = 8\<rparr>,
             Panel_Datasource = PromDatasource, Panel_Targets =
            [PromTarget ''histogram_quantile(0.95, sum by (le, pool) (rate(spt_worker_task_duration_seconds_bucket[5m])))'' ''{{ pool }}''],
             Panel_FieldConfig = field_unit ''s''\<rparr> d
      in d)"

definition buildEbayQuota :: Dashboard where
  "buildEbayQuota =
     (let d = New_Dashboard (''spt '' @ [CHR 0xE2, CHR 0x80, CHR 0x94] @ '' eBay quota'') ''spt-ebay-quota'';
          d = AddPanel
            \<lparr>Panel_Title = ''API calls (rate)'', Panel_Type = ''timeseries'', Panel_ID = 1,
             Panel_GridPos = \<lparr>Grid_H = 8, Grid_W = 12, Grid_X = 0, Grid_Y = 0\<rparr>,
             Panel_Datasource = PromDatasource, Panel_Targets =
            [PromTarget ''sum(rate(spt_ebay_api_calls_total[5m]))'' ''calls/s''],
             Panel_FieldConfig = no_field_config\<rparr> d;
          d = AddPanel
            \<lparr>Panel_Title = ''Quota remaining'', Panel_Type = ''stat'', Panel_ID = 2,
             Panel_GridPos = \<lparr>Grid_H = 8, Grid_W = 12, Grid_X = 12, Grid_Y = 0\<rparr>,
             Panel_Datasource = PromDatasource, Panel_Targets =
            [PromTarget ''spt_ebay_quota_remaining'' ''remaining''],
             Panel_FieldConfig = no_field_config\<rparr> d;
          d = AddPanel
            \<lparr>Panel_Title = ''Quota exhausted'', Panel_Type = ''stat'', Panel_ID = 3,
             Panel_GridPos = \<lparr>Grid_H = 8, Grid_W = 24, Grid_X = 0, Grid_Y = 8\<rparr>,
             Panel_Datasource = PromDatasource, Panel_Targets =
            [PromTarget ''spt_ebay_quota_exhausted'' ''exhausted''],
             Panel_FieldConfig = no_field_config\<rparr> d
      in d)"

definition buildAlertsDashboard :: Dashboard where
  "buildAlertsDashboard =
     (let d = New_Dashboard (''spt '' @ [CHR 0xE2, CHR 0x80, CHR 0x94] @ '' Alerts'') ''spt-alerts'';
          d = AddPanel
            \<lparr>Panel_Title = ''Open alerts'', Panel_Type = ''stat'', Panel_ID = 1,
             Panel_GridPos = \<lparr>Grid_H = 8, Grid_W = 12, Grid_X = 0, Grid_Y = 0\<rparr>,
             Panel_Datasource = PromDatasource, Panel_Targets =
            [PromTarget ''sum(spt_alerts_open_total)'' ''open''],
             Panel_FieldConfig = no_field_config\<rparr> d;
          d = AddPanel
            \<lparr>Panel_Title = ''Stale alerts'', Panel_Type = ''stat'', Panel_ID = 2,
             Panel_GridPos = \<lparr>Grid_H = 8, Grid_W = 12, Grid_X = 12, Grid_Y = 0\<rparr>,
             Panel_Datasource = PromDatasource, Panel_Targets =
            [PromTarget ''sum(spt_alerts_stale_total)'' ''stale''],
             Panel_FieldConfig = no_field_config\<rparr> d;
          d = AddPanel
            \<lparr>Panel_Title = ''Reconciliation rate (alerts vs bulk)'', Panel_Type = ''timeseries'', Panel_ID = 3,
             Panel_GridPos = \<lparr>Grid_H = 8, Grid_W = 24, Grid_X = 0, Grid_Y = 8\<rparr>,
             Panel_Datasource = PromDatasource, Panel_Targets =
            [PromTarget ''rate(spt_reconcile_alerts_total[5m])'' ''alerts'',
             PromTarget ''rate(spt_reconcile_bulk_total[5m])'' ''bulk''],
             Panel_FieldConfig = no_field_config\<rparr> d
      in d)"

record DashboardSpec =
  Spec_Name :: string
  Spec_File :: string
  Spec_Build :: "unit \<Rightarrow> Dashboard"

definition DashboardSpecs :: "DashboardSpec list" where
  "DashboardSpecs =
     [\<lparr>Spec_Name = ''API overview'', Spec_File = ''dashboards/api-overview.json'', Spec_Build = (\<lambda>_. buildAPIOverview)\<rparr>,
      \<lparr>Spec_Name = ''Worker pools'', Spec_File = ''dashboards/worker-pools.json'', Spec_Build = (\<lambda>_. buildWorkerPools)\<rparr>,
      \<lparr>Spec_Name = ''eBay quota'', Spec_File = ''dashboards/ebay-quota.json'', Spec_Build = (\<lambda>_. buildEbayQuota)\<rparr>,
      \<lparr>Spec_Name = ''Alerts'', Spec_File = ''dashboards/alerts.json'', Spec_Build = (\<lambda>_. buildAlertsDashboard)\<rparr>]"

subsection \<open>The rules\<close>

record Rule =
  Rule_Alert :: string
  Rule_Record :: string
  Rule_Expr :: string
  Rule_For :: string
  Rule_Labels :: "string \<rightharpoonup> string"
  Rule_Annotations :: "string \<rightharpoonup> string"

record RuleGroupSpec =
  Group_Name :: string
  Group_Rules :: "Rule list"

record RuleFileSpec =
  RFile_File :: string
  RFile_Groups :: "RuleGroupSpec list"

definition RuleFiles :: "RuleFileSpec list" where
  "RuleFiles =
     [\<lparr>RFile_File = ''rules/spt-alerts.yml'', RFile_Groups =
        [\<lparr>Group_Name = ''spt.alerts'', Group_Rules =
         [\<lparr>Rule_Alert = ''SptEbayQuotaExhausted'', Rule_Record = '''',
           Rule_Expr = ''spt_ebay_quota_exhausted == 1'', Rule_For = ''30m'',
           Rule_Labels = [''severity'' \<mapsto> ''warning''],
           Rule_Annotations = [''summary'' \<mapsto> ''eBay API quota exhausted'',
             ''description'' \<mapsto> ''spt has been at the eBay daily quota for 30m. Pollers should be deferring.'']\<rparr>,
          \<lparr>Rule_Alert = ''SptStaleAlertsAccumulating'', Rule_Record = '''',
           Rule_Expr = ''spt_alerts_stale_total > 0'', Rule_For = ''30m'',
           Rule_Labels = [''severity'' \<mapsto> ''warning''],
           Rule_Annotations = [''summary'' \<mapsto> ''Stale alerts are accumulating'',
             ''description'' \<mapsto> ''Reconciliation has marked alerts stale for 30m. Check upstream eBay availability.'']\<rparr>,
          \<lparr>Rule_Alert = ''SptSchedulerLeaderMissing'', Rule_Record = '''',
           Rule_Expr = ''sum(spt_scheduler_role{role=\"leader\"}) != 1'', Rule_For = ''60s'',
           Rule_Labels = [''severity'' \<mapsto> ''critical''],
           Rule_Annotations = [''summary'' \<mapsto> ''Exactly-one scheduler leader invariant violated'',
             ''description'' \<mapsto> ''Either zero or multiple scheduler pods have the leader role. DAG runs may stall or double-fire.'']\<rparr>,
          \<lparr>Rule_Alert = ''SptSchedulerSweepRecovering'', Rule_Record = '''',
           Rule_Expr = ''rate(spt_scheduler_sweep_recovered_total[5m]) > 0'', Rule_For = ''15m'',
           Rule_Labels = [''severity'' \<mapsto> ''warning''],
           Rule_Annotations = [''summary'' \<mapsto> ''Scheduler sweep recovering work'',
             ''description'' \<mapsto> ''Tasks have been timing out at a sustained rate for 15m. Check worker pool health.'']\<rparr>]\<rparr>]\<rparr>]"

subsection \<open>The shape of what is shipped\<close>

text \<open>
  Grafana lays the panels on a grid 24 columns wide. A panel is in shape when it has a title, a
  known type, a positive identifier, room on the grid and an expression for each of its queries.
\<close>

definition panel_ok :: "Panel \<Rightarrow> bool" where
  "panel_ok p \<longleftrightarrow>
     Panel_Title p \<noteq> '''' \<and> Panel_Type p \<in> {''timeseries'', ''stat''} \<and> 0 < Panel_ID p
   \<and> Panel_Datasource p = PromDatasource
   \<and> 0 < Grid_H (Panel_GridPos p) \<and> 0 < Grid_W (Panel_GridPos p) \<and> 0 \<le> Grid_Y (Panel_GridPos p)
   \<and> 0 \<le> Grid_X (Panel_GridPos p) \<and> Grid_X (Panel_GridPos p) + Grid_W (Panel_GridPos p) \<le> 24
   \<and> Panel_Targets p \<noteq> [] \<and> list_all (\<lambda>t. Target_Expr t \<noteq> '''') (Panel_Targets p)"

definition covers :: "GridPos \<Rightarrow> int \<Rightarrow> int \<Rightarrow> bool" where
  "covers g x y \<longleftrightarrow> Grid_X g \<le> x \<and> x < Grid_X g + Grid_W g \<and> Grid_Y g \<le> y \<and> y < Grid_Y g + Grid_H g"

definition overlap :: "GridPos \<Rightarrow> GridPos \<Rightarrow> bool" where
  "overlap g g' \<longleftrightarrow> Grid_X g < Grid_X g' + Grid_W g' \<and> Grid_X g' < Grid_X g + Grid_W g
     \<and> Grid_Y g < Grid_Y g' + Grid_H g' \<and> Grid_Y g' < Grid_Y g + Grid_H g"

definition dashboard_ok :: "Dashboard \<Rightarrow> bool" where
  "dashboard_ok d \<longleftrightarrow>
     Dash_Title d \<noteq> '''' \<and> Dash_UID d \<noteq> '''' \<and> list_all panel_ok (Dash_Panels d)
   \<and> distinct (map Panel_ID (Dash_Panels d))
   \<and> sorted_wrt (\<lambda>p q. \<not> overlap (Panel_GridPos p) (Panel_GridPos q)) (Dash_Panels d)"

definition rule_ok :: "Rule \<Rightarrow> bool" where
  "rule_ok r \<longleftrightarrow>
     (Rule_Alert r = '''') \<noteq> (Rule_Record r = '''') \<and> Rule_Expr r \<noteq> ''''
   \<and> Rule_Labels r ''severity'' \<in> {Some ''warning'', Some ''critical''}
   \<and> Rule_Annotations r ''summary'' \<noteq> None \<and> Rule_Annotations r ''description'' \<noteq> None"

text \<open>Two panels overlap when they share a cell of the grid.\<close>

lemma overlap_cell:
  assumes "0 < Grid_W g" "0 < Grid_H g" "0 < Grid_W g'" "0 < Grid_H g'"
  shows "overlap g g' \<longleftrightarrow> (\<exists>x y. covers g x y \<and> covers g' x y)"
proof
  assume "overlap g g'"
  then have "covers g (max (Grid_X g) (Grid_X g')) (max (Grid_Y g) (Grid_Y g'))"
    "covers g' (max (Grid_X g) (Grid_X g')) (max (Grid_Y g) (Grid_Y g'))"
    using assms by (auto simp: overlap_def covers_def)
  then show "\<exists>x y. covers g x y \<and> covers g' x y" by blast
qed (auto simp: overlap_def covers_def)

lemma dashboard_ok_New: "title \<noteq> '''' \<Longrightarrow> uid \<noteq> '''' \<Longrightarrow> dashboard_ok (New_Dashboard title uid)"
  by (simp add: dashboard_ok_def New_Dashboard_def)

lemma dashboard_ok_AddPanel:
  "dashboard_ok d \<Longrightarrow> panel_ok p \<Longrightarrow> Panel_ID p \<notin> Panel_ID ` set (Dash_Panels d)
   \<Longrightarrow> list_all (\<lambda>q. \<not> overlap (Panel_GridPos q) (Panel_GridPos p)) (Dash_Panels d)
   \<Longrightarrow> dashboard_ok (AddPanel p d)"
  by (auto simp: dashboard_ok_def AddPanel_def sorted_wrt_append list_all_iff)

lemma Dash_Panels_build [simp]:
  "Dash_Panels (New_Dashboard t u) = []" "Dash_Panels (AddPanel p d) = Dash_Panels d @ [p]"
  "Dash_UID (New_Dashboard t u) = u" "Dash_UID (AddPanel p d) = Dash_UID d"
  by (simp_all add: New_Dashboard_def AddPanel_def)

lemmas dashboards_defs = buildAPIOverview_def buildWorkerPools_def buildEbayQuota_def buildAlertsDashboard_def

lemma dashboards_ok:
  "dashboard_ok buildAPIOverview" "dashboard_ok buildWorkerPools"
  "dashboard_ok buildEbayQuota" "dashboard_ok buildAlertsDashboard"
  unfolding dashboards_defs Let_def
  by (intro dashboard_ok_AddPanel dashboard_ok_New; simp add: panel_ok_def overlap_def PromTarget_def)+

text \<open>
  What the generator ships is in shape: each dashboard has a title, an identifier of its
  own and panels with distinct identifiers that lie on the 24 columns of the grid without sharing
  a cell, each with at least one query; no two specifications write the same file; every rule is
  either an alert or a recording, with its expression, severity, summary and description.
\<close>
lemma shipped_in_shape:
  "list_all (\<lambda>s. dashboard_ok (Spec_Build s ()) \<and> Dash_Panels (Spec_Build s ()) \<noteq> []) DashboardSpecs
   \<and> distinct (map (\<lambda>s. Dash_UID (Spec_Build s ())) DashboardSpecs)
   \<and> distinct (map Spec_File DashboardSpecs @ map RFile_File RuleFiles)
   \<and> list_all (\<lambda>rf. list_all (\<lambda>g. Group_Name g \<noteq> '''' \<and> list_all rule_ok (Group_Rules g)
       \<and> distinct (map Rule_Alert (Group_Rules g))) (RFile_Groups rf)) RuleFiles"
proof (intro conjI)
  show "list_all (\<lambda>s. dashboard_ok (Spec_Build s ()) \<and> Dash_Panels (Spec_Build s ()) \<noteq> []) DashboardSpecs"
    using dashboards_ok by (simp add: DashboardSpecs_def) (simp add: dashboards_defs Let_def)
  show "distinct (map (\<lambda>s. Dash_UID (Spec_Build s ())) DashboardSpecs)"
    by (simp add: DashboardSpecs_def dashboards_defs Let_def)
  show "distinct (map Spec_File DashboardSpecs @ map RFile_File RuleFiles)"
    by (simp add: DashboardSpecs_def RuleFiles_def)
  show "list_all (\<lambda>rf. list_all (\<lambda>g. Group_Name g \<noteq> '''' \<and> list_all rule_ok (Group_Rules g)
       \<and> distinct (map Rule_Alert (Group_Rules g))) (RFile_Groups rf)) RuleFiles"
    by (simp add: RuleFiles_def rule_ok_def)
qed

text \<open>
  Grafana tells the queries of a panel apart by their \<^verbatim>\<open>refId\<close>, which \<open>PromTarget\<close> always sets to
  the same letter: a panel with several queries has them under one name.
\<close>

lemma queries_share_refid:
  "\<exists>p\<in>set (Dash_Panels buildAPIOverview). map Target_RefID (Panel_Targets p) = [''A'', ''A'', ''A'']"
  "\<exists>p\<in>set (Dash_Panels buildAlertsDashboard). map Target_RefID (Panel_Targets p) = [''A'', ''A'']"
  by (simp_all add: dashboards_defs Let_def PromTarget_def)

end
