(* ===== verification/Go_Disk.thy ===== *)
theory Go_Disk
  imports Go_Strings
begin

text \<open>
  What the tools use of packages os and path/filepath to write files: a disk of files and
  directories named by their cleaned paths, the calls on it with the errors the operating system
  may answer, and the states of the disk another process, or the next start after a crash, can see
  on the way. The lemmas are on cleaned paths and on what a call leaves alone.
\<close>

subsection \<open>The disk\<close>

datatype node = DirNode | FileNode string

type_synonym disk = "string \<rightharpoonup> node"

text \<open>The working directory and the file system's top are always there.\<close>

definition node_at :: "disk \<Rightarrow> string \<Rightarrow> node option" where
  "node_at d p = (if p = ''.'' \<or> p = ''/'' then Some DirNode else d p)"

text \<open>\<open>Disk_Seen\<close> lists the states before the present one, oldest first.\<close>

record disk_world =
  Disk_Now :: disk
  Disk_Seen :: "disk list"

definition disk_put :: "string \<Rightarrow> node \<Rightarrow> disk_world \<Rightarrow> disk_world" where
  "disk_put p n w = \<lparr>Disk_Now = (Disk_Now w)(p \<mapsto> n), Disk_Seen = Disk_Seen w @ [Disk_Now w]\<rparr>"

text \<open>
  What the operating system refuses: the creation of a directory, the opening of a file for
  writing (\<open>None\<close>) or the write after so many bytes, the renaming, the reading.
\<close>

record os_refusals =
  Refuse_Mkdir :: "string \<Rightarrow> err option"
  Refuse_Write :: "string \<Rightarrow> (err \<times> nat option) option"
  Refuse_Rename :: "string \<Rightarrow> err option"
  Refuse_Read :: "string \<Rightarrow> err option"

definition no_refusals :: os_refusals where
  "no_refusals = \<lparr>Refuse_Mkdir = \<lambda>_. None, Refuse_Write = \<lambda>_. None, Refuse_Rename = \<lambda>_. None, Refuse_Read = \<lambda>_. None\<rparr>"

definition ENOTDIR :: err where "ENOTDIR = External ''not a directory''"
definition EISDIR :: err where "EISDIR = External ''is a directory''"
definition EEXIST :: err where "EEXIST = External ''file exists''"

subsection \<open>The calls\<close>

text \<open>\<^verbatim>\<open>filepath.Dir\<close>: what is before the last slash, cleaned.\<close>

definition path_dir :: "string \<Rightarrow> string" where
  "path_dir p = path_clean (case last_index (CHR ''/'') p of None \<Rightarrow> [] | Some i \<Rightarrow> take (Suc i) p)"

text \<open>The directories of a cleaned path from the top, itself the last.\<close>

definition ancestors :: "string \<Rightarrow> string list" where
  "ancestors p = map (\<lambda>i. take i p) (filter (\<lambda>i. i = length p \<or> p ! i = CHR ''/'') [1..<Suc (length p)])"

fun mkdirs :: "os_refusals \<Rightarrow> string list \<Rightarrow> disk_world \<Rightarrow> err option \<times> disk_world" where
  "mkdirs os [] w = (None, w)"
| "mkdirs os (p # ps) w =
     (case node_at (Disk_Now w) p of
        Some DirNode \<Rightarrow> mkdirs os ps w
      | Some (FileNode _) \<Rightarrow> (Some ENOTDIR, w)
      | None \<Rightarrow>
          (case Refuse_Mkdir os p of
             Some e \<Rightarrow> (Some e, w)
           | None \<Rightarrow> mkdirs os ps (disk_put p DirNode w)))"

definition os_MkdirAll :: "os_refusals \<Rightarrow> string \<Rightarrow> disk_world \<Rightarrow> err option \<times> disk_world" where
  "os_MkdirAll os p w = mkdirs os (ancestors p) w"

text \<open>
  \<^verbatim>\<open>os.WriteFile\<close> creates the file, or empties the one that is there, and writes; a reader may
  come at any byte.
\<close>

definition write_bytes :: "string \<Rightarrow> string \<Rightarrow> disk_world \<Rightarrow> disk_world" where
  "write_bytes p data w = fold (\<lambda>k. disk_put p (FileNode (take (Suc k) data))) [0..<length data] w"

definition os_WriteFile :: "os_refusals \<Rightarrow> string \<Rightarrow> string \<Rightarrow> disk_world \<Rightarrow> err option \<times> disk_world" where
  "os_WriteFile os p data w =
     (if node_at (Disk_Now w) p = Some DirNode then (Some EISDIR, w)
      else case node_at (Disk_Now w) (path_dir p) of
             None \<Rightarrow> (Some fs_ErrNotExist, w)
           | Some (FileNode _) \<Rightarrow> (Some ENOTDIR, w)
           | Some DirNode \<Rightarrow>
               (case Refuse_Write os p of
                  Some (e, None) \<Rightarrow> (Some e, w)
                | Some (e, Some k) \<Rightarrow> (Some e, write_bytes p (take k data) (disk_put p (FileNode []) w))
                | None \<Rightarrow> (None, write_bytes p data (disk_put p (FileNode []) w))))"

text \<open>
  \<^verbatim>\<open>os.Rename\<close> of a file, in one step; the code renames the file it has just written, so the
  renaming of a directory, which would move what is below it, is only an error here.
\<close>

definition os_Rename :: "os_refusals \<Rightarrow> string \<Rightarrow> string \<Rightarrow> disk_world \<Rightarrow> err option \<times> disk_world" where
  "os_Rename os p q w =
     (case node_at (Disk_Now w) p of
        None \<Rightarrow> (Some fs_ErrNotExist, w)
      | Some DirNode \<Rightarrow> (Some EISDIR, w)
      | Some (FileNode c) \<Rightarrow>
          if node_at (Disk_Now w) q = Some DirNode then (Some EEXIST, w)
          else (case Refuse_Rename os q of
                  Some e \<Rightarrow> (Some e, w)
                | None \<Rightarrow> (None, \<lparr>Disk_Now = ((Disk_Now w)(p := None))(q \<mapsto> FileNode c),
                                 Disk_Seen = Disk_Seen w @ [Disk_Now w]\<rparr>)))"

fun is_file :: "node option \<Rightarrow> bool" where
  "is_file (Some (FileNode _)) = True"
| "is_file _ = False"

definition os_ReadFile_at :: "os_refusals \<Rightarrow> string \<Rightarrow> disk_world \<Rightarrow> err + string" where
  "os_ReadFile_at os p w =
     (case Refuse_Read os p of
        Some e \<Rightarrow> Inl e
      | None \<Rightarrow>
          (case node_at (Disk_Now w) p of
             Some (FileNode c) \<Rightarrow> Inr c
           | Some DirNode \<Rightarrow> Inl EISDIR
           | None \<Rightarrow> if list_ex (\<lambda>a. is_file (node_at (Disk_Now w) a)) (butlast (ancestors p))
                      then Inl ENOTDIR else Inl fs_ErrNotExist))"

subsection \<open>Cleaned paths\<close>

lemma split_on_append: "split_on c (a @ c # b) = split_on c a @ split_on c b"
  by (induction a) (auto split: list.splits)

lemma join_split_on: "join_with [c] (split_on c s) = s"
proof (induction s)
  case (Cons x s)
  then show ?case by (cases "split_on c s" rule: remdups_adj.cases) auto
qed simp

lemma join_with_append:
  "fs \<noteq> [] \<Longrightarrow> join_with [c] (es @ fs) = concat (map (\<lambda>e. e @ [c]) es) @ join_with [c] fs"
proof (induction es)
  case (Cons e es)
  then show ?case by (cases "es @ fs") auto
qed simp

definition plain_elem :: "string \<Rightarrow> bool" where
  "plain_elem e \<longleftrightarrow> e \<noteq> [] \<and> e \<noteq> ''.'' \<and> e \<noteq> ''..''"

lemma clean_elems_plain: "list_all plain_elem fs \<Longrightarrow> clean_elems r st (es @ fs) = clean_elems r st es @ fs"
proof (induction es arbitrary: st)
  case Nil
  then show ?case by (induction fs arbitrary: st) (auto simp: plain_elem_def)
next
  case (Cons e es)
  then show ?case by (auto split: list.splits)
qed

text \<open>What joining puts before a relative path of plain elements.\<close>

definition dir_prefix :: "string \<Rightarrow> string" where
  "dir_prefix out =
     (let rooted = (out \<noteq> [] \<and> hd out = CHR ''/'')
      in (if rooted then ''/'' else [])
         @ concat (map (\<lambda>e. e @ ''/'') (clean_elems rooted [] (split_on (CHR ''/'') out))))"

lemma path_join_prefix:
  assumes f: "f \<noteq> []" and plain: "list_all plain_elem (split_on (CHR ''/'') f)"
  shows "path_join [out, f] = dir_prefix out @ f"
proof -
  have hd: "hd f \<noteq> CHR ''/''"
    using f plain by (cases f) (auto simp: plain_elem_def)
  let ?r = "out \<noteq> [] \<and> hd out = CHR ''/''" and ?fs = "split_on (CHR ''/'') f"
  let ?C = "clean_elems ?r [] (split_on (CHR ''/'') out)"
  have join: "join_with ''/'' (es @ ?fs) = concat (map (\<lambda>e. e @ ''/'') es) @ f" for es
    by (simp only: join_with_append [OF split_on_nonempty] join_split_on)
  show ?thesis
  proof (cases "out = []")
    case True
    have "clean_elems False [] ?fs = ?fs" using clean_elems_plain [OF plain, of False "[]" "[]"] by simp
    with True f hd join [of "[]"] show ?thesis
      by (simp add: path_join_def path_clean_def dir_prefix_def Let_def)
  next
    case False
    then have "path_join [out, f] = path_clean (out @ ''/'' @ f)" using f by (simp add: path_join_def)
    moreover have "clean_elems ?r [] (split_on (CHR ''/'') (out @ ''/'' @ f)) = ?C @ ?fs"
      using plain by (simp add: split_on_append clean_elems_plain)
    ultimately show ?thesis
      using False f by (cases "hd out = CHR ''/''") (simp_all add: path_clean_def dir_prefix_def Let_def join)
  qed
qed

text \<open>Cleaning does not make a path longer.\<close>

definition elems_size :: "string list \<Rightarrow> nat" where
  "elems_size es = sum_list (map (\<lambda>e. Suc (length e)) es)"

lemma elems_size_simps [simp]:
  "elems_size [] = 0" "elems_size (e # es) = Suc (length e) + elems_size es"
  "elems_size (es @ fs) = elems_size es + elems_size fs" "elems_size (rev es) = elems_size es"
  by (simp_all add: elems_size_def rev_map [symmetric] sum_list_rev)

lemma clean_elems_size: "elems_size (clean_elems r st es) \<le> elems_size st + elems_size es"
  by (induction r st es rule: clean_elems.induct) (auto split: list.splits if_splits)

lemma split_on_size: "elems_size (split_on c s) = Suc (length s)"
  by (induction s) (auto split: list.splits)

lemma join_with_size: "es \<noteq> [] \<Longrightarrow> Suc (length (join_with [c] es)) = elems_size es"
  by (induction "[c]" es rule: join_with.induct) auto

lemma join_with_le: "length (join_with [c] es) \<le> elems_size es - 1"
  using join_with_size [of es c] by (cases "es = []") auto

lemma path_clean_le: "length (path_clean p) \<le> max 1 (length p)"
proof (cases "p \<noteq> [] \<and> hd p = CHR ''/''")
  case True
  then obtain q where p: "p = CHR ''/'' # q" by (cases p) auto
  have "elems_size (clean_elems True [] (split_on (CHR ''/'') p)) \<le> Suc (length q)"
    using clean_elems_size [of True "[]" "split_on (CHR ''/'') q"] by (simp add: p split_on_size)
  with join_with_le [of "CHR ''/''" "clean_elems True [] (split_on (CHR ''/'') p)"] True show ?thesis
    unfolding path_clean_def Let_def by (simp add: p)
next
  case False
  have "elems_size (clean_elems False [] (split_on (CHR ''/'') p)) \<le> Suc (length p)"
    using clean_elems_size [of False "[]" "split_on (CHR ''/'') p"] by (simp add: split_on_size)
  with join_with_le [of "CHR ''/''" "clean_elems False [] (split_on (CHR ''/'') p)"] False show ?thesis
    unfolding path_clean_def Let_def by (simp only: if_False) auto
qed

lemma last_index_suffix: "last_index c t = None \<Longrightarrow> last_index c (s @ t) = last_index c s"
  by (induction s) auto

lemma path_dir_suffix: "CHR ''/'' \<notin> set t \<Longrightarrow> path_dir (s @ t) = path_clean (case last_index (CHR ''/'') s of None \<Rightarrow> [] | Some i \<Rightarrow> take (Suc i) s)"
proof -
  assume "CHR ''/'' \<notin> set t"
  then have "last_index (CHR ''/'') t = None" by (induction t) auto
  then show ?thesis unfolding path_dir_def
    by (auto simp: last_index_suffix split: option.split dest: last_index_less)
qed

lemma ancestors_length: "a \<in> set (ancestors p) \<Longrightarrow> length a \<le> length p"
  by (auto simp: ancestors_def)

lemma path_dir_length: "a \<in> set (ancestors (path_dir (d @ ''/'' @ t))) \<Longrightarrow> CHR ''/'' \<notin> set t \<Longrightarrow> length a \<le> Suc (length d)"
proof -
  assume a: "a \<in> set (ancestors (path_dir (d @ ''/'' @ t)))" and t: "CHR ''/'' \<notin> set t"
  have "last_index (CHR ''/'') (d @ ''/'') = Some (length d)" by (induction d) auto
  then have "path_dir ((d @ ''/'') @ t) = path_clean (d @ ''/'')" unfolding path_dir_suffix [OF t] by simp
  with ancestors_length [OF a] path_clean_le [of "d @ ''/''"] show ?thesis by simp
qed

lemma self_ancestor: "p \<noteq> [] \<Longrightarrow> p \<in> set (ancestors p)"
  by (cases p) (auto simp: ancestors_def)

subsection \<open>What a call leaves alone\<close>

text \<open>
  Between two worlds, the path has held only nodes of the set: in every state a crash could have
  left, and in the last.
\<close>

definition stays :: "node option set \<Rightarrow> string \<Rightarrow> disk_world \<Rightarrow> disk_world \<Rightarrow> bool" where
  "stays S p w w' \<longleftrightarrow>
     (\<exists>more. Disk_Seen w' = Disk_Seen w @ more \<and> (\<forall>d \<in> set more. d p \<in> S) \<and> Disk_Now w' p \<in> S)"

abbreviation keeps :: "string \<Rightarrow> disk_world \<Rightarrow> disk_world \<Rightarrow> bool" where
  "keeps p w w' \<equiv> stays {Disk_Now w p} p w w'"

lemma stays_refl [simp]: "Disk_Now w p \<in> S \<Longrightarrow> stays S p w w"
  by (simp add: stays_def)

lemma stays_trans: "stays S p w w1 \<Longrightarrow> stays S p w1 w2 \<Longrightarrow> stays S p w w2"
  by (fastforce simp: stays_def)

lemma stays_mono: "stays S p w w' \<Longrightarrow> S \<subseteq> T \<Longrightarrow> stays T p w w'"
  by (fastforce simp: stays_def)

lemma stays_Now: "stays S p w w' \<Longrightarrow> Disk_Now w' p \<in> S"
  by (auto simp: stays_def)

lemma keeps_Now: "keeps p w w' \<Longrightarrow> Disk_Now w' p = Disk_Now w p"
  by (auto simp: stays_def)

lemma keeps_stays: "keeps p w w1 \<Longrightarrow> stays S p w1 w2 \<Longrightarrow> Disk_Now w p \<in> S \<Longrightarrow> stays S p w w2"
  by (meson stays_mono stays_trans empty_subsetI insert_subset)

lemma stays_keeps: "stays S p w w1 \<Longrightarrow> keeps p w1 w2 \<Longrightarrow> stays S p w w2"
  by (meson stays_Now stays_mono stays_trans empty_subsetI insert_subset)

lemma keeps_trans: "keeps p w w1 \<Longrightarrow> keeps p w1 w2 \<Longrightarrow> keeps p w w2"
  by (rule stays_keeps)

lemma keeps_disk_put: "p \<noteq> q \<Longrightarrow> keeps p w (disk_put q n w)"
  by (simp add: stays_def disk_put_def)

lemma disk_put_Now [simp]: "Disk_Now (disk_put p n w) = (Disk_Now w)(p \<mapsto> n)"
  by (simp add: disk_put_def)

lemma keeps_mkdirs:
  "mkdirs os ps w = (r, w') \<Longrightarrow> p \<notin> set ps \<or> Disk_Now w p \<noteq> None \<Longrightarrow> keeps p w w'"
proof (induction os ps w arbitrary: r w' rule: mkdirs.induct)
  case (2 os q ps w)
  show ?case
  proof (cases "node_at (Disk_Now w) q")
    case None
    then have q: "Disk_Now w q = None" by (simp add: node_at_def split: if_splits)
    with 2 None show ?thesis
      by (cases "p = q") (auto split: option.splits intro: keeps_trans [OF keeps_disk_put])
  next
    case (Some n)
    with 2 show ?thesis by (cases n) auto
  qed
qed simp

lemma mkdirs_done: "mkdirs os ps w = (None, w') \<Longrightarrow> q \<in> set ps \<Longrightarrow> node_at (Disk_Now w') q = Some DirNode"
proof (induction os ps w arbitrary: w' rule: mkdirs.induct)
  case (2 os p ps w)
  have kept: "mkdirs os ps w1 = (None, w') \<Longrightarrow> node_at (Disk_Now w1) p = Some DirNode
      \<Longrightarrow> node_at (Disk_Now w') p = Some DirNode" for w1
    using keeps_mkdirs [of os ps w1 None w' p] keeps_Now [of w1 p w']
    by (auto simp: node_at_def split: if_splits)
  show ?case
  proof (cases "node_at (Disk_Now w) p")
    case None
    with 2 kept [of "disk_put p DirNode w"] show ?thesis
      by (auto simp: node_at_def split: option.splits if_splits)
  next
    case (Some n)
    with 2 kept [of w] show ?thesis by (cases n) auto
  qed
qed simp

lemma keeps_write_bytes: "p \<noteq> q \<Longrightarrow> keeps p w (write_bytes q data w)"
proof -
  assume "p \<noteq> q"
  then have "keeps p w (fold (\<lambda>k. disk_put q (FileNode (take (Suc k) data))) ks w)" for ks
    by (induction ks arbitrary: w) (auto intro: keeps_trans [OF keeps_disk_put])
  then show ?thesis unfolding write_bytes_def .
qed

lemma write_bytes_Now: "Disk_Now (write_bytes p data (disk_put p (FileNode []) w)) p = Some (FileNode data)"
proof -
  have "n \<le> length data \<Longrightarrow> Disk_Now (fold (\<lambda>k. disk_put p (FileNode (take (Suc k) data))) [0..<n]
      (disk_put p (FileNode []) w)) p = Some (FileNode (take n data))" for n
    by (induction n) auto
  from this [of "length data"] show ?thesis unfolding write_bytes_def by simp
qed

lemma keeps_WriteFile: "os_WriteFile os q data w = (r, w') \<Longrightarrow> p \<noteq> q \<Longrightarrow> keeps p w w'"
  by (auto simp: os_WriteFile_def split: if_splits option.splits node.splits
      intro!: keeps_trans [OF keeps_disk_put keeps_write_bytes])

lemma WriteFile_done: "os_WriteFile os q data w = (None, w') \<Longrightarrow> Disk_Now w' q = Some (FileNode data)"
  by (auto simp: os_WriteFile_def write_bytes_Now split: if_splits option.splits node.splits)

lemma keeps_Rename: "os_Rename os a b w = (r, w') \<Longrightarrow> p \<noteq> a \<Longrightarrow> p \<noteq> b \<Longrightarrow> keeps p w w'"
  by (auto simp: os_Rename_def stays_def split: if_splits option.splits node.splits)

lemma Rename_stays:
  "os_Rename os a b w = (r, w') \<Longrightarrow> node_at (Disk_Now w) a = Some (FileNode c)
   \<Longrightarrow> stays {Disk_Now w b, Some (FileNode c)} b w w'"
  by (auto simp: os_Rename_def stays_def split: if_splits option.splits node.splits)

lemma Rename_done:
  "os_Rename os a b w = (None, w') \<Longrightarrow> node_at (Disk_Now w) a = Some (FileNode c)
   \<Longrightarrow> Disk_Now w' b = Some (FileNode c)"
  by (auto simp: os_Rename_def split: if_splits option.splits node.splits)

lemma mkdirs_free:
  "list_all (\<lambda>a. \<not> is_file (node_at (Disk_Now w) a)) ps \<Longrightarrow>
     \<exists>w'. mkdirs no_refusals ps w = (None, w')
        \<and> Disk_Now w' = (\<lambda>p. if p \<in> set ps \<and> p \<noteq> ''.'' \<and> p \<noteq> ''/'' then Some DirNode else Disk_Now w p)"
proof (induction ps arbitrary: w)
  case (Cons q ps)
  show ?case
  proof (cases "node_at (Disk_Now w) q")
    case None
    then have q: "q \<noteq> ''.''" "q \<noteq> ''/''" by (auto simp: node_at_def)
    have "list_all (\<lambda>a. \<not> is_file (node_at (Disk_Now (disk_put q DirNode w)) a)) ps"
      using Cons.prems by (auto simp: list_all_iff node_at_def)
    from Cons.IH [OF this] obtain w' where "mkdirs no_refusals ps (disk_put q DirNode w) = (None, w')"
      "Disk_Now w' = (\<lambda>p. if p \<in> set ps \<and> p \<noteq> ''.'' \<and> p \<noteq> ''/'' then Some DirNode else ((Disk_Now w)(q \<mapsto> DirNode)) p)"
      by (metis disk_put_Now)
    with None q show ?thesis by (auto simp: no_refusals_def fun_eq_iff)
  next
    case (Some n)
    with Cons.prems have n: "n = DirNode" by (cases n) auto
    have "q = ''.'' \<or> q = ''/'' \<or> Disk_Now w q = Some DirNode" using Some n by (auto simp: node_at_def split: if_splits)
    moreover obtain w' where "mkdirs no_refusals ps w = (None, w')"
      "Disk_Now w' = (\<lambda>p. if p \<in> set ps \<and> p \<noteq> ''.'' \<and> p \<noteq> ''/'' then Some DirNode else Disk_Now w p)"
      using Cons by auto
    ultimately show ?thesis using Some n by (auto simp: fun_eq_iff)
  qed
qed (simp add: fun_eq_iff)

lemma path_clean_nonempty: "path_clean p \<noteq> []"
  by (simp add: path_clean_def Let_def)

lemma node_at_file: "node_at d p = Some (FileNode c) \<Longrightarrow> d p = Some (FileNode c)"
  by (simp add: node_at_def split: if_splits)

lemma write_bytes_other: "p \<noteq> q \<Longrightarrow> Disk_Now (write_bytes q data w) p = Disk_Now w p"
  by (rule keeps_Now [OF keeps_write_bytes])

end
