(* ===== verification/Dashgen_Files.thy ===== *)
theory Dashgen_Files
  imports Dashgen_Specs Go_Disk Domain_Json
begin

text \<open>
  The generator of \<^verbatim>\<open>spt-dashgen\<close> (\<^verbatim>\<open>tools/dashgen/main.go\<close>): each document is written through a
  temporary file and a rename, or compared with the file on the disk. The theorems are on what a
  run leaves on the disk at every moment, and on what validation accepts. The YAML library is
  a parameter: whatever text it gives is what is written and compared.
\<close>

subsection \<open>Modes and encoders\<close>

type_synonym Mode = int

definition ModeWrite :: Mode where "ModeWrite = 0"
definition ModeValidate :: Mode where "ModeValidate = 1"

definition ErrDriftDetected :: err where
  "ErrDriftDetected = Sentinel ''dashgen: drift detected (run dashgen without -validate to regenerate)''"

definition marshalDashboard :: "Dashboard \<Rightarrow> err + string" where
  "marshalDashboard d =
     (case json_EncodeIndent (dashboard_json d) of
        Inl e \<Rightarrow> Inl (Errorf ''dashgen: marshal dashboard: %w'' [ArgErr e])
      | Inr text \<Rightarrow> Inr text)"

text \<open>The text of a dashboard, which the encoder never refuses: it holds no float and is at most six levels deep.\<close>

definition dashboard_text :: "Dashboard \<Rightarrow> string" where
  "dashboard_text d = layout_text (layout ''  '' [] 0 False (json_tokens (dashboard_json d))) @ [CHR 0x0A]"

lemma json_plain_slice: "(\<And>x. json_plain (f x)) \<Longrightarrow> json_plain (slice_json f xs)"
  by (simp add: slice_json_def list_all_iff)

lemma json_depth_slice: "(\<And>x. json_depth (f x) \<le> k) \<Longrightarrow> json_depth (slice_json f xs) \<le> Suc k"
  by (simp add: slice_json_def json_depth_array del: json_depth.simps(1))

lemma dashboard_json_plain: "json_plain (dashboard_json d)"
proof -
  have "json_plain (target_json t)" for t by (simp add: target_json_def omit_empty_def)
  then have "json_plain (panel_json p)" for p
    by (simp add: panel_json_def gridPos_json_def datasource_json_def fieldConfig_json_def fieldDefaults_json_def omit_empty_def
        json_plain_slice)
  then show ?thesis by (simp add: dashboard_json_def omit_empty_def list_all_iff json_plain_slice)
qed

lemma dashboard_json_depth: "json_depth (dashboard_json d) \<le> 6"
proof -
  have "json_depth (target_json t) \<le> 1" for t by (simp add: target_json_def omit_empty_def)
  then have "json_depth (slice_json target_json ts) \<le> Suc 1" for ts by (rule json_depth_slice)
  then have "json_depth (slice_json target_json ts) \<le> 2" for ts by (simp add: numeral_2_eq_2)
  then have "json_depth (panel_json p) \<le> Suc 2" for p
    unfolding panel_json_def
    by (intro json_depth_object) (simp add: gridPos_json_def datasource_json_def fieldConfig_json_def fieldDefaults_json_def omit_empty_def)
  then have "json_depth (slice_json panel_json ps) \<le> Suc (Suc 2)" for ps by (rule json_depth_slice)
  moreover have "json_depth (JArr (map JStr ts)) \<le> Suc 0" for ts by (rule json_depth_array) simp
  ultimately show ?thesis
    unfolding dashboard_json_def by (intro order_trans [OF json_depth_object [where k = 4]]) (auto simp: omit_empty_def le_SucI)
qed

lemma marshalDashboard_text: "marshalDashboard d = Inr (dashboard_text d)"
  by (simp add: marshalDashboard_def json_EncodeIndent_def json_MarshalIndent_def dashboard_text_def
      json_plain_no_error [OF dashboard_json_plain])

text \<open>What is shipped is a JSON document of the dashboard.\<close>

theorem dashboard_text_parses: "json_Unmarshal (dashboard_text d) = Inr (json_norm (dashboard_json d))"
proof -
  have "json_depth (dashboard_json d) \<le> maxNestingDepth"
    using dashboard_json_depth [of d] by (simp add: maxNestingDepth_def)
  from json_roundtrip(3) [OF dashboard_json_plain this] show ?thesis
    using marshalDashboard_text [of d] by (auto simp: marshalDashboard_def)
qed

definition marshalRules :: "(RuleGroupSpec list \<Rightarrow> err + string) \<Rightarrow> RuleGroupSpec list \<Rightarrow> err + string" where
  "marshalRules yaml_Marshal groups =
     (case yaml_Marshal groups of
        Inl e \<Rightarrow> Inl (Errorf ''dashgen: marshal rules: %w'' [ArgErr e])
      | Inr text \<Rightarrow> Inr text)"

subsection \<open>One file\<close>

definition writeAtomic :: "os_refusals \<Rightarrow> string \<Rightarrow> string \<Rightarrow> disk_world \<Rightarrow> err option \<times> disk_world" where
  "writeAtomic os target data w =
     (case os_MkdirAll os (path_dir target) w of
        (Some e, w) \<Rightarrow> (Some (Errorf ''dashgen: mkdir %s: %w'' [ArgStr (path_dir target), ArgErr e]), w)
      | (None, w) \<Rightarrow>
          let tmp = target @ ''.tmp''
          in case os_WriteFile os tmp data w of
               (Some e, w) \<Rightarrow> (Some (Errorf ''dashgen: write tmp: %w'' [ArgErr e]), w)
             | (None, w) \<Rightarrow>
                 (case os_Rename os tmp target w of
                    (Some e, w) \<Rightarrow> (Some (Errorf ''dashgen: rename %s -> %s: %w'' [ArgStr tmp, ArgStr target, ArgErr e]), w)
                  | (None, w) \<Rightarrow> (None, w)))"

definition writeOrCompare ::
    "os_refusals \<Rightarrow> string \<Rightarrow> string \<Rightarrow> Mode \<Rightarrow> string list \<Rightarrow> disk_world \<Rightarrow> err option \<times> string list \<times> disk_world" where
  "writeOrCompare os target want mode drifted w =
     (if mode = ModeWrite then
        (case writeAtomic os target want w of (e, w) \<Rightarrow> (e, drifted, w))
      else if mode = ModeValidate then
        (case os_ReadFile_at os target w of
           Inl e \<Rightarrow>
             if errors_is e fs_ErrNotExist then (None, drifted @ [target @ '' (missing)''], w)
             else (Some (Errorf ''dashgen: read %s: %w'' [ArgStr target, ArgErr e]), drifted, w)
         | Inr got \<Rightarrow> (None, if got \<noteq> want then drifted @ [target] else drifted, w))
      else (Some (Errorf ''dashgen: unknown mode %d'' [ArgInt mode]), drifted, w))"

subsection \<open>All files\<close>

text \<open>The body of both loops of \<^verbatim>\<open>Generate\<close>, on the file names with the marshalled documents.\<close>

fun generate_files ::
    "os_refusals \<Rightarrow> string \<Rightarrow> Mode \<Rightarrow> (string \<times> (err + string)) list \<Rightarrow> string list \<Rightarrow> disk_world
     \<Rightarrow> err option \<times> string list \<times> disk_world" where
  "generate_files os outDir mode [] drifted w = (None, drifted, w)"
| "generate_files os outDir mode ((file, Inl e) # fs) drifted w = (Some e, drifted, w)"
| "generate_files os outDir mode ((file, Inr want) # fs) drifted w =
     (case writeOrCompare os (path_join [outDir, file]) want mode drifted w of
        (Some e, drifted, w) \<Rightarrow> (Some e, drifted, w)
      | (None, drifted, w) \<Rightarrow> generate_files os outDir mode fs drifted w)"

definition dashboard_files :: "(string \<times> (err + string)) list" where
  "dashboard_files = map (\<lambda>s. (Spec_File s, marshalDashboard (Spec_Build s ()))) DashboardSpecs"

definition rule_files :: "(RuleGroupSpec list \<Rightarrow> err + string) \<Rightarrow> (string \<times> (err + string)) list" where
  "rule_files yaml_Marshal = map (\<lambda>rf. (RFile_File rf, marshalRules yaml_Marshal (RFile_Groups rf))) RuleFiles"

text \<open>The second result is what is printed, line by line; printing is best effort.\<close>

definition Generate ::
    "(RuleGroupSpec list \<Rightarrow> err + string) \<Rightarrow> os_refusals \<Rightarrow> string \<Rightarrow> Mode \<Rightarrow> disk_world
     \<Rightarrow> err option \<times> string list \<times> disk_world" where
  "Generate yaml_Marshal os outDir mode w =
     (case generate_files os outDir mode dashboard_files [] w of
        (Some e, _, w) \<Rightarrow> (Some e, [], w)
      | (None, drifted, w) \<Rightarrow>
          (case generate_files os outDir mode (rule_files yaml_Marshal) drifted w of
             (Some e, _, w) \<Rightarrow> (Some e, [], w)
           | (None, drifted, w) \<Rightarrow>
               if mode = ModeValidate \<and> drifted \<noteq> [] then
                 (Some ErrDriftDetected, ''drift in:'' # map (\<lambda>p. ''  - '' @ p) drifted, w)
               else (None, [], w)))"

text \<open>The command: exactly one argument, which cobra checks, and the flag \<^verbatim>\<open>--validate\<close>.\<close>

definition dashgen_RunE ::
    "(RuleGroupSpec list \<Rightarrow> err + string) \<Rightarrow> os_refusals \<Rightarrow> bool \<Rightarrow> string list \<Rightarrow> disk_world
     \<Rightarrow> err option \<times> string list \<times> disk_world" where
  "dashgen_RunE yaml_Marshal os validate args w =
     (let mode = (if validate then ModeValidate else ModeWrite)
      in Generate yaml_Marshal os (args ! 0) mode w)"

text \<open>The exit code and what goes to stderr.\<close>

definition dashgen_run :: "err option \<Rightarrow> int \<times> err option" where
  "dashgen_run r =
     (case r of
        None \<Rightarrow> (0, None)
      | Some e \<Rightarrow> if errors_is e context_Canceled then (0, None) else (1, Some e))"

subsection \<open>Files put one by one\<close>

text \<open>
  What the generator relies on when it puts its files: a file is at every moment what it was or
  what is put, it is the latter when the call returns without an error, and the other files of
  the set stay as they are throughout.
\<close>

locale atomic_files =
  fixes put :: "string \<Rightarrow> string \<Rightarrow> disk_world \<Rightarrow> err option \<times> disk_world"
    and targets :: "string set"
  assumes put_stays: "t \<in> targets \<Longrightarrow> put t data w = (r, w')
      \<Longrightarrow> stays {Disk_Now w t, Some (FileNode data)} t w w'"
    and put_done: "t \<in> targets \<Longrightarrow> put t data w = (None, w') \<Longrightarrow> Disk_Now w' t = Some (FileNode data)"
    and put_keeps: "t \<in> targets \<Longrightarrow> p \<in> targets \<Longrightarrow> p \<noteq> t \<Longrightarrow> put t data w = (r, w') \<Longrightarrow> keeps p w w'"

fun put_all ::
    "(string \<Rightarrow> string \<Rightarrow> disk_world \<Rightarrow> err option \<times> disk_world) \<Rightarrow> (string \<times> string) list \<Rightarrow> disk_world
     \<Rightarrow> err option \<times> disk_world" where
  "put_all put [] w = (None, w)"
| "put_all put ((t, data) # xs) w =
     (case put t data w of
        (Some e, w) \<Rightarrow> (Some e, w)
      | (None, w) \<Rightarrow> put_all put xs w)"

context atomic_files begin

lemma put_all_keeps:
  "put_all put xs w = (r, w') \<Longrightarrow> fst ` set xs \<subseteq> targets \<Longrightarrow> p \<in> targets \<Longrightarrow> p \<notin> fst ` set xs \<Longrightarrow> keeps p w w'"
proof (induction xs arbitrary: w)
  case (Cons x xs)
  obtain t data where x: "x = (t, data)" by (cases x)
  obtain e w1 where p: "put t data w = (e, w1)" by (cases "put t data w")
  have k: "keeps p w w1" using put_keeps [OF _ _ _ p] Cons.prems x by simp
  show ?case
  proof (cases e)
    case None
    with Cons x p have "keeps p w1 w'" by simp
    with k show ?thesis by (rule keeps_trans)
  next
    case Some
    with Cons.prems x p k show ?thesis by simp
  qed
qed simp

lemma put_all_contract:
  assumes "put_all put xs w = (r, w')" "distinct (map fst xs)" "fst ` set xs \<subseteq> targets" "(t, data) \<in> set xs"
  shows "stays {Disk_Now w t, Some (FileNode data)} t w w' \<and> (r = None \<longrightarrow> Disk_Now w' t = Some (FileNode data))"
  using assms
proof (induction xs arbitrary: w)
  case (Cons x xs)
  obtain s data' where x: "x = (s, data')" by (cases x)
  obtain e w1 where p: "put s data' w = (e, w1)" by (cases "put s data' w")
  have s: "s \<in> targets" using Cons.prems x by simp
  show ?case
  proof (cases "(t, data) \<in> set xs")
    case True
    then have "t \<noteq> s" using Cons.prems(2) x by force
    then have k: "keeps t w w1" using put_keeps [OF s _ _ p] Cons.prems(3) True by force
    show ?thesis
    proof (cases e)
      case None
      then have "put_all put xs w1 = (r, w')" using Cons.prems(1) x p by simp
      with Cons.IH [OF this] Cons.prems True k show ?thesis
        unfolding keeps_Now [OF k] by (auto intro: keeps_stays)
    next
      case Some
      with Cons.prems(1) x p k show ?thesis by (auto elim: stays_mono)
    qed
  next
    case False
    then have td: "t = s" "data = data'" using Cons.prems(4) x by auto
    note st = put_stays [OF s p, folded td]
    show ?thesis
    proof (cases e)
      case None
      then have rest: "put_all put xs w1 = (r, w')" using Cons.prems(1) x p by simp
      then have "keeps t w1 w'" using put_all_keeps Cons.prems x td s by simp
      with st put_done [OF s] p None td show ?thesis by (auto intro: stays_keeps dest: stays_Now)
    next
      case Some
      with Cons.prems(1) x p st show ?thesis by auto
    qed
  qed
qed simp

end

subsection \<open>The generator's files\<close>

definition shipped_files :: "string list" where
  "shipped_files =
     [''dashboards/api-overview.json'', ''dashboards/worker-pools.json'', ''dashboards/ebay-quota.json'',
      ''dashboards/alerts.json'', ''rules/spt-alerts.yml'']"

definition shipped_targets :: "string \<Rightarrow> string set" where
  "shipped_targets out = (\<lambda>f. path_join [out, f]) ` set shipped_files"

abbreviation all_files ::
    "(RuleGroupSpec list \<Rightarrow> err + string) \<Rightarrow> (string \<times> (err + string)) list" where
  "all_files yaml \<equiv> dashboard_files @ rule_files yaml"

lemma all_files_names: "map fst (all_files yaml) = shipped_files"
  by (simp add: dashboard_files_def rule_files_def DashboardSpecs_def RuleFiles_def shipped_files_def)

lemma all_files_name_set: "fst ` set (all_files yaml) = set shipped_files"
  by (simp only: all_files_names [of yaml, symmetric] set_map)

lemma shipped_join: "f \<in> set shipped_files \<Longrightarrow> path_join [out, f] = dir_prefix out @ f"
  by (rule path_join_prefix) (auto simp: shipped_files_def plain_elem_def)

lemma shipped_dir: "f \<in> set shipped_files \<Longrightarrow> \<exists>d t. f = d @ ''/'' @ t \<and> CHR ''/'' \<notin> set t \<and> length d \<le> 10 \<and> 15 \<le> length f"
proof -
  have "\<exists>d t. s = d @ ''/'' @ t \<and> CHR ''/'' \<notin> set t \<and> length d \<le> 10"
    if "s = d' @ ''/'' @ t'" "CHR ''/'' \<notin> set t'" "length d' \<le> 10" for s d' t' :: string
    using that by blast
  note this [of _ "''dashboards''"] this [of _ "''rules''"]
  then show "f \<in> set shipped_files \<Longrightarrow> ?thesis"
    by (simp add: shipped_files_def) auto
qed

lemma shipped_apart:
  assumes "f \<in> set shipped_files" "f' \<in> set shipped_files"
  shows "path_join [out, f] \<notin> set (ancestors (path_dir (path_join [out, f'])))"
    and "path_join [out, f] \<noteq> path_join [out, f'] @ ''.tmp''"
    and "node_at d (path_join [out, f]) = d (path_join [out, f])"
proof -
  obtain e t where f': "f' = e @ ''/'' @ t" "CHR ''/'' \<notin> set t" "length e \<le> 10"
    using shipped_dir [OF assms(2)] by blast
  have len: "15 \<le> length f" using shipped_dir [OF assms(1)] by blast
  show "path_join [out, f] \<notin> set (ancestors (path_dir (path_join [out, f'])))"
    using path_dir_length [of "dir_prefix out @ f" "dir_prefix out @ e" t] len
    unfolding shipped_join [OF assms(1)] shipped_join [OF assms(2)] unfolding f'(1) using f'(2,3) by auto
  show "path_join [out, f] \<noteq> path_join [out, f'] @ ''.tmp''"
    using assms unfolding shipped_join [OF assms(1)] shipped_join [OF assms(2)] by (auto simp: shipped_files_def)
  show "node_at d (path_join [out, f]) = d (path_join [out, f])"
    using len unfolding node_at_def shipped_join [OF assms(1)] by (cases "dir_prefix out") auto
qed

lemma shipped_inj:
  "f \<in> set shipped_files \<Longrightarrow> f' \<in> set shipped_files \<Longrightarrow> path_join [out, f] = path_join [out, f'] \<longleftrightarrow> f = f'"
  by (simp add: shipped_join)

text \<open>A write through the temporary file, and where it may stop.\<close>

lemma writeAtomic_cases:
  assumes "writeAtomic os t data w = (r, w')"
  obtains (mkdir) e where "os_MkdirAll os (path_dir t) w = (Some e, w')" "r \<noteq> None"
    | (tmp) w1 e where "os_MkdirAll os (path_dir t) w = (None, w1)"
        "os_WriteFile os (t @ ''.tmp'') data w1 = (Some e, w')" "r \<noteq> None"
    | (rename) w1 w2 r' where "os_MkdirAll os (path_dir t) w = (None, w1)"
        "os_WriteFile os (t @ ''.tmp'') data w1 = (None, w2)"
        "os_Rename os (t @ ''.tmp'') t w2 = (r', w')" "r = None \<longleftrightarrow> r' = None"
  using assms by (auto simp: writeAtomic_def Let_def split: prod.splits option.splits)

lemma writeAtomic_keeps:
  assumes "writeAtomic os t data w = (r, w')" "p \<notin> set (ancestors (path_dir t))" "p \<noteq> t" "p \<noteq> t @ ''.tmp''"
  shows "keeps p w w'"
  using assms(1)
proof (cases rule: writeAtomic_cases)
  case mkdir
  with assms show ?thesis by (auto simp: os_MkdirAll_def intro: keeps_mkdirs)
next
  case (tmp w1 e)
  with assms have "keeps p w w1" "keeps p w1 w'" by (auto simp: os_MkdirAll_def intro: keeps_mkdirs keeps_WriteFile)
  then show ?thesis by (rule keeps_trans)
next
  case (rename w1 w2 r')
  with assms have "keeps p w w1" "keeps p w1 w2" "keeps p w2 w'"
    by (auto simp: os_MkdirAll_def intro: keeps_mkdirs keeps_WriteFile keeps_Rename)
  then show ?thesis by (meson keeps_trans)
qed

lemma writeAtomic_target:
  assumes "writeAtomic os t data w = (r, w')" "t \<notin> set (ancestors (path_dir t))"
  shows "stays {Disk_Now w t, Some (FileNode data)} t w w' \<and> (r = None \<longrightarrow> Disk_Now w' t = Some (FileNode data))"
  using assms(1)
proof (cases rule: writeAtomic_cases)
  case (mkdir e)
  with assms have "keeps t w w'" by (auto simp: os_MkdirAll_def intro: keeps_mkdirs)
  with mkdir show ?thesis by (auto elim: stays_mono)
next
  case (tmp w1 e)
  with assms have "keeps t w w1" "keeps t w1 w'" by (auto simp: os_MkdirAll_def intro: keeps_mkdirs keeps_WriteFile)
  then have "keeps t w w'" by (rule keeps_trans)
  with tmp show ?thesis by (auto elim: stays_mono)
next
  case (rename w1 w2 r')
  with assms have "keeps t w w1" "keeps t w1 w2" by (auto simp: os_MkdirAll_def intro: keeps_mkdirs keeps_WriteFile)
  then have k: "keeps t w w2" by (rule keeps_trans)
  have "t @ ''.tmp'' \<noteq> ''.''" "t @ ''.tmp'' \<noteq> ''/''" by (cases t; simp)+
  then have n: "node_at (Disk_Now w2) (t @ ''.tmp'') = Some (FileNode data)"
    using WriteFile_done [OF rename(2)] by (simp add: node_at_def)
  have "stays {Disk_Now w t, Some (FileNode data)} t w w'"
    using Rename_stays [OF rename(3) n] k unfolding keeps_Now [OF k] by (auto intro: keeps_stays)
  with Rename_done [OF _ n] rename show ?thesis by auto
qed

interpretation shipped: atomic_files "writeAtomic os" "shipped_targets out"
proof
  fix t p data w r w'
  assume t: "t \<in> shipped_targets out"
  then have own: "t \<notin> set (ancestors (path_dir t))" using shipped_apart(1) by (auto simp: shipped_targets_def)
  show "writeAtomic os t data w = (r, w') \<Longrightarrow> stays {Disk_Now w t, Some (FileNode data)} t w w'"
    and "writeAtomic os t data w = (None, w') \<Longrightarrow> Disk_Now w' t = Some (FileNode data)"
    using writeAtomic_target [OF _ own] by blast+
  assume p: "p \<in> shipped_targets out" "p \<noteq> t" and r: "writeAtomic os t data w = (r, w')"
  have "p \<notin> set (ancestors (path_dir t))" "p \<noteq> t @ ''.tmp''"
    using t p(1) shipped_apart(1,2) by (auto simp: shipped_targets_def)
  with r p(2) show "keeps p w w'" by (intro writeAtomic_keeps)
qed

subsection \<open>What a run of the generator does\<close>

lemma generate_files_append:
  "generate_files os out mode (fs @ gs) dr w =
     (case generate_files os out mode fs dr w of
        (Some e, dr, w) \<Rightarrow> (Some e, dr, w)
      | (None, dr, w) \<Rightarrow> generate_files os out mode gs dr w)"
proof (induction fs arbitrary: dr w)
  case (Cons x fs)
  obtain f m where x: "x = (f, m)" by (cases x)
  show ?case
  proof (cases m)
    case (Inr want)
    with Cons x show ?thesis by (simp split: prod.splits option.splits)
  qed (simp add: x)
qed simp

lemma Generate_all_files:
  "Generate yaml os out mode w =
     (case generate_files os out mode (all_files yaml) [] w of
        (Some e, _, w) \<Rightarrow> (Some e, [], w)
      | (None, dr, w) \<Rightarrow>
          if mode = ModeValidate \<and> dr \<noteq> [] then (Some ErrDriftDetected, ''drift in:'' # map (\<lambda>p. ''  - '' @ p) dr, w)
          else (None, [], w))"
  unfolding Generate_def generate_files_append by (auto split: prod.splits option.splits)

text \<open>The files that are put: those before the first document that cannot be marshalled.\<close>

fun planned :: "string \<Rightarrow> (string \<times> (err + string)) list \<Rightarrow> (string \<times> string) list" where
  "planned out [] = []"
| "planned out ((f, Inl e) # fs) = []"
| "planned out ((f, Inr data) # fs) = (path_join [out, f], data) # planned out fs"

fun marshal_error :: "(string \<times> (err + string)) list \<Rightarrow> err option" where
  "marshal_error [] = None"
| "marshal_error ((f, Inl e) # fs) = Some e"
| "marshal_error ((f, Inr data) # fs) = marshal_error fs"

lemma generate_files_write:
  "generate_files os out ModeWrite fs dr w =
     (case put_all (writeAtomic os) (planned out fs) w of
        (Some e, w) \<Rightarrow> (Some e, dr, w)
      | (None, w) \<Rightarrow> (marshal_error fs, dr, w))"
proof (induction out fs arbitrary: w rule: planned.induct)
  case (3 out f data fs)
  then show ?case by (auto simp: writeOrCompare_def split: prod.splits option.splits)
qed simp_all

lemma planned_subset: "fst ` set (planned out fs) \<subseteq> (\<lambda>f. path_join [out, f]) ` fst ` set fs"
  by (induction out fs rule: planned.induct) auto

lemma planned_distinct:
  "inj_on (\<lambda>f. path_join [out, f]) (fst ` set fs) \<Longrightarrow> distinct (map fst fs) \<Longrightarrow> distinct (map fst (planned out fs))"
proof (induction out fs rule: planned.induct)
  case (3 out f data fs)
  then have "path_join [out, f] \<notin> (\<lambda>f. path_join [out, f]) ` fst ` set fs" by (auto simp: inj_on_def)
  with 3 planned_subset [of out fs] show ?case by auto
qed simp_all

lemma planned_complete: "marshal_error fs = None \<Longrightarrow> (f, Inr data) \<in> set fs \<Longrightarrow> (path_join [out, f], data) \<in> set (planned out fs)"
  by (induction out fs rule: planned.induct) auto

lemma marshal_error_None: "marshal_error fs = None \<Longrightarrow> (f, m) \<in> set fs \<Longrightarrow> \<exists>data. m = Inr data"
  by (induction fs rule: marshal_error.induct) auto

lemma planned_all_files:
  "distinct (map fst (planned out (all_files yaml)))"
  "fst ` set (planned out (all_files yaml)) \<subseteq> shipped_targets out"
proof -
  note names = all_files_name_set [of yaml]
  have "inj_on (\<lambda>f. path_join [out, f]) (set shipped_files)" by (rule inj_onI) (simp add: shipped_inj)
  moreover have "distinct (map fst (all_files yaml))"
    unfolding all_files_names by (simp add: shipped_files_def)
  ultimately show "distinct (map fst (planned out (all_files yaml)))"
    by (intro planned_distinct) (simp_all only: names)
  show "fst ` set (planned out (all_files yaml)) \<subseteq> shipped_targets out"
    using planned_subset [of out "all_files yaml"] unfolding shipped_targets_def names .
qed

lemma planned_from: "(t, data) \<in> set (planned out fs) \<Longrightarrow> \<exists>f. (f, Inr data) \<in> set fs \<and> t = path_join [out, f]"
  by (induction out fs rule: planned.induct) auto

text \<open>A shipped file through a whole write run.\<close>

lemma Generate_write_file:
  assumes run: "Generate yaml os out ModeWrite w = (r, printed, w')"
    and f: "(f, Inr data) \<in> set (all_files yaml)"
  shows "stays {Disk_Now w (path_join [out, f]), Some (FileNode data)} (path_join [out, f]) w w'
    \<and> (r = None \<longrightarrow> Disk_Now w' (path_join [out, f]) = Some (FileNode data))"
proof -
  let ?ps = "planned out (all_files yaml)" and ?t = "path_join [out, f]"
  obtain e w1 where pw: "put_all (writeAtomic os) ?ps w = (e, w1)" by (cases "put_all (writeAtomic os) ?ps w")
  have wr: "w1 = w'" "r = None \<longleftrightarrow> e = None \<and> marshal_error (all_files yaml) = None"
    using run pw unfolding Generate_all_files generate_files_write
    by (cases e; cases "marshal_error (all_files yaml)"; auto simp: ModeWrite_def ModeValidate_def)+
  then have p: "put_all (writeAtomic os) ?ps w = (e, w')" using pw by simp
  note r = wr(2)
  have sf: "f \<in> set shipped_files" using f unfolding all_files_name_set [of yaml, symmetric] by (rule rev_image_eqI) simp
  then have t: "?t \<in> shipped_targets out" by (simp add: shipped_targets_def)
  note all = planned_all_files [of out yaml]
  show ?thesis
  proof (cases "?t \<in> fst ` set ?ps")
    case True
    then obtain data' where d: "(?t, data') \<in> set ?ps" by auto
    then obtain f' where f': "(f', Inr data') \<in> set (all_files yaml)" "?t = path_join [out, f']" by (meson planned_from)
    have "f' \<in> set shipped_files" using f'(1) unfolding all_files_name_set [of yaml, symmetric] by (rule rev_image_eqI) simp
    then have "f' = f" using f'(2) sf shipped_inj by auto
    moreover have "distinct (map fst (all_files yaml))" unfolding all_files_names by (simp add: shipped_files_def)
    ultimately have "data' = data" using f f'(1) by (meson Inr_inject eq_key_imp_eq_value)
    with shipped.put_all_contract [OF p all d] r show ?thesis by blast
  next
    case False
    with r planned_complete [of "all_files yaml" f data out] f have "r \<noteq> None" by (metis fst_conv image_eqI)
    moreover have "keeps ?t w w'" using shipped.put_all_keeps [OF p all(2) t False] .
    ultimately show ?thesis by (auto elim: stays_mono)
  qed
qed

text \<open>What validation says of one file: the lines it reports, and whether it stops there.\<close>

fun drift_of :: "os_refusals \<Rightarrow> string \<Rightarrow> disk_world \<Rightarrow> string \<times> (err + string) \<Rightarrow> string list" where
  "drift_of os out w (f, Inl e) = []"
| "drift_of os out w (f, Inr want) =
     (case os_ReadFile_at os (path_join [out, f]) w of
        Inl e \<Rightarrow> if errors_is e fs_ErrNotExist then [path_join [out, f] @ '' (missing)''] else []
      | Inr got \<Rightarrow> if got \<noteq> want then [path_join [out, f]] else [])"

fun blocked_by :: "os_refusals \<Rightarrow> string \<Rightarrow> disk_world \<Rightarrow> string \<times> (err + string) \<Rightarrow> bool" where
  "blocked_by os out w (f, Inl e) = True"
| "blocked_by os out w (f, Inr want) =
     (case os_ReadFile_at os (path_join [out, f]) w of
        Inl e \<Rightarrow> \<not> errors_is e fs_ErrNotExist
      | Inr got \<Rightarrow> False)"

lemma writeOrCompare_validate:
  "case writeOrCompare os (path_join [out, f]) want ModeValidate dr w of
     (r, dr', w') \<Rightarrow> w' = w \<and> (r = None \<longleftrightarrow> \<not> blocked_by os out w (f, Inr want))
       \<and> (r = None \<longrightarrow> dr' = dr @ drift_of os out w (f, Inr want))"
  by (simp add: writeOrCompare_def ModeWrite_def ModeValidate_def split: sum.split)

lemma generate_files_validate:
  "generate_files os out ModeValidate fs dr w = (r, dr', w')
   \<Longrightarrow> w' = w \<and> (r = None \<longleftrightarrow> \<not> list_ex (blocked_by os out w) fs)
     \<and> (r = None \<longrightarrow> dr' = dr @ concat (map (drift_of os out w) fs))"
proof (induction fs arbitrary: dr)
  case (Cons x fs)
  obtain f m where x: "x = (f, m)" by (cases x)
  show ?case
  proof (cases m)
    case (Inr want)
    obtain r1 dr1 where c: "writeOrCompare os (path_join [out, f]) want ModeValidate dr w = (r1, dr1, w)"
        "r1 = None \<longleftrightarrow> \<not> blocked_by os out w x" "r1 = None \<Longrightarrow> dr1 = dr @ drift_of os out w x"
      using writeOrCompare_validate [where os = os and out = out and f = f and want = want and dr = dr and w = w] unfolding x Inr by blast
    show ?thesis
    proof (cases r1)
      case None
      with Cons.prems c(1) have "generate_files os out ModeValidate fs dr1 w = (r, dr', w')" by (simp add: x Inr)
      from Cons.IH [OF this] c None show ?thesis by simp
    next
      case Some
      with Cons.prems c show ?thesis by (auto simp: x Inr)
    qed
  qed (use Cons x in auto)
qed simp

lemma Generate_validate_clean:
  assumes "\<not> list_ex (blocked_by os out w) (all_files yaml)"
    "concat (map (drift_of os out w) (all_files yaml)) = []"
  shows "Generate yaml os out ModeValidate w = (None, [], w)"
proof -
  obtain r dr w' where g: "generate_files os out ModeValidate (all_files yaml) [] w = (r, dr, w')"
    by (cases "generate_files os out ModeValidate (all_files yaml) [] w")
  from generate_files_validate [OF g] assms have "r = None" "dr = []" "w' = w" by (cases r; simp)+
  then show ?thesis unfolding Generate_all_files g by simp
qed

text \<open>
  C38. Validation writes nothing, and it accepts exactly the disk that holds every shipped file
  with the bytes the generator gives it: a missing or different file is drift, all of them are
  reported, in the order of the specifications, and the run ends with the drift error; a file that
  cannot be read, or a document that cannot be marshalled, ends it with an error and no report.
\<close>
theorem Generate_validate:
  "case Generate yaml os out ModeValidate w of
     (r, printed, w') \<Rightarrow> w' = w \<and>
       (let drifted = concat (map (drift_of os out w) (all_files yaml)) in
        if list_ex (blocked_by os out w) (all_files yaml) then r \<noteq> None \<and> printed = []
        else if drifted = [] then r = None \<and> printed = []
        else r = Some ErrDriftDetected \<and> printed = ''drift in:'' # map (\<lambda>p. ''  - '' @ p) drifted)"
proof -
  obtain r dr w' where g: "generate_files os out ModeValidate (all_files yaml) [] w = (r, dr, w')"
    by (cases "generate_files os out ModeValidate (all_files yaml) [] w")
  note v = generate_files_validate [OF g]
  show ?thesis
  proof (cases r)
    case None
    with v have "dr = concat (map (drift_of os out w) (all_files yaml))" "w' = w"
      "\<not> list_ex (blocked_by os out w) (all_files yaml)" by simp_all
    then show ?thesis unfolding Generate_all_files g None by (auto simp del: list_ex_append map_append)
  next
    case (Some e)
    with v have "list_ex (blocked_by os out w) (all_files yaml)" "w' = w" by simp_all
    then show ?thesis unfolding Generate_all_files g Some by (simp del: list_ex_append map_append)
  qed
qed

text \<open>
  C37. Generation is safe against a crash and agrees with validation: whenever the run is
  stopped, and however it ends, each shipped file is either what it was before the run or complete;
  after a run without an error, where nothing refuses the reading, validation accepts the
  disk.
\<close>
theorem Generate_write:
  assumes "Generate yaml os out ModeWrite w = (r, printed, w')"
  shows "list_all (\<lambda>(f, doc). case doc of
        Inl _ \<Rightarrow> True
      | Inr data \<Rightarrow> stays {Disk_Now w (path_join [out, f]), Some (FileNode data)} (path_join [out, f]) w w')
      (all_files yaml)
    \<and> (r = None \<and> (\<forall>p. Refuse_Read os p = None)
       \<longrightarrow> Generate yaml os out ModeValidate w' = (None, [], w'))"
proof (intro conjI impI)
  note each = Generate_write_file [OF assms]
  show "list_all (\<lambda>(f, doc). case doc of
        Inl _ \<Rightarrow> True
      | Inr data \<Rightarrow> stays {Disk_Now w (path_join [out, f]), Some (FileNode data)} (path_join [out, f]) w w')
      (all_files yaml)"
    using each unfolding list_all_iff by (fastforce split: sum.splits)
  assume ok: "r = None \<and> (\<forall>p. Refuse_Read os p = None)"
  have "\<not> blocked_by os out w' x \<and> drift_of os out w' x = []" if x: "x \<in> set (all_files yaml)" for x
  proof -
    obtain f m where fm: "x = (f, m)" by (cases x)
    have "marshal_error (all_files yaml) = None"
      using assms ok unfolding Generate_all_files generate_files_write
      by (auto simp: ModeWrite_def ModeValidate_def split: prod.splits option.splits)
    then obtain data where m: "m = Inr data" using marshal_error_None x fm by blast
    have "f \<in> set shipped_files" using x unfolding all_files_name_set [of yaml, symmetric] fm by (rule rev_image_eqI) simp
    then have "node_at (Disk_Now w') (path_join [out, f]) = Some (FileNode data)"
      using each [of f data] x ok unfolding fm m by (simp add: shipped_apart(3))
    then show ?thesis using ok by (simp add: fm m os_ReadFile_at_def)
  qed
  then have "\<not> list_ex (blocked_by os out w') (all_files yaml)"
    "concat (map (drift_of os out w') (all_files yaml)) = []"
    unfolding list_ex_iff concat_eq_Nil_conv by auto
  then show "Generate yaml os out ModeValidate w' = (None, [], w')"
    by (rule Generate_validate_clean)
qed

text \<open>
  The name of the temporary file is fixed, so two runs at once share it: one that opens it
  between the other's write and rename has the other move an empty file onto the target.
\<close>

lemma concurrent_runs_expose_empty:
  assumes "os_WriteFile no_refusals (t @ ''.tmp'') data w = (None, w1)" and "node_at (Disk_Now w1) t \<noteq> Some DirNode"
  shows "\<exists>w3. os_Rename no_refusals (t @ ''.tmp'') t (disk_put (t @ ''.tmp'') (FileNode []) w1) = (None, w3)
    \<and> Disk_Now w3 t = Some (FileNode [])"
  using assms(2) by (cases t) (auto simp: os_Rename_def node_at_def no_refusals_def)

subsection \<open>A run that nothing is in the way of\<close>

definition clear_for :: "string \<Rightarrow> disk \<Rightarrow> bool" where
  "clear_for t d \<longleftrightarrow>
     list_all (\<lambda>a. \<not> is_file (node_at d a)) (ancestors (path_dir t)) \<and> d t \<noteq> Some DirNode \<and> d (t @ ''.tmp'') \<noteq> Some DirNode"

lemma tmp_dir: "path_dir (t @ ''.tmp'') = path_dir t"
  using path_dir_suffix [of "''.tmp''" t] by (simp add: path_dir_def)

lemma writeAtomic_clear:
  assumes clear: "clear_for t (Disk_Now w)" and t: "t \<noteq> ''.''" "t \<noteq> ''/''"
    and own: "t \<notin> set (ancestors (path_dir t))" "t @ ''.tmp'' \<notin> set (ancestors (path_dir t))"
  shows "\<exists>w'. writeAtomic no_refusals t data w = (None, w')
    \<and> (\<forall>p. Disk_Now w' p \<in> {Disk_Now w p, Some DirNode} \<and> p \<in> set (ancestors (path_dir t))
        \<or> Disk_Now w' p \<in> {Disk_Now w p, None} \<and> p \<noteq> t \<or> p = t \<and> is_file (Disk_Now w' p))"
proof -
  obtain w1 where m: "os_MkdirAll no_refusals (path_dir t) w = (None, w1)"
    and d1: "Disk_Now w1 = (\<lambda>p. if p \<in> set (ancestors (path_dir t)) \<and> p \<noteq> ''.'' \<and> p \<noteq> ''/'' then Some DirNode else Disk_Now w p)"
    using mkdirs_free clear unfolding os_MkdirAll_def clear_for_def by blast
  have "path_dir t \<in> set (ancestors (path_dir t))"
    unfolding path_dir_def by (rule self_ancestor [OF path_clean_nonempty])
  then have dir: "node_at (Disk_Now w1) (path_dir t) = Some DirNode" by (simp add: node_at_def d1)
  have tmp: "t @ ''.tmp'' \<noteq> ''.''" "t @ ''.tmp'' \<noteq> ''/''" by (cases t; simp)+
  define w2 where "w2 = write_bytes (t @ ''.tmp'') data (disk_put (t @ ''.tmp'') (FileNode []) w1)"
  have w: "os_WriteFile no_refusals (t @ ''.tmp'') data w1 = (None, w2)"
    using clear dir own(2) tmp unfolding os_WriteFile_def tmp_dir w2_def
    by (simp add: clear_for_def node_at_def d1 no_refusals_def)
  have d2: "Disk_Now w2 p = (if p = t @ ''.tmp'' then Some (FileNode data) else Disk_Now w1 p)" for p
    by (simp add: w2_def write_bytes_Now write_bytes_other)
  then have n: "node_at (Disk_Now w2) (t @ ''.tmp'') = Some (FileNode data)" "node_at (Disk_Now w2) t \<noteq> Some DirNode"
    using clear own(1) tmp t by (simp_all add: node_at_def clear_for_def d1)
  then obtain w3 where r: "os_Rename no_refusals (t @ ''.tmp'') t w2 = (None, w3)"
    and d3: "Disk_Now w3 = ((Disk_Now w2)(t @ ''.tmp'' := None))(t \<mapsto> FileNode data)"
    by (simp add: os_Rename_def no_refusals_def)
  have "writeAtomic no_refusals t data w = (None, w3)"
    using m w r by (simp add: writeAtomic_def)
  then show ?thesis using d2 by (auto simp: d3 d1)
qed

lemma tmp_apart:
  assumes "f \<in> set shipped_files" "f' \<in> set shipped_files"
  shows "path_join [out, f] @ ''.tmp'' \<notin> set (ancestors (path_dir (path_join [out, f'])))"
proof -
  obtain e t where f': "f' = e @ ''/'' @ t" "CHR ''/'' \<notin> set t" "length e \<le> 10"
    using shipped_dir [OF assms(2)] by blast
  have "15 \<le> length f" using shipped_dir [OF assms(1)] by blast
  then show ?thesis
    using path_dir_length [of "(dir_prefix out @ f) @ ''.tmp''" "dir_prefix out @ e" t]
    unfolding shipped_join [OF assms(1)] shipped_join [OF assms(2)] unfolding f'(1) using f'(2,3) by auto
qed

lemma put_all_clear:
  "(\<And>f. f \<in> set shipped_files \<Longrightarrow> clear_for (path_join [out, f]) (Disk_Now w)) \<Longrightarrow> fst ` set xs \<subseteq> shipped_targets out
   \<Longrightarrow> \<exists>w'. put_all (writeAtomic no_refusals) xs w = (None, w')"
proof (induction xs arbitrary: w)
  case (Cons x xs)
  obtain t data where x: "x = (t, data)" by (cases x)
  obtain f where f: "f \<in> set shipped_files" "t = path_join [out, f]" using Cons.prems(2) x by (auto simp: shipped_targets_def)
  have "node_at Map.empty t = None" using shipped_apart(3) [OF f(1) f(1), of Map.empty out] f(2) by simp
  then have "t \<noteq> ''.''" "t \<noteq> ''/''" by (auto simp: node_at_def)
  then obtain w1 where w1: "writeAtomic no_refusals t data w = (None, w1)"
    and d: "\<And>p. Disk_Now w1 p \<in> {Disk_Now w p, Some DirNode} \<and> p \<in> set (ancestors (path_dir t))
        \<or> Disk_Now w1 p \<in> {Disk_Now w p, None} \<and> p \<noteq> t \<or> p = t \<and> is_file (Disk_Now w1 p)"
    using writeAtomic_clear [of t w data] Cons.prems(1) [OF f(1)] shipped_apart(1) [OF f(1) f(1)] tmp_apart [OF f(1) f(1)] f(2)
    by blast
  have "clear_for (path_join [out, g]) (Disk_Now w1)" if g: "g \<in> set shipped_files" for g
  proof -
    let ?s = "path_join [out, g]"
    note c = Cons.prems(1) [OF g, unfolded clear_for_def list_all_iff]
    note apart = shipped_apart(1) [OF f(1) g, of out, folded f(2)] shipped_apart(1) [OF g f(1), of out, folded f(2)]
      tmp_apart [OF g f(1), of out, folded f(2)]
    have "\<not> is_file (node_at (Disk_Now w1) a)" if "a \<in> set (ancestors (path_dir ?s))" for a
      using d [of a] c that apart(1) by (auto simp: node_at_def)
    moreover have "Disk_Now w1 ?s \<noteq> Some DirNode" using d [of ?s] c apart(2) by auto
    moreover have "Disk_Now w1 (?s @ ''.tmp'') \<noteq> Some DirNode" using d [of "?s @ ''.tmp''"] c apart(3) by auto
    ultimately show ?thesis by (simp add: clear_for_def list_all_iff)
  qed
  with Cons.IH [of w1] Cons.prems(2) show ?case by (simp add: x w1)
qed simp

lemma Generate_succeeds:
  assumes "\<And>f. f \<in> set shipped_files \<Longrightarrow> clear_for (path_join [out, f]) (Disk_Now w)"
    and "marshal_error (all_files yaml) = None"
  shows "\<exists>w'. Generate yaml no_refusals out ModeWrite w = (None, [], w')"
proof -
  obtain w' where "put_all (writeAtomic no_refusals) (planned out (all_files yaml)) w = (None, w')"
    using put_all_clear assms(1) planned_all_files(2) by blast
  then show ?thesis unfolding Generate_all_files generate_files_write using assms(2)
    by (simp add: ModeWrite_def ModeValidate_def)
qed

lemma Generate_write_witness:
  "\<exists>w'. Generate (\<lambda>_. Inr ''groups'') no_refusals ''out'' ModeWrite \<lparr>Disk_Now = Map.empty, Disk_Seen = []\<rparr>
       = (None, [], w')
     \<and> Generate (\<lambda>_. Inr ''groups'') no_refusals ''out'' ModeValidate w' = (None, [], w')"
proof -
  let ?yaml = "\<lambda>_. Inr ''groups''"
  have "marshal_error (all_files ?yaml) = None"
    by (simp add: dashboard_files_def rule_files_def DashboardSpecs_def RuleFiles_def marshalDashboard_text marshalRules_def)
  moreover have "clear_for t Map.empty" for t by (simp add: clear_for_def node_at_def list_all_iff)
  ultimately obtain w' where run: "Generate ?yaml no_refusals ''out'' ModeWrite \<lparr>Disk_Now = Map.empty, Disk_Seen = []\<rparr>
      = (None, [], w')"
    using Generate_succeeds [of "''out''" "\<lparr>Disk_Now = Map.empty, Disk_Seen = []\<rparr>" ?yaml] by auto
  with Generate_write [OF run] show ?thesis by (simp add: no_refusals_def)
qed

end
