(* ===== verification/Dashgen_Document.thy ===== *)
theory Dashgen_Document
  imports Dashgen_Files
begin

text \<open>
  Reading what \<^verbatim>\<open>spt-dashgen\<close> wrote: the JSON text of a dashboard, decoded into the builder's
  types, is the dashboard it was written from, whatever panels it was built with.
\<close>

subsection \<open>Reading a dashboard back\<close>

text \<open>
  \<^verbatim>\<open>json.Unmarshal\<close> into the builder's own types, by their struct tags: what a reader of the file,
  such as the generator's test, gets. A member that \<^verbatim>\<open>omitempty\<close> left out is the zero value, null an
  empty list.
\<close>

definition dec_GridPos :: "json \<Rightarrow> GridPos option" where
  "dec_GridPos j =
     (case json_object j of
        None \<Rightarrow> None
      | Some kvs \<Rightarrow>
          (case (decode_field dec_int64 0 (json_members ''h'' kvs), decode_field dec_int64 0 (json_members ''w'' kvs),
                 decode_field dec_int64 0 (json_members ''x'' kvs), decode_field dec_int64 0 (json_members ''y'' kvs)) of
             (Some h, Some w, Some x, Some y) \<Rightarrow> Some \<lparr>Grid_H = h, Grid_W = w, Grid_X = x, Grid_Y = y\<rparr>
           | _ \<Rightarrow> None))"

definition dec_Datasource :: "json \<Rightarrow> Datasource option" where
  "dec_Datasource j =
     (case json_object j of
        None \<Rightarrow> None
      | Some kvs \<Rightarrow>
          (case (decode_field dec_string '''' (json_members ''type'' kvs), decode_field dec_string '''' (json_members ''uid'' kvs)) of
             (Some t, Some u) \<Rightarrow> Some \<lparr>Source_Type = t, Source_UID = u\<rparr>
           | _ \<Rightarrow> None))"

definition dec_Target :: "json \<Rightarrow> Target option" where
  "dec_Target j =
     (case json_object j of
        None \<Rightarrow> None
      | Some kvs \<Rightarrow>
          (case (decode_field dec_string '''' (json_members ''expr'' kvs),
                 decode_field dec_string '''' (json_members ''legendFormat'' kvs),
                 decode_field dec_string '''' (json_members ''refId'' kvs)) of
             (Some e, Some l, Some r) \<Rightarrow> Some \<lparr>Target_Expr = e, Target_LegendFormat = l, Target_RefID = r\<rparr>
           | _ \<Rightarrow> None))"

definition dec_FieldDefaults :: "json \<Rightarrow> FieldDefaults option" where
  "dec_FieldDefaults j =
     (case json_object j of
        None \<Rightarrow> None
      | Some kvs \<Rightarrow>
          (case (decode_field dec_string '''' (json_members ''unit'' kvs),
                 decode_field dec_int64 0 (json_members ''decimals'' kvs)) of
             (Some u, Some n) \<Rightarrow> Some \<lparr>Defaults_Unit = u, Defaults_Decimals = n\<rparr>
           | _ \<Rightarrow> None))"

definition dec_FieldConfig :: "json \<Rightarrow> FieldConfig option" where
  "dec_FieldConfig j =
     (case json_object j of
        None \<Rightarrow> None
      | Some kvs \<Rightarrow>
          map_option (\<lambda>f. \<lparr>Field_Defaults = f\<rparr>)
            (decode_field dec_FieldDefaults \<lparr>Defaults_Unit = '''', Defaults_Decimals = 0\<rparr> (json_members ''defaults'' kvs)))"

definition dec_Panel :: "json \<Rightarrow> Panel option" where
  "dec_Panel j =
     (case json_object j of
        None \<Rightarrow> None
      | Some kvs \<Rightarrow>
          (case (decode_field dec_string '''' (json_members ''title'' kvs), decode_field dec_string '''' (json_members ''type'' kvs),
                 decode_field dec_int64 0 (json_members ''id'' kvs),
                 decode_field dec_GridPos \<lparr>Grid_H = 0, Grid_W = 0, Grid_X = 0, Grid_Y = 0\<rparr> (json_members ''gridPos'' kvs),
                 decode_field dec_Datasource \<lparr>Source_Type = '''', Source_UID = ''''\<rparr> (json_members ''datasource'' kvs),
                 decode_slice dec_Target [] (json_members ''targets'' kvs),
                 decode_field dec_FieldConfig no_field_config (json_members ''fieldConfig'' kvs)) of
             (Some t, Some ty, Some i, Some g, Some s, Some ts, Some f) \<Rightarrow>
               Some \<lparr>Panel_Title = t, Panel_Type = ty, Panel_ID = i, Panel_GridPos = g, Panel_Datasource = s,
                     Panel_Targets = ts, Panel_FieldConfig = f\<rparr>
           | _ \<Rightarrow> None))"

definition dec_Dashboard :: "json \<Rightarrow> Dashboard option" where
  "dec_Dashboard j =
     (case json_object j of
        None \<Rightarrow> None
      | Some kvs \<Rightarrow>
          (case (decode_field dec_string '''' (json_members ''title'' kvs), decode_field dec_string '''' (json_members ''uid'' kvs),
                 decode_slice dec_string [] (json_members ''tags'' kvs),
                 decode_field dec_string '''' (json_members ''timezone'' kvs),
                 decode_field dec_string '''' (json_members ''refresh'' kvs),
                 decode_field dec_int64 0 (json_members ''schemaVersion'' kvs),
                 decode_field dec_int64 0 (json_members ''version'' kvs),
                 decode_slice dec_Panel [] (json_members ''panels'' kvs)) of
             (Some t, Some u, Some tags, Some z, Some r, Some sv, Some v, Some ps) \<Rightarrow>
               Some \<lparr>Dash_Title = t, Dash_UID = u, Dash_Tags = tags, Dash_Timezone = z, Dash_Refresh = r,
                     Dash_SchemaVersion = sv, Dash_Version = v, Dash_Panels = ps\<rparr>
           | _ \<Rightarrow> None))"

text \<open>A value Go can hold and JSON can carry: integers of 64 bits, strings in UTF-8.\<close>

definition target_ok :: "Target \<Rightarrow> bool" where
  "target_ok t \<longleftrightarrow> list_all valid_utf8 [Target_Expr t, Target_LegendFormat t, Target_RefID t]"

definition panel_plain :: "Panel \<Rightarrow> bool" where
  "panel_plain p \<longleftrightarrow>
     list_all valid_utf8 [Panel_Title p, Panel_Type p, Source_Type (Panel_Datasource p), Source_UID (Panel_Datasource p),
       Defaults_Unit (Field_Defaults (Panel_FieldConfig p))]
   \<and> list_all int64_range [Panel_ID p, Grid_H (Panel_GridPos p), Grid_W (Panel_GridPos p), Grid_X (Panel_GridPos p),
       Grid_Y (Panel_GridPos p), Defaults_Decimals (Field_Defaults (Panel_FieldConfig p))]
   \<and> list_all target_ok (Panel_Targets p)"

definition dashboard_plain :: "Dashboard \<Rightarrow> bool" where
  "dashboard_plain d \<longleftrightarrow>
     list_all valid_utf8 ([Dash_Title d, Dash_UID d, Dash_Timezone d, Dash_Refresh d] @ Dash_Tags d)
   \<and> int64_range (Dash_SchemaVersion d) \<and> int64_range (Dash_Version d) \<and> list_all panel_plain (Dash_Panels d)"

lemma json_members_simps:
  "json_members n [] = []"
  "json_members n ((k, v) # kvs) = (if equal_fold n k then v # json_members n kvs else json_members n kvs)"
  "json_members n (kvs @ kvs') = json_members n kvs @ json_members n kvs'"
  by (simp_all add: json_members_def)

lemmas readback_simps = json_members_simps omit_empty_def valid_utf8_def is_ascii_def ascii_lower_def

lemma dec_GridPos_again:
  "list_all int64_range [Grid_H g, Grid_W g, Grid_X g, Grid_Y g] \<Longrightarrow> dec_GridPos (json_norm (gridPos_json g)) = Some g"
  by (simp add: gridPos_json_def dec_GridPos_def readback_simps del: to_valid.simps)

lemma dec_Datasource_again:
  "list_all valid_utf8 [Source_Type s, Source_UID s] \<Longrightarrow> dec_Datasource (json_norm (datasource_json s)) = Some s"
  by (simp add: datasource_json_def dec_Datasource_def readback_simps del: to_valid.simps)

lemma dec_Target_again: "target_ok t \<Longrightarrow> dec_Target (json_norm (target_json t)) = Some t"
  by (simp add: target_json_def dec_Target_def target_ok_def readback_simps del: to_valid.simps)

lemma dec_FieldDefaults_again:
  "valid_utf8 (Defaults_Unit f) \<Longrightarrow> int64_range (Defaults_Decimals f) \<Longrightarrow>
     dec_FieldDefaults (json_norm (fieldDefaults_json f)) = Some f"
  by (simp add: fieldDefaults_json_def dec_FieldDefaults_def readback_simps del: to_valid.simps)

lemma not_null:
  "json_norm (fieldDefaults_json f) \<noteq> JNull" "json_norm (fieldConfig_json c) \<noteq> JNull"
  "json_norm (gridPos_json g) \<noteq> JNull" "json_norm (datasource_json s) \<noteq> JNull"
  by (simp_all add: fieldDefaults_json_def fieldConfig_json_def gridPos_json_def datasource_json_def)

lemma dec_FieldConfig_again:
  "valid_utf8 (Defaults_Unit (Field_Defaults f)) \<Longrightarrow> int64_range (Defaults_Decimals (Field_Defaults f)) \<Longrightarrow>
     dec_FieldConfig (json_norm (fieldConfig_json f)) = Some f"
  using dec_FieldDefaults_again [of "Field_Defaults f"]
  by (simp add: fieldConfig_json_def dec_FieldConfig_def not_null readback_simps del: to_valid.simps)

lemma fold_AddPanel:
  "fold AddPanel ps (New_Dashboard title uid) =
     \<lparr>Dash_Title = title, Dash_UID = uid, Dash_Tags = [''spt''], Dash_Timezone = ''browser'',
      Dash_Refresh = ''30s'', Dash_SchemaVersion = 38, Dash_Version = 1, Dash_Panels = ps\<rparr>"
proof (induction ps rule: rev_induct)
  case Nil
  show ?case by (simp add: New_Dashboard_def)
next
  case (snoc p ps)
  then show ?case by (simp add: AddPanel_def)
qed

lemma decode_slice_again:
  assumes "\<And>x. x \<in> set xs \<Longrightarrow> dec (json_norm (enc x)) = Some x"
  shows "decode_slice dec [] [json_norm (slice_json enc xs)] = Some xs"
  using those_map_Some [of xs "\<lambda>x. dec (json_norm (enc x))" id] assms by (simp add: slice_json_def comp_def)

lemma dec_Panel_again:
  assumes "panel_plain p"
  shows "dec_Panel (json_norm (panel_json p)) = Some p"
proof -
  have "decode_slice dec_Target [] [json_norm (slice_json target_json (Panel_Targets p))] = Some (Panel_Targets p)"
    using assms by (intro decode_slice_again dec_Target_again) (simp add: panel_plain_def list_all_iff)
  then show ?thesis
    using assms dec_GridPos_again [of "Panel_GridPos p"] dec_Datasource_again [of "Panel_Datasource p"]
      dec_FieldConfig_again [of "Panel_FieldConfig p"]
    by (simp add: panel_json_def dec_Panel_def panel_plain_def not_null readback_simps
        del: to_valid.simps decode_slice.simps)
qed

lemma dec_Dashboard_again:
  assumes "dashboard_plain d"
  shows "dec_Dashboard (json_norm (dashboard_json d)) = Some d"
proof -
  have ps: "decode_slice dec_Panel [] [json_norm (slice_json panel_json (Dash_Panels d))] = Some (Dash_Panels d)"
    using assms by (intro decode_slice_again dec_Panel_again) (simp add: dashboard_plain_def list_all_iff)
  have tags: "those (map (\<lambda>x. dec_string (JStr (to_valid x))) (Dash_Tags d)) = Some (Dash_Tags d)"
    using those_map_Some [of "Dash_Tags d" "\<lambda>x. dec_string (JStr (to_valid x))" id] assms
    by (auto simp: dashboard_plain_def list_all_iff valid_utf8_def)
  show ?thesis
    using assms ps tags
    by (cases "Dash_Tags d = []")
      (simp_all add: dashboard_json_def dec_Dashboard_def dashboard_plain_def readback_simps comp_def
        del: to_valid.simps)
qed

text \<open>
  C39. A dashboard survives the file: the text the generator writes for a dashboard, built from any
  panels, queries, legends and units whatever characters they hold, is a JSON document that decodes to
  that very dashboard, every field of it and its panels in order; so two different dashboards never
  give the same text, and the byte comparison of \<^verbatim>\<open>-validate\<close> tells them apart. For the builder:
  what is read has the title and identifier given to \<open>New\<close>, the fixed metadata, and the panels in
  the order of the calls of \<open>AddPanel\<close>.
\<close>
theorem dashboard_roundtrip:
  assumes "dashboard_plain d"
  shows "\<exists>txt j. marshalDashboard d = Inr txt \<and> json_Unmarshal txt = Inr j \<and> dec_Dashboard j = Some d
    \<and> (\<forall>d'. dashboard_plain d' \<and> marshalDashboard d' = Inr txt \<longrightarrow> d' = d)
    \<and> (\<forall>title uid ps. d = fold AddPanel ps (New_Dashboard title uid) \<longrightarrow>
         dec_Dashboard j = Some \<lparr>Dash_Title = title, Dash_UID = uid, Dash_Tags = [''spt''], Dash_Timezone = ''browser'',
           Dash_Refresh = ''30s'', Dash_SchemaVersion = 38, Dash_Version = 1, Dash_Panels = ps\<rparr>)"
proof (intro exI conjI allI impI)
  have parses: "json_Unmarshal (dashboard_text e) = Inr (json_norm (dashboard_json e))" for e
    by (rule dashboard_text_parses)
  show "marshalDashboard d = Inr (dashboard_text d)" by (rule marshalDashboard_text)
  show "json_Unmarshal (dashboard_text d) = Inr (json_norm (dashboard_json d))" by (rule parses)
  show d: "dec_Dashboard (json_norm (dashboard_json d)) = Some d" by (rule dec_Dashboard_again [OF assms])
  show "d' = d" if "dashboard_plain d' \<and> marshalDashboard d' = Inr (dashboard_text d)" for d'
  proof -
    from that have "dashboard_text d' = dashboard_text d" by (simp add: marshalDashboard_text)
    with parses [of d] parses [of d'] have "json_norm (dashboard_json d') = json_norm (dashboard_json d)" by simp
    with d dec_Dashboard_again [of d'] that show ?thesis by simp
  qed
  fix title uid ps assume "d = fold AddPanel ps (New_Dashboard title uid)"
  then show "dec_Dashboard (json_norm (dashboard_json d)) = Some \<lparr>Dash_Title = title, Dash_UID = uid, Dash_Tags = [''spt''],
      Dash_Timezone = ''browser'', Dash_Refresh = ''30s'', Dash_SchemaVersion = 38, Dash_Version = 1, Dash_Panels = ps\<rparr>"
    using d by (simp add: fold_AddPanel)
qed

text \<open>The dashboard of the API, with quotes, angle brackets and legends in its queries.\<close>

theorem dashboard_roundtrip_witness:
  "(\<exists>txt j. marshalDashboard buildAPIOverview = Inr txt \<and> json_Unmarshal txt = Inr j \<and> dec_Dashboard j = Some buildAPIOverview)
    \<and> marshalDashboard buildEbayQuota \<noteq> marshalDashboard buildAPIOverview"
proof -
  have plain: "dashboard_plain buildAPIOverview" "dashboard_plain buildEbayQuota" by code_simp+
  have "Dash_UID buildEbayQuota \<noteq> Dash_UID buildAPIOverview" by code_simp
  then have "buildEbayQuota \<noteq> buildAPIOverview" by auto
  with dashboard_roundtrip [OF plain(1)] plain(2) show ?thesis by (metis sum.inject(2))
qed

end
