(* ===== verification/Tool_Commands.thy ===== *)
theory Tool_Commands
  imports Mock_Server Cli_Commands
begin

text \<open>
  The commands around the developer tools: the mock server's own logger (\<^verbatim>\<open>logger.go\<close>), its
  command \<^verbatim>\<open>serve\<close> with the goroutine that listens (\<^verbatim>\<open>main.go\<close>) as a step relation, and for every
  tool its root command and the exit code of its \<^verbatim>\<open>run\<close>.
\<close>

subsection \<open>The mock server's logger\<close>

definition mock_logFormatText :: string where "mock_logFormatText = ''text''"
definition mock_logFormatJSON :: string where "mock_logFormatJSON = ''json''"
definition mock_logFormatAuto :: string where "mock_logFormatAuto = ''auto''"

definition errUnknownLogFormat :: err where
  "errUnknownLogFormat = Sentinel ''mock-server: unknown log format''"

definition mock_parseLevel :: "string \<Rightarrow> err + Level" where
  "mock_parseLevel s =
     (let l = to_lower s
      in if l = ''debug'' then Inr LevelDebug
         else if l = ''info'' \<or> l = '''' then Inr LevelInfo
         else if l = ''warn'' \<or> l = ''warning'' then Inr LevelWarn
         else if l = ''error'' then Inr LevelError
         else Inl (Errorf ''mock-server: unknown log level %q'' [ArgQuoted s]))"

text \<open>A nil \<^verbatim>\<open>*os.File\<close> has no valid descriptor, so it is no terminal.\<close>

definition mock_resolveFormat :: "(nat \<Rightarrow> bool) \<Rightarrow> writer \<Rightarrow> string \<Rightarrow> string" where
  "mock_resolveFormat is_tty w format =
     (let f = to_lower format
      in if f = mock_logFormatText then mock_logFormatText
         else if f = mock_logFormatJSON then mock_logFormatJSON
         else if f = '''' \<or> f = mock_logFormatAuto then
           (case w of
              File fd \<Rightarrow> if is_tty fd then mock_logFormatText else mock_logFormatJSON
            | _ \<Rightarrow> mock_logFormatJSON)
         else format)"

definition mock_newLogger :: "(nat \<Rightarrow> bool) \<Rightarrow> writer \<Rightarrow> string \<Rightarrow> string \<Rightarrow> err + Logger" where
  "mock_newLogger is_tty w format level =
     (case mock_parseLevel level of
        Inl e \<Rightarrow> Inl e
      | Inr lvl \<Rightarrow>
          let f = mock_resolveFormat is_tty w format
          in if f = mock_logFormatText then Inr \<lparr>Logger_Handler = ''TextHandler'', Logger_Level = lvl, Logger_Attrs = []\<rparr>
             else if f = mock_logFormatJSON then Inr \<lparr>Logger_Handler = ''JSONHandler'', Logger_Level = lvl, Logger_Attrs = []\<rparr>
             else Inl (Errorf ''%w: %q'' [ArgErr errUnknownLogFormat, ArgQuoted format]))"

subsection \<open>The mock server's command\<close>

record serveFlags =
  MFlag_port :: int
  MFlag_scenario :: string
  MFlag_logFormat :: string
  MFlag_logLevel :: string
  MFlag_fixturesDir :: string
  MFlag_tokenExpires :: duration

definition serve_flag_defaults :: serveFlags where
  "serve_flag_defaults =
     \<lparr>MFlag_port = 8080, MFlag_scenario = ''default'', MFlag_logFormat = ''auto'', MFlag_logLevel = ''info'',
      MFlag_fixturesDir = '''', MFlag_tokenExpires = 2 * Hour\<rparr>"

text \<open>Up to the server: the logger on standard error, then the fixtures.\<close>

definition serve_begin ::
    "(nat \<Rightarrow> bool) \<Rightarrow> golib \<Rightarrow> fsys \<Rightarrow> (string \<Rightarrow> fsys) \<Rightarrow> instant \<Rightarrow> serveFlags \<Rightarrow> err + 're Server" where
  "serve_begin is_tty lib fixturesFS dirFS now f =
     (case mock_newLogger is_tty (File 2) (MFlag_logFormat f) (MFlag_logLevel f) of
        Inl e \<Rightarrow> Inl e
      | Inr logger \<Rightarrow>
          let opts = \<lparr>MOpt_Logger = Some (Logger_Handler logger), MOpt_Scenario = MFlag_scenario f,
                      MOpt_FixturesDir = MFlag_fixturesDir f, MOpt_TokenExpires = MFlag_tokenExpires f\<rparr>
          in NewServer lib fixturesFS dirFS now opts)"

text \<open>
  Beside the listening goroutine, which sends what \<^verbatim>\<open>ListenAndServe\<close> returns on a channel of one
  element. That is \<^verbatim>\<open>http.ErrServerClosed\<close> only once \<^verbatim>\<open>Shutdown\<close> was called, and none of its
  errors is a cancelled context's.
\<close>

datatype mock_pc = MockSelect | MockShutdown | MockReturned "err option"

record mock_state =
  Mock_Cancelled :: bool
  Mock_Pc :: mock_pc
  Mock_Listening :: bool
  Mock_ErrCh :: "err list"

definition mock_start :: mock_state where
  "mock_start = \<lparr>Mock_Cancelled = False, Mock_Pc = MockSelect, Mock_Listening = True, Mock_ErrCh = []\<rparr>"

inductive mock_step :: "label \<Rightarrow> mock_state \<Rightarrow> mock_state \<Rightarrow> bool" where
  mock_cancel: "\<not> Mock_Cancelled s \<Longrightarrow> mock_step Env s (s\<lparr>Mock_Cancelled := True\<rparr>)"
| mock_listen_error: "Mock_Listening s \<Longrightarrow> \<not> errors_is e http_ErrServerClosed \<Longrightarrow> \<not> errors_is e context_Canceled \<Longrightarrow>
    mock_step Env s (s\<lparr>Mock_Listening := False, Mock_ErrCh := Mock_ErrCh s @ [e]\<rparr>)"
| mock_closed: "Mock_Listening s \<Longrightarrow> Mock_Pc s \<noteq> MockSelect \<Longrightarrow>
    mock_step Own s (s\<lparr>Mock_Listening := False, Mock_ErrCh := Mock_ErrCh s @ [http_ErrServerClosed]\<rparr>)"
| mock_receive: "Mock_Pc s = MockSelect \<Longrightarrow> Mock_ErrCh s = e # es \<Longrightarrow>
    mock_step Own s (s\<lparr>Mock_ErrCh := es,
      Mock_Pc := MockReturned (if errors_is e http_ErrServerClosed then None else Some (Errorf ''listen: %w'' [ArgErr e]))\<rparr>)"
| mock_ctx_done: "Mock_Pc s = MockSelect \<Longrightarrow> Mock_Cancelled s \<Longrightarrow> mock_step Own s (s\<lparr>Mock_Pc := MockShutdown\<rparr>)"
| mock_shutdown: "Mock_Pc s = MockShutdown \<Longrightarrow> mock_step Own s (s\<lparr>Mock_Pc := MockReturned None\<rparr>)"
| mock_shutdown_error: "Mock_Pc s = MockShutdown \<Longrightarrow> \<not> errors_is e context_Canceled \<Longrightarrow>
    mock_step Own s (s\<lparr>Mock_Pc := MockReturned (Some (Errorf ''shutdown: %w'' [ArgErr e]))\<rparr>)"

inductive_cases mock_stepE: "mock_step l s t"

text \<open>The possible results of the command.\<close>

inductive serve_RunE ::
    "(nat \<Rightarrow> bool) \<Rightarrow> golib \<Rightarrow> fsys \<Rightarrow> (string \<Rightarrow> fsys) \<Rightarrow> instant \<Rightarrow> serveFlags \<Rightarrow> err option \<Rightarrow> bool"
  for is_tty lib fixturesFS dirFS now f where
  serve_refused: "serve_begin is_tty lib fixturesFS dirFS now f = Inl e \<Longrightarrow>
    serve_RunE is_tty lib fixturesFS dirFS now f (Some e)"
| serve_served: "serve_begin is_tty lib fixturesFS dirFS now f = Inr srv \<Longrightarrow> run mock_step mock_start ls s \<Longrightarrow>
    Mock_Pc s = MockReturned r \<Longrightarrow> serve_RunE is_tty lib fixturesFS dirFS now f r"

subsection \<open>Roots and exit codes\<close>

definition mock_newServeCmd :: command where "mock_newServeCmd = leaf ''serve''"
definition mock_root :: command where
  "mock_root = Command ''spt-mock-server'' False False False [mock_newServeCmd]"
definition dataset_root :: command where
  "dataset_root = Command ''spt-dataset-bootstrap'' False False False [leaf ''sample'']"
definition upload_root :: command where
  "upload_root = Command ''spt-dataset-upload'' False False False [leaf ''upload'']"
definition judge_root :: command where
  "judge_root = Command ''spt-judge-bootstrap'' False False False [leaf ''list'', leaf ''apply'']"
definition regression_root :: command where
  "regression_root = Command ''spt-regression-runner'' False False False [leaf ''run'']"

text \<open>The exit code, and the error printed on standard error behind the tool's name.\<close>

definition tool_exit :: "string \<Rightarrow> err option \<Rightarrow> int \<times> (string \<times> err) option" where
  "tool_exit tool r =
     (case r of
        Some e \<Rightarrow> if errors_is e context_Canceled then (0, None) else (1, Some (tool, e))
      | None \<Rightarrow> (0, None))"

definition mock_run where "mock_run = tool_exit ''spt-mock-server''"
definition dataset_run where "dataset_run = tool_exit ''spt-dataset-bootstrap''"
definition upload_run where "upload_run = tool_exit ''spt-dataset-upload''"
definition judge_run where "judge_run = tool_exit ''spt-judge-bootstrap''"
definition regression_run where "regression_run = tool_exit ''spt-regression-runner''"

subsection \<open>What the commands promise\<close>

text \<open>
  C40. The mock server's logger is the one of the main program: for every writer, format and level
  either both make the same logger or both refuse; they only differ in which of two bad settings
  they report first, the tool the level, the program the format.
\<close>
theorem mock_newLogger_mirrors:
  "case (mock_newLogger is_tty w format level, NewLogger is_tty w format level) of
     (Inr logger, Inr logger') \<Rightarrow> logger = logger'
   | (Inl e, Inl e') \<Rightarrow>
       (errors_is e errUnknownLogFormat \<longleftrightarrow> (\<exists>lvl. ParseLevel level = Inr lvl))
     \<and> (errors_is e' ErrUnknownLogLevel \<longleftrightarrow> (\<exists>f. resolveFormat is_tty format w = Inr f))
   | _ \<Rightarrow> False"
proof -
  have lvl: "case (mock_parseLevel level, ParseLevel level) of
      (Inr a, Inr b) \<Rightarrow> a = b | (Inl e, Inl e') \<Rightarrow> \<not> errors_is e errUnknownLogFormat \<and> errors_is e' ErrUnknownLogLevel | _ \<Rightarrow> False"
    by (simp add: mock_parseLevel_def ParseLevel_def Let_def ErrUnknownLogLevel_def)
  have same: "to_lower ''text'' = ''text''" "to_lower ''json'' = ''json''" by code_simp+
  have fmt: "case resolveFormat is_tty format w of
      Inr f \<Rightarrow> mock_resolveFormat is_tty w format = f \<and> (f = ''text'' \<or> f = ''json'')
    | Inl e \<Rightarrow> mock_resolveFormat is_tty w format \<noteq> ''text'' \<and> mock_resolveFormat is_tty w format \<noteq> ''json''
        \<and> \<not> errors_is e ErrUnknownLogLevel"
    using same
    by (cases w) (auto simp: resolveFormat_def mock_resolveFormat_def Let_def logFormatText_def logFormatJSON_def
      logFormatAuto_def mock_logFormatText_def mock_logFormatJSON_def mock_logFormatAuto_def
      ErrUnknownLogFormat_def ErrUnknownLogLevel_def)
  show ?thesis
    using lvl fmt
    by (auto simp: mock_newLogger_def NewLogger_def Let_def mock_logFormatText_def mock_logFormatJSON_def
        logFormatJSON_def errUnknownLogFormat_def split: sum.splits)
qed

definition mock_ok :: "mock_state \<Rightarrow> bool" where
  "mock_ok s \<longleftrightarrow>
     (Mock_Listening s \<longrightarrow> Mock_ErrCh s = []) \<and> length (Mock_ErrCh s) \<le> 1
   \<and> (Mock_Pc s = MockSelect \<longrightarrow>
        list_all (\<lambda>e. \<not> errors_is e http_ErrServerClosed \<and> \<not> errors_is e context_Canceled) (Mock_ErrCh s))
   \<and> (Mock_Pc s = MockShutdown \<longrightarrow> Mock_Cancelled s)
   \<and> (\<forall>v. Mock_Pc s = MockReturned v \<longrightarrow> (case v of None \<Rightarrow> Mock_Cancelled s | Some e \<Rightarrow> \<not> errors_is e context_Canceled))"

fun mock_left :: "mock_pc \<Rightarrow> nat" where
  "mock_left MockSelect = 2"
| "mock_left MockShutdown = 1"
| "mock_left (MockReturned v) = 0"

definition mock_budget :: "mock_state \<Rightarrow> nat" where
  "mock_budget s = (if Mock_Cancelled s then 0 else 1) + (if Mock_Listening s then 1 else 0) + mock_left (Mock_Pc s)"

definition mock_returned :: "mock_state \<Rightarrow> bool" where
  "mock_returned s = (\<exists>v. Mock_Pc s = MockReturned v)"

lemma mock_ok_step: "mock_step l s t \<Longrightarrow> mock_ok s \<Longrightarrow> mock_ok t"
  by (induction rule: mock_step.induct) (auto simp: mock_ok_def split: option.splits)

lemma mock_budget_step: "mock_step l s t \<Longrightarrow> mock_budget t < mock_budget s"
  by (induction rule: mock_step.induct) (auto simp: mock_budget_def)

lemma mock_cancelled_step: "mock_step l s t \<Longrightarrow> Mock_Cancelled s \<Longrightarrow> Mock_Cancelled t"
  by (induction rule: mock_step.induct) auto

lemma mock_progress: "Mock_Cancelled s \<Longrightarrow> \<not> mock_returned s \<Longrightarrow> \<exists>t. mock_step Own s t"
  by (cases "Mock_Pc s") (auto simp: mock_returned_def intro: mock_step.intros)

lemma mock_ok_start: "mock_ok mock_start"
  by (simp add: mock_ok_def mock_start_def)

interpretation mock_serve: bounded_process mock_step mock_start mock_ok mock_budget Mock_Cancelled mock_returned
  by unfold_locales
    (auto intro: mock_ok_start mock_ok_step mock_budget_step mock_cancelled_step mock_progress)

text \<open>
  The mock server's command ends when it is told to: no run of it is longer than four steps;
  once its context is cancelled it can always go on until it returns, with an error only if the
  server would not shut down or had already failed; it returns nil, which is its only way to exit
  with 0, only after a cancel; the listening goroutine never blocks on its channel.
\<close>
theorem mock_serve_contract:
  assumes "run mock_step mock_start ls s"
  shows "length ls \<le> 4
    \<and> (Mock_Cancelled s \<longrightarrow> (\<exists>n t. n \<le> 4 \<and> run mock_step s (replicate n Own) t \<and> mock_returned t))
    \<and> (\<forall>v. Mock_Pc s = MockReturned v \<longrightarrow> (fst (mock_run v) = 0 \<longleftrightarrow> v = None) \<and> (v = None \<longrightarrow> Mock_Cancelled s))
    \<and> length (Mock_ErrCh s) \<le> 1"
proof -
  have ok: "mock_ok s" by (rule mock_serve.run_inv [OF assms])
  have four: "mock_budget mock_start = 4" by (simp add: mock_budget_def mock_start_def)
  have "mock_budget s \<le> 4" using mock_serve.run_budget [OF assms] four by simp
  then have "Mock_Cancelled s \<longrightarrow> (\<exists>n t. n \<le> 4 \<and> run mock_step s (replicate n Own) t \<and> mock_returned t)"
    using mock_serve.can_finish [OF assms] by (meson le_trans)
  then show ?thesis using mock_serve.no_long_run [OF assms] four ok
    by (auto simp: mock_ok_def mock_run_def tool_exit_def split: option.splits)
qed

lemma mock_serve_contract_witness:
  "\<exists>n t. n \<le> 4 \<and> run mock_step (mock_start\<lparr>Mock_Cancelled := True\<rparr>) (replicate n Own) t \<and> mock_returned t"
proof -
  have "run mock_step mock_start ([] @ [Env]) (mock_start\<lparr>Mock_Cancelled := True\<rparr>)"
    by (intro run_step [OF run_start] mock_cancel) (simp add: mock_start_def)
  from mock_serve_contract [OF this] show ?thesis by (simp add: mock_start_def)
qed

text \<open>All tools end a cancelled run like the main program, with exit code 0 and nothing printed.\<close>

lemma tools_exit_like_spt:
  "fst (mock_run r) = fst (spt_exit r)" "fst (dataset_run r) = fst (spt_exit r)" "fst (upload_run r) = fst (spt_exit r)"
  "fst (judge_run r) = fst (spt_exit r)" "fst (regression_run r) = fst (spt_exit r)"
  by (simp_all add: mock_run_def dataset_run_def upload_run_def judge_run_def regression_run_def tool_exit_def
      spt_exit_def split: option.split)

text \<open>The default settings of the mock server's logger are accepted on every terminal.\<close>

lemma serve_defaults_log:
  "\<exists>logger. mock_newLogger is_tty (File 2) (MFlag_logFormat serve_flag_defaults) (MFlag_logLevel serve_flag_defaults) = Inr logger
     \<and> Logger_Level logger = LevelInfo"
proof -
  have "to_lower ''auto'' = ''auto''" "to_lower ''info'' = ''info''" by code_simp+
  then show ?thesis
    by (simp add: mock_newLogger_def serve_flag_defaults_def mock_parseLevel_def mock_resolveFormat_def Let_def
        mock_logFormatText_def mock_logFormatJSON_def mock_logFormatAuto_def)
qed

end
