(* ===== verification/Service_Contracts.thy ===== *)
theory Service_Contracts
  imports Domain_Types Go_Strings
begin

text \<open>
  The interfaces the roles are written against, which this commit declares and does not implement
  (\<^verbatim>\<open>internal/ebay\<close>, \<^verbatim>\<open>queue\<close>, \<^verbatim>\<open>cache\<close>, \<^verbatim>\<open>search\<close>, \<^verbatim>\<open>agent\<close>, \<^verbatim>\<open>pipeline\<close>, \<^verbatim>\<open>datastore\<close>): their
  data, their sentinel errors, and each interface as a record of its methods, steps on a state
  \<open>'w\<close> of the backend. Cancelling a context is not part of a method's input here.
\<close>

type_synonym ('w, 'a) go_method = "'w \<Rightarrow> (err + 'a) \<times> 'w"

subsection \<open>The eBay client\<close>

definition ErrItemNotFound :: err where "ErrItemNotFound = Sentinel ''ebay: item not found''"
definition ErrItemUnavailable :: err where "ErrItemUnavailable = Sentinel ''ebay: item unavailable''"
definition ErrDailyLimitReached :: err where "ErrDailyLimitReached = Sentinel ''ebay: daily quota exhausted''"
definition ErrUnauthorized :: err where "ErrUnauthorized = Sentinel ''ebay: unauthorized''"
definition ErrRateLimited :: err where "ErrRateLimited = Sentinel ''ebay: rate limited (per-second)''"
definition ErrTransient :: err where "ErrTransient = Sentinel ''ebay: transient error''"

record ItemState =
  State_ItemID :: string
  State_AvailabilityStatus :: string
  State_EndDate :: string
  State_BidCount :: int
  State_HTTPStatus :: int
  State_Cause :: err

text \<open>The struct as an error value.\<close>

definition item_state_err :: "ItemState \<Rightarrow> err" where
  "item_state_err e = ItemStateError (State_ItemID e) (State_AvailabilityStatus e) (State_EndDate e)
     (State_BidCount e) (State_HTTPStatus e) (State_Cause e)"

definition ItemState_Error :: "(err \<Rightarrow> string) \<Rightarrow> ItemState \<Rightarrow> string" where
  "ItemState_Error error_text e =
     ''ebay: item='' @ State_ItemID e @ '' http='' @ show_int (State_HTTPStatus e)
     @ '' availability='' @ quote (State_AvailabilityStatus e) @ '' end='' @ quote (State_EndDate e)
     @ '' bids='' @ show_int (State_BidCount e) @ '': '' @ error_text (State_Cause e)"

definition ItemState_Unwrap :: "ItemState \<Rightarrow> err" where
  "ItemState_Unwrap e = State_Cause e"

record ItemPrice =
  Price_Value :: string
  Price_Currency :: string

record ItemSummary =
  Summary_EbayItemID :: string
  Summary_Title :: string
  Summary_Price :: ItemPrice

record EbayItem =
  Ebay_ItemID :: string
  Ebay_Title :: string
  Ebay_Price :: ItemPrice
  Ebay_AvailabilityStatus :: string
  Ebay_ItemEndDate :: string
  Ebay_BidCount :: int

record SearchRequest =
  Request_Query :: string
  Request_CategoryID :: string
  Request_Limit :: int
  Request_Offset :: int
  Request_Sort :: string
  Request_Filters :: "string \<rightharpoonup> string"
  Request_Marketplace :: string

record SearchResponse =
  Response_Items :: "ItemSummary list"
  Response_Total :: int
  Response_Offset :: int
  Response_Limit :: int
  Response_HasMore :: bool

record LimiterSnapshot =
  Limiter_Count :: int
  Limiter_Limit :: int
  Limiter_Remaining :: int
  Limiter_WindowStart :: instant
  Limiter_ResetAt :: instant

record 'w EbayClient =
  Client_Search :: "SearchRequest \<Rightarrow> ('w, SearchResponse) go_method"
  Client_GetItem :: "string \<Rightarrow> ('w, EbayItem) go_method"

record 'w TokenProvider =
  Provider_Token :: "('w, string) go_method"

record 'w RateLimiter =
  Limiter_Wait :: "('w, unit) go_method"
  Limiter_Sync :: "int \<Rightarrow> int \<Rightarrow> instant \<Rightarrow> ('w, unit) go_method"
  Limiter_Snapshot :: "('w, LimiterSnapshot) go_method"

type_synonym 'w ListingChecker = "string \<Rightarrow> ('w, bool) go_method"

subsection \<open>Queue, cache and search\<close>

definition ErrQueueClosed :: err where "ErrQueueClosed = Sentinel ''queue: closed''"
definition ErrTaskNotFound :: err where "ErrTaskNotFound = Sentinel ''queue: task not found''"

record QueueEvent =
  Event_JobID :: JobID
  Event_TaskID :: TaskID
  Event_Stage :: Stage
  Event_State :: TaskState

text \<open>A subscription is the channel it returns: the events it will deliver.\<close>

record 'w Queue =
  Queue_Enqueue :: "Task \<Rightarrow> ('w, unit) go_method"
  Queue_Dequeue :: "Stage list \<Rightarrow> ('w, Task) go_method"
  Queue_Ack :: "TaskID \<Rightarrow> ('w, unit) go_method"
  Queue_Nack :: "TaskID \<Rightarrow> duration \<Rightarrow> ('w, unit) go_method"
  Queue_QueueDepth :: "Stage \<Rightarrow> ('w, int) go_method"
  Queue_Subscribe :: "string \<Rightarrow> ('w, QueueEvent list) go_method"
  Queue_Ping :: "('w, unit) go_method"

definition ErrMiss :: err where "ErrMiss = Sentinel ''cache: miss''"

record 'w Cache =
  Cache_Get :: "string \<Rightarrow> ('w, string) go_method"
  Cache_Set :: "string \<Rightarrow> string \<Rightarrow> duration \<Rightarrow> ('w, unit) go_method"
  Cache_Del :: "string \<Rightarrow> ('w, unit) go_method"
  Cache_Expire :: "string \<Rightarrow> duration \<Rightarrow> ('w, unit) go_method"
  Cache_Ping :: "('w, unit) go_method"

definition search_ErrNotFound :: err where "search_ErrNotFound = Sentinel ''search: not found''"

record SearchQuery =
  Query_Text :: string
  Query_Filters :: "string \<rightharpoonup> string"
  Query_Limit :: int
  Query_Offset :: int

record 'w SearchIndex =
  Search_IndexListing :: "Listing \<Rightarrow> ('w, unit) go_method"
  Search_DeleteListing :: "ListingID \<Rightarrow> ('w, unit) go_method"
  Search_Query :: "SearchQuery \<Rightarrow> ('w, ListingID list) go_method"
  Search_Ping :: "('w, unit) go_method"

subsection \<open>Agent, scheduler and datastore\<close>

definition ErrAgentUnavailable :: err where "ErrAgentUnavailable = Sentinel ''agent: provider unavailable''"

record CompleteRequest =
  Complete_System :: string
  Complete_Prompt :: string
  Complete_Model :: string
  Complete_Temperature :: f64
  Complete_MaxTokens :: int

record CompleteResponse =
  Reply_Text :: string
  Reply_Model :: string
  Reply_InputTokens :: int
  Reply_OutputTokens :: int

record 'w Agent =
  Agent_Complete :: "CompleteRequest \<Rightarrow> ('w, CompleteResponse) go_method"

definition ErrJobNotFound :: err where "ErrJobNotFound = Sentinel ''pipeline: job not found''"
definition ErrJobInFlight :: err where "ErrJobInFlight = Sentinel ''pipeline: job already in flight''"
definition ErrJobTerminal :: err where "ErrJobTerminal = Sentinel ''pipeline: job is terminal''"

record 'w Scheduler =
  Scheduler_Run :: "('w, unit) go_method"
  Scheduler_TriggerWatch :: "WatchID \<Rightarrow> JobTrigger \<Rightarrow> ('w, JobID) go_method"
  Scheduler_CancelJob :: "JobID \<Rightarrow> ('w, unit) go_method"

definition ErrNotFound :: err where "ErrNotFound = Sentinel ''datastore: not found''"
definition ErrConflict :: err where "ErrConflict = Sentinel ''datastore: conflict''"

record 'w Datastore =
  Store_GetWatch :: "WatchID \<Rightarrow> ('w, Watch) go_method"
  Store_ListWatches :: "WatchFilter \<Rightarrow> ('w, Watch list) go_method"
  Store_UpsertWatch :: "Watch \<Rightarrow> ('w, unit) go_method"
  Store_DueWatches :: "instant \<Rightarrow> int \<Rightarrow> ('w, Watch list) go_method"
  Store_GetListing :: "ListingID \<Rightarrow> ('w, Listing) go_method"
  Store_UpsertListing :: "Listing \<Rightarrow> ('w, unit) go_method"
  Store_GetListingByEbayItemID :: "string \<Rightarrow> ('w, Listing) go_method"
  Store_ListingsSince :: "duration \<Rightarrow> ('w, Listing list) go_method"
  Store_ReplaceComponents :: "ListingID \<Rightarrow> Component list \<Rightarrow> ('w, unit) go_method"
  Store_ComponentsForListing :: "ListingID \<Rightarrow> ('w, Component list) go_method"
  Store_ScoresForListings :: "ListingID list \<Rightarrow> ('w, ListingID \<rightharpoonup> Score) go_method"
  Store_CreateJob :: "Job \<Rightarrow> ('w, unit) go_method"
  Store_UpdateJobState :: "JobID \<Rightarrow> JobState \<Rightarrow> ('w, unit) go_method"
  Store_UpsertTask :: "Task \<Rightarrow> ('w, unit) go_method"
  Store_Ping :: "('w, unit) go_method"

subsection \<open>Errors through the interfaces\<close>

text \<open>
  The item's state does not hide its cause: \<^verbatim>\<open>errors.Is\<close> sees through it, also where callers
  have wrapped it on the way.
\<close>

lemma item_state_transparent:
  "errors_is (item_state_err e) t \<longleftrightarrow> errors_is (ItemState_Unwrap e) t"
  "errors_is (Errorf f [ArgErr (item_state_err e)]) t \<longleftrightarrow> errors_is (ItemState_Unwrap e) t"
  by (simp_all add: item_state_err_def ItemState_Unwrap_def)

lemmas service_sentinels =
  ErrItemNotFound_def ErrItemUnavailable_def ErrDailyLimitReached_def ErrUnauthorized_def ErrRateLimited_def
  ErrTransient_def ErrQueueClosed_def ErrTaskNotFound_def ErrMiss_def search_ErrNotFound_def
  ErrAgentUnavailable_def ErrJobNotFound_def ErrJobInFlight_def ErrJobTerminal_def ErrNotFound_def ErrConflict_def

end
