(* ===== verification/Spec2Isabelle.thy ===== *)
theory Spec2Isabelle
  imports Spt_Program Mock_Server Judge_Commands Dataset_Upload Regression_Report Dashgen_Document Tool_Commands Service_Contracts
begin

text \<open>
  A verification development for \<^verbatim>\<open>spt\<close> (Server Price Tracker), a Go service that watches eBay
  listings of server parts, with the tools kept beside it. All paths are relative to \<^verbatim>\<open>src/\<close>.

  \<^bold>\<open>The program.\<close> One binary (\<^verbatim>\<open>cmd/spt\<close>) holds the roles \<^verbatim>\<open>api\<close>, \<^verbatim>\<open>scheduler\<close> and \<^verbatim>\<open>worker\<close>
  and the commands \<^verbatim>\<open>migrate\<close>, \<^verbatim>\<open>version\<close> and \<^verbatim>\<open>gen-docs\<close>. The pre-run of the root command loads the
  configuration (files, environment, flags) and installs the logger; a role then sets up its
  observability, refuses to start on a database with pending migrations, and serves probes and
  metrics on the admin server until it is told to stop. The tools are a mock of the eBay API, the
  bootstrap of a regression dataset from sampled listings with its upload to Langfuse, the
  surfacing of examples for the judge, a runner of extraction backends against the dataset, and a
  generator of dashboards and alert rules.

  \<^bold>\<open>What Go and its libraries give.\<close>
  \<^item> \<open>Go_Prelude\<close>: error values with \<^verbatim>\<open>errors.Is\<close> and \<^verbatim>\<open>%w\<close>, results that may panic, sorting contracts.
  \<^item> \<open>Go_Strings\<close>, \<open>Go_Time\<close>, \<open>Go_Float\<close>: packages strings, strconv, path and time with its calendar
    and layouts; \<^verbatim>\<open>float64\<close> with exact rational arithmetic rounded to nearest-even.
  \<^item> \<open>Go_Utf8\<close>, \<open>Go_Decimal\<close>: runes and their repair; the shortest decimal text of a \<^verbatim>\<open>float64\<close>, which
    reads back as the same float.
  \<^item> \<open>Go_Http\<close>, \<open>Go_Json\<close>: response writers, requests, JSON documents and their decoding into fields;
    the bytes of a document, compact or indented, its scanner with the nesting limit, and the theorem
    that what is written reads back.
  \<^item> \<open>Go_Sha256\<close>, \<open>Go_Tabwriter\<close>: SHA-256 on 32-bit words; text/tabwriter with the theorem that the
    columns of a table line up.
  \<^item> \<open>Go_Process\<close>: goroutines as labelled step relations and the locale \<open>bounded_process\<close>, which
    \<open>Serve\<close>, the roles and the mock server's command interpret.
  \<^item> \<open>Go_Disk\<close>: files and directories with every state of the disk a crash can leave, and what the
    operating system may refuse.

  \<^bold>\<open>The service.\<close>
  \<^item> \<open>Domain_Types\<close>, \<open>Domain_Json\<close>: \<^verbatim>\<open>internal/domain\<close>, the shared data and its JSON.
  \<^item> \<open>Config_Types\<close>, \<open>Config_Validate\<close>, \<open>Config_Loader\<close>: \<^verbatim>\<open>internal/config\<close>. \<open>Load\<close> is the code's
    pipeline \<open>discoverFiles\<close>, \<open>decodeFile\<close>, \<open>projectSchema\<close>, \<open>applyFlagOverrides\<close>,
    \<open>applyDefaultsAfterMerge\<close>, \<open>Validate\<close>. The abstract side is \<open>discovered\<close> (the files that
    count), \<open>layered\<close> (the whole configuration that sections and flags give), \<open>bad_fields\<close> (the fields that break a rule) and \<open>usable\<close>.
  \<^item> \<open>Obs_Stack\<close>: \<^verbatim>\<open>internal/obs\<close>. The filter in front of the Langfuse exporter lets
    through exactly the spans tagged as agent spans; \<open>composeShutdown\<close> runs every shutdown and returns
    the first error.
  \<^item> \<open>Health_Server\<close>: \<^verbatim>\<open>internal/health\<close>, the probes and \<open>Serve\<close>.
  \<^item> \<open>Datastore_Migrate\<close>: \<^verbatim>\<open>internal/datastore\<close> (\<^verbatim>\<open>migrate.go\<close>, \<^verbatim>\<open>startup.go\<close>) and
    \<^verbatim>\<open>internal/app/cli/migrate.go\<close>, over what goose and the driver promise (\<open>goose_contract\<close>).
  \<^item> \<open>Role_Run\<close>: \<^verbatim>\<open>internal/app/api|scheduler|worker/run.go\<close> and the exit code of \<^verbatim>\<open>cmd/spt\<close>.
    A run is related to the error it returns and to the state of the execution that ended, so that a
    statement on the exit is one on that execution.
  \<^item> \<open>Cli_Commands\<close>: \<^verbatim>\<open>internal/app/cli\<close>, flags, pre-run, command tree, version and documentation.
  \<^item> \<open>Spt_Program\<close>: the composition of all of these, from the command line to the exit code.
  \<^item> \<open>Service_Contracts\<close>: the interfaces to eBay, the queue, the cache, the search index, the agent,
    the job scheduler and the datastore as records of methods, with their sentinel errors.

  \<^bold>\<open>The tools.\<close>
  \<^item> \<open>Mock_Quota\<close>, \<open>Mock_Fault\<close>, \<open>Mock_Scenarios\<close>, \<open>Mock_Server\<close>, \<open>Tool_Commands\<close>: \<^verbatim>\<open>tools/mock-server\<close>
    (counters as 64-bit words; the middleware is the locale \<open>metered_handler\<close>, interpreted on the two
    metered handlers; \<open>server_ok\<close> is the invariant of the server) and the roots and exit codes of the
    other tools.
  \<^item> \<open>Dataset_Sampler\<close>, \<open>Dataset_Upload\<close>: \<^verbatim>\<open>tools/dataset-bootstrap\<close> and \<^verbatim>\<open>tools/dataset-upload\<close>; the
    text the first writes is what the second parses.
  \<^item> \<open>Judge_Strategies\<close>, \<open>Judge_Commands\<close>: \<^verbatim>\<open>tools/judge-bootstrap\<close>, with the locale
    \<open>surface_strategy\<close> for the contract of the four strategies; the files of candidates.
  \<^item> \<open>Regression_Runner\<close>, \<open>Regression_Report\<close>: \<^verbatim>\<open>tools/regression-runner\<close>, with the locale \<open>extractor\<close>
    for the backends; the text of the report.
  \<^item> \<open>Dashgen_Specs\<close>, \<open>Dashgen_Files\<close>, \<open>Dashgen_Document\<close>: \<^verbatim>\<open>tools/dashgen\<close>, what is shipped, how it is
    written, with the locale \<open>atomic_files\<close> for a sequence of writes that do not disturb each other,
    and what a reader of a dashboard's file gets.

  \<^bold>\<open>How the code is rendered.\<close> A struct is a \<open>record\<close> whose fields carry the type's name as a prefix; a
  Go error is a value of \<open>err\<close>, a fallible function returns \<open>err + 'a\<close> or \<open>err option\<close> beside the new
  state, and an index or slice expression out of range is an outcome of its own. Loops are
  structural recursion, or \<open>function\<close> with a measure (the scanners); no definition of the code needs fuel. The client
  that pages through the mock server's search (\<open>fetch_pages\<close>) counts its requests, and as many as there
  are pages are shown to be enough. A
  mutex held for a whole method makes it one step. A Go \<^verbatim>\<open>int\<close> is an \<open>int\<close> where nothing can overflow
  it and a 64-bit word where it can. The processes end within their budgets, which count the
  signal, every state of their program and each message once: five steps for \<open>Serve\<close>, eight for a
  role beside it, four for the mock server; the locale shows no run is longer.

  \<^bold>\<open>Parameters.\<close> What the repository only calls is an argument: the HCL library and the file system
  (\<open>host\<close>, \<open>fsys\<close>, \<open>os_refusals\<close>), the OpenTelemetry SDK (\<open>otel\<close>), goose and the SQL driver (\<open>pg\<close>),
  the YAML library, regular expressions, Unicode's table of lower case, the clock and the offset of
  its location, the pseudo-random draw, the order of map iteration, \<^verbatim>\<open>sort.Slice\<close> (with the contract
  that it sorts), net/url, the transport and the peer of an HTTP client, net/http's listener. The hypotheses on them (\<open>goose_contract\<close>, \<open>sets_attributes\<close>, \<open>go_ok\<close>, \<open>slice_sort\<close>, a reader that returns
  each listing once) state their documentation, and each has a witness with a concrete function.

  \<^bold>\<open>What the theorems show.\<close> Which source every setting comes from, that validation is exact and a
  loaded configuration usable (\<open>Config_Loader\<close>); that roles and servers end, how, and with which exit
  code (\<open>Health_Server\<close>, \<open>Role_Run\<close>, this theory); that no role serves on an outdated database; the
  answers, quotas and invariant of the mock server; determinism, quotas and round trip of the dataset;
  exactness of the selections and of the reports; that the files of one command read back in the next
  (\<open>written_sample_parses\<close>, \<open>apply_RunE_gate\<close>, \<open>dashboard_roundtrip\<close>); crash safety of the generated
  files. Where the code
  departs from what its documentation says, a lemma beside the property shows the run that does it
  (\<open>clean_shutdown_can_fail\<close>, \<open>fault_rules_lost_update\<close>, \<open>long_s_format_diverges\<close>,
  \<open>queries_share_refid\<close>, \<open>concurrent_runs_expose_empty\<close>, \<open>table_errors_lost\<close>).

  \<^bold>\<open>Not modelled.\<close> The mocks under \<^verbatim>\<open>mocks/\<close> are generated. The clients behind the interfaces of
  \<open>Service_Contracts\<close> are not in the repository, so nothing is claimed of them beyond their types and
  errors. The text of an error message is a parameter where a response carries it. Parsing of command
  lines and help texts are cobra's. Migration files, charts and scripts
  are data or other languages.
\<close>

section \<open>Properties of the whole program\<close>



text \<open>
  The model tells a sentinel error by its text, the code by its address. They agree: no two
  sentinels of the repository, and none of the libraries' it tests for, have the same text.
\<close>

lemma sentinels_apart:
  "distinct
    [context_Canceled, context_DeadlineExceeded, fs_ErrNotExist, http_ErrServerClosed, ErrServerClosed, ErrPendingMigrations,
     ErrParse, ErrDecode, ErrInvalidDuration, ErrRequired, ErrOutOfRange, ErrReadFile,
     ErrUnknownLogFormat, ErrUnknownLogLevel, ErrInvalidOTLPEndpoint, ErrDriftDetected, ErrMissingCredentials,
     ErrUnknownStrategy, ErrFixturesNotFound, ErrUnknownScenario, ErrBackendUnconfigured, ErrLangfuseDatasetNotWired,
     errUnknownLogFormat, ErrItemNotFound, ErrItemUnavailable, ErrDailyLimitReached, ErrUnauthorized, ErrRateLimited,
     ErrTransient, ErrQueueClosed, ErrTaskNotFound, ErrMiss, search_ErrNotFound, ErrAgentUnavailable, ErrJobNotFound,
     ErrJobInFlight, ErrJobTerminal, ErrNotFound, ErrConflict]"
  by (simp add: context_Canceled_def context_DeadlineExceeded_def fs_ErrNotExist_def http_ErrServerClosed_def
      ErrServerClosed_def ErrPendingMigrations_def config_sentinels ErrUnknownLogFormat_def ErrUnknownLogLevel_def
      ErrInvalidOTLPEndpoint_def ErrDriftDetected_def ErrMissingCredentials_def ErrUnknownStrategy_def
      ErrFixturesNotFound_def ErrUnknownScenario_def ErrBackendUnconfigured_def ErrLangfuseDatasetNotWired_def
      errUnknownLogFormat_def service_sentinels)

end
